theory Spec2Isabelle
  imports Main "HOL-Library.Code_Target_Nat"
begin

section \<open>Data model of the AFP worker (src/src/kafp_worker.cpp)\<close>

text \<open>
  The worker talks to three collaborators it does not implement: the afpfs-ng
  stateless client library (\<open>afp_sl_*\<close>), the operating system (the lock and
  breaker files, the clock, \<open>alarm\<close>, \<open>msleep\<close>) and the KIO host
  (password dialog, credential cache, result emission).  Every such interaction
  is a \<open>call\<close>; what the collaborator answers is a \<open>resp\<close>.  The
  environment is an arbitrary function from the history of interactions and the
  current call to the answer, so a theorem for all environments covers every
  behaviour of the collaborators.
\<close>

subsection \<open>Result codes and KIO results\<close>

text \<open>
  The \<open>AFP_SERVER_RESULT_*\<close> codes are integer constants of the library
  headers.  The named ones are pairwise distinct (they label the cases of one
  \<open>switch\<close>); every other integer is \<open>AFP_SERVER_RESULT_other\<close>.
\<close>

datatype afp_result =
    AFP_SERVER_RESULT_OKAY
  | AFP_SERVER_RESULT_ALREADY_CONNECTED
  | AFP_SERVER_RESULT_NOAUTHENT
  | AFP_SERVER_RESULT_ENOENT
  | AFP_SERVER_RESULT_ACCESS
  | AFP_SERVER_RESULT_EXIST
  | AFP_SERVER_RESULT_NOVOLUME
  | AFP_SERVER_RESULT_NOSERVER
  | AFP_SERVER_RESULT_TIMEDOUT
  | AFP_SERVER_RESULT_DAEMON_ERROR
  | AFP_SERVER_RESULT_NOTSUPPORTED
  | AFP_SERVER_RESULT_NOTCONNECTED
  | AFP_SERVER_RESULT_NOTATTACHED
  | AFP_SERVER_RESULT_ALREADY_MOUNTED
  | AFP_SERVER_RESULT_ALREADY_ATTACHED
  | AFP_SERVER_RESULT_other int

datatype kio_error =
    ERR_DOES_NOT_EXIST
  | ERR_ACCESS_DENIED
  | ERR_FILE_ALREADY_EXIST
  | ERR_CANNOT_CONNECT
  | ERR_SERVER_TIMEOUT
  | ERR_UNSUPPORTED_ACTION
  | ERR_CANNOT_AUTHENTICATE
  | ERR_INTERNAL
  | ERR_USER_CANCELED
  | ERR_IS_DIRECTORY
  | ERR_CANNOT_WRITE

text \<open>
  The text of a failure: a subject string (a path or a server name), or a
  translated template with its arguments, or a subject followed by a newline and
  a translated text.
\<close>

datatype msg_arg = ArgInt int | ArgStr string | ArgCode afp_result

datatype message =
    Subject string
  | I18n string "msg_arg list"
  | SubjectThen string string "msg_arg list"

datatype WorkerResult = Pass | Fail kio_error message

fun success :: "WorkerResult \<Rightarrow> bool" where
  "success Pass = True"
| "success (Fail e m) = False"

subsection \<open>Identifiers and targets\<close>

text \<open>What the worker reads of a \<open>QUrl\<close>: the accessors it calls.\<close>

record QUrl =
  q_scheme :: string
  q_host :: string
  q_port :: int
  q_userName :: string
  q_password :: string
  q_path :: string

text \<open>\<open>struct afp_url\<close>: the fields the worker writes.\<close>

record afp_url =
  servername :: string
  port :: int
  username :: string
  password :: string
  volumename :: string
  urlpath :: string

text \<open>
  The sizes of the character arrays of \<open>struct afp_url\<close> and the value
  \<open>afp_default_url\<close> leaves in it come from the library headers; they are
  parameters of the model.
\<close>

record afp_limits =
  default_url :: afp_url
  sz_servername :: nat
  sz_username :: nat
  sz_password :: nat
  sz_volumename :: nat
  sz_path :: nat

record ParsedUrl =
  afpUrl :: afp_url
  server :: string
  volume :: string
  path :: string
  hasVolume :: bool
  hasPath :: bool

text \<open>
  \<open>std::strncpy(dst, src, sizeof(dst) - 1)\<close> into an array whose last byte is
  zero: the C string left in \<open>dst\<close> is the source up to its first NUL, cut
  to the given number of bytes.
\<close>

definition strncpy :: "nat \<Rightarrow> string \<Rightarrow> string" where
  "strncpy n src = take n (takeWhile (\<lambda>c. c \<noteq> CHR 0x00) src)"

text \<open>
  \<open>QString::split(sep, Qt::SkipEmptyParts)\<close>; the second argument is the
  part read so far.
\<close>

fun split_acc :: "char \<Rightarrow> string \<Rightarrow> string \<Rightarrow> string list" where
  "split_acc sep cur [] = (if cur = [] then [] else [cur])"
| "split_acc sep cur (c # cs) =
     (if c = sep
      then (if cur = [] then split_acc sep [] cs else cur # split_acc sep [] cs)
      else split_acc sep (cur @ [c]) cs)"

definition splitSkipEmptyParts :: "char \<Rightarrow> string \<Rightarrow> string list" where
  "splitSkipEmptyParts sep str = split_acc sep [] str"

text \<open>\<open>QStringList::join(sep)\<close>.\<close>

fun join :: "char \<Rightarrow> string list \<Rightarrow> string" where
  "join sep [] = []"
| "join sep [p] = p"
| "join sep (p # q # ps) = p @ sep # join sep (q # ps)"

text \<open>\<open>AfpWorker::parseAfpUrl\<close> (lines 101-155).\<close>

definition parseAfpUrl :: "afp_limits \<Rightarrow> QUrl \<Rightarrow> ParsedUrl" where
  "parseAfpUrl lim url =
    (let u0 = default_url lim;
         u1 = u0\<lparr>servername := strncpy (sz_servername lim - 1) (q_host url)\<rparr>;
         u2 = (if q_port url > 0 then u1\<lparr>port := q_port url\<rparr> else u1);
         u3 = (if q_userName url \<noteq> []
               then u2\<lparr>username := strncpy (sz_username lim - 1) (q_userName url)\<rparr> else u2);
         u4 = (if q_password url \<noteq> []
               then u3\<lparr>password := strncpy (sz_password lim - 1) (q_password url)\<rparr> else u3);
         parts = splitSkipEmptyParts CHR ''/'' (q_path url);
         pu0 = \<lparr>afpUrl = u4, server = q_host url, volume = [], path = [],
                hasVolume = False, hasPath = False\<rparr>;
         pu1 = (if parts \<noteq> []
                then (let pv = pu0\<lparr>volume := hd parts, hasVolume := True,
                                    afpUrl := u4\<lparr>volumename :=
                                       strncpy (sz_volumename lim - 1) (hd parts)\<rparr>\<rparr>
                      in if length parts > 1
                         then pv\<lparr>path := join CHR ''/'' (tl parts), hasPath := True\<rparr>
                         else pv)
                else pu0);
         pu2 = (if path pu1 \<noteq> []
                then pu1\<lparr>afpUrl := (afpUrl pu1)\<lparr>urlpath :=
                        strncpy (sz_path lim - 1) (CHR ''/'' # path pu1)\<rparr>\<rparr>
                else pu1)
     in if hasVolume pu2 \<and> \<not> hasPath pu2
        then pu2\<lparr>afpUrl := (afpUrl pu2)\<lparr>urlpath := strncpy (sz_path lim - 1) ''/''\<rparr>\<rparr>
        else pu2)"

subsection \<open>Calls, answers and the worker's state\<close>

type_synonym handle = nat

text \<open>
  \<open>serverid_t\<close>, \<open>volumeid_t\<close> and file ids are opaque values the worker
  only stores and passes back; \<open>0\<close> is \<open>nullptr\<close>.  The library takes
  them by pointer and is taken not to overwrite the worker's copy.
\<close>

text \<open>\<open>KIO::AuthInfo\<close>: the fields the worker sets or reads.\<close>

record AuthInfo =
  info_host :: string
  info_port :: "int option"
  info_urlUser :: string
  info_username :: string
  info_password :: string
  keepPassword :: bool

text \<open>\<open>struct stat\<close> as the worker reads it.\<close>

record stat_rec =
  st_size :: nat
  st_mode :: nat

definition S_ISDIR :: "nat \<Rightarrow> bool" where
  "S_ISDIR m = ((m div 4096) mod 16 = 4)"

definition S_ISREG :: "nat \<Rightarrow> bool" where
  "S_ISREG m = ((m div 4096) mod 16 = 8)"

text \<open>
  The entries handed to the host are kept as the helper that builds them and its
  arguments (\<open>statToUDS\<close>, \<open>serverOrVolumeEntry\<close>,
  \<open>volumeSummaryToUDS\<close> of the i-th volume, the entry built from the i-th
  record of the \<open>readdir\<close> page that starts at a given index);
  the optional MIME type is the one added afterwards, either what
  \<open>QMimeDatabase::mimeTypeForFile\<close> gives for a name or
  \<open>inode/directory\<close>.
\<close>

datatype mime = mimeTypeForFile string | inode_directory

datatype uds_entry =
    statToUDS stat_rec string "mime option"
  | serverOrVolumeEntry string
  | volumeSummaryToUDS nat
  | readdirEntry int nat

datatype open_mode = O_RDONLY | O_RDWR

datatype call =
    afp_sl_conn_setup
  | afp_sl_disconnect handle
  | afp_sl_connect afp_url
  | afp_sl_attach afp_url
  | afp_sl_getvolid afp_url
  | afp_sl_getvols afp_url nat
  | afp_sl_stat handle string afp_url
  | afp_sl_readdir handle string afp_url int nat
  | afp_sl_open handle string afp_url open_mode
  | afp_sl_read handle nat nat nat
  | afp_sl_close handle nat
  | afp_sl_creat handle string afp_url int
  | afp_sl_truncate handle string afp_url nat
  | afp_sl_write handle nat nat nat
  | afp_sl_chmod handle string afp_url int
  | afp_sl_mkdir handle string afp_url int
  | afp_sl_unlink handle string afp_url
  | afp_sl_rmdir handle string afp_url
  | afp_sl_rename handle string string afp_url
  | afp_sl_statfs handle string afp_url
  | stat_breaker
  | time_now
  | unlink_breaker
  | open_breaker
  | open_lock
  | flock_ex int
  | close_fd int
  | alarm nat
  | msleep nat
  | checkCachedAuthentication AuthInfo
  | openPasswordDialog AuthInfo bool
  | cacheAuthentication AuthInfo
  | statEntry uds_entry
  | listEntry uds_entry
  | listEntries "uds_entry list"
  | totalSize nat
  | mimeType string
  | data nat
  | dataReq
  | readData
  | setMetaData string nat

text \<open>
  One answer type for all calls; each call reads the fields it has:
  \<open>ret\<close> the library's result code, \<open>rc\<close> the integer an OS or KIO call
  returns (\<open>::stat\<close>, \<open>::open\<close>, \<open>openPasswordDialog\<close>,
  \<open>readData\<close>) and \<open>flg\<close> its boolean (\<open>checkCachedAuthentication\<close>,
  the end-of-file and end-of-directory flags), \<open>hnd\<close> the handle or file id
  written back, \<open>cnt\<close> the count written back (bytes received or written,
  entries, volumes, the size of the buffer \<open>readData\<close> filled),
  \<open>r_stat\<close> the \<open>struct stat\<close>, \<open>r_time\<close> a time in seconds
  (\<open>st_mtime\<close> of the breaker file, \<open>time(nullptr)\<close>), \<open>r_info\<close>
  the \<open>AuthInfo\<close> after the call, and the three \<open>statvfs\<close> fields.
  A data chunk is represented by its length.
\<close>

record resp =
  ret :: afp_result
  rc :: int
  flg :: bool
  hnd :: handle
  cnt :: nat
  r_stat :: stat_rec
  r_time :: int
  r_info :: AuthInfo
  f_blocks :: nat
  f_frsize :: nat
  f_bavail :: nat

type_synonym event = "call \<times> resp"

type_synonym env = "event list \<Rightarrow> call \<Rightarrow> resp"

text \<open>The member variables of \<open>AfpWorker\<close> (lines 68-75).\<close>

record AfpWorker =
  m_connSetupDone :: bool
  m_cachedServer :: string
  m_serverId :: handle
  m_cachedVolume :: string
  m_volumeId :: handle
  m_cachedUser :: string
  m_cachedPass :: string

text \<open>The worker together with the history of its interactions.\<close>

record sys =
  wk :: AfpWorker
  trace :: "event list"

definition perform :: "env \<Rightarrow> call \<Rightarrow> sys \<Rightarrow> resp \<times> sys" where
  "perform e c s = (e (trace s) c, s\<lparr>trace := trace s @ [(c, e (trace s) c)]\<rparr>)"

definition initial :: sys where
  "initial = \<lparr>wk = \<lparr>m_connSetupDone = False, m_cachedServer = [], m_serverId = 0,
                      m_cachedVolume = [], m_volumeId = 0, m_cachedUser = [],
                      m_cachedPass = []\<rparr>,
               trace = []\<rparr>"

text \<open>The calls issued between two states.\<close>

definition issued :: "sys \<Rightarrow> sys \<Rightarrow> call list" where
  "issued s s' = map fst (drop (length (trace s)) (trace s'))"

subsection \<open>Error classification\<close>

text \<open>\<open>AfpWorker::isRecoverableSessionError\<close> (lines 503-515).\<close>

fun isRecoverableSessionError :: "afp_result \<Rightarrow> bool" where
  "isRecoverableSessionError AFP_SERVER_RESULT_NOTCONNECTED = True"
| "isRecoverableSessionError AFP_SERVER_RESULT_NOTATTACHED = True"
| "isRecoverableSessionError AFP_SERVER_RESULT_DAEMON_ERROR = True"
| "isRecoverableSessionError AFP_SERVER_RESULT_NOSERVER = True"
| "isRecoverableSessionError AFP_SERVER_RESULT_TIMEDOUT = True"
| "isRecoverableSessionError r = False"

text \<open>\<open>AfpWorker::mapAfpError\<close> (lines 588-626).\<close>

fun mapAfpError :: "afp_result \<Rightarrow> string \<Rightarrow> WorkerResult" where
  "mapAfpError AFP_SERVER_RESULT_OKAY p = Pass"
| "mapAfpError AFP_SERVER_RESULT_ENOENT p = Fail ERR_DOES_NOT_EXIST (Subject p)"
| "mapAfpError AFP_SERVER_RESULT_ACCESS p = Fail ERR_ACCESS_DENIED (Subject p)"
| "mapAfpError AFP_SERVER_RESULT_EXIST p = Fail ERR_FILE_ALREADY_EXIST (Subject p)"
| "mapAfpError AFP_SERVER_RESULT_NOVOLUME p =
     Fail ERR_DOES_NOT_EXIST (I18n ''Volume not found: %1'' [ArgStr p])"
| "mapAfpError AFP_SERVER_RESULT_NOSERVER p =
     Fail ERR_CANNOT_CONNECT (SubjectThen p ''AFP server not found'' [])"
| "mapAfpError AFP_SERVER_RESULT_TIMEDOUT p = Fail ERR_SERVER_TIMEOUT (Subject p)"
| "mapAfpError AFP_SERVER_RESULT_DAEMON_ERROR p =
     Fail ERR_CANNOT_CONNECT (SubjectThen p ''Cannot communicate with AFP server'' [])"
| "mapAfpError AFP_SERVER_RESULT_NOTSUPPORTED p = Fail ERR_UNSUPPORTED_ACTION (Subject p)"
| "mapAfpError AFP_SERVER_RESULT_NOTCONNECTED p =
     Fail ERR_CANNOT_CONNECT (SubjectThen p ''Not connected to AFP server'' [])"
| "mapAfpError AFP_SERVER_RESULT_NOTATTACHED p =
     Fail ERR_CANNOT_CONNECT (SubjectThen p ''Not attached to volume'' [])"
| "mapAfpError AFP_SERVER_RESULT_NOAUTHENT p =
     Fail ERR_CANNOT_AUTHENTICATE (I18n ''Authentication with AFP server failed'' [])"
| "mapAfpError r p = Fail ERR_INTERNAL (I18n ''AFP error %1'' [ArgCode r])"

text \<open>\<open>AfpWorker::mapAfpConnectError\<close> (lines 628-648).\<close>

fun mapAfpConnectError :: "afp_result \<Rightarrow> string \<Rightarrow> WorkerResult" where
  "mapAfpConnectError AFP_SERVER_RESULT_NOAUTHENT sv =
     Fail ERR_CANNOT_AUTHENTICATE (SubjectThen sv ''Authentication with AFP server failed'' [])"
| "mapAfpConnectError AFP_SERVER_RESULT_NOSERVER sv =
     Fail ERR_CANNOT_CONNECT (SubjectThen sv ''Could not find AFP server'' [])"
| "mapAfpConnectError AFP_SERVER_RESULT_TIMEDOUT sv =
     Fail ERR_SERVER_TIMEOUT (SubjectThen sv ''Connection timed out'' [])"
| "mapAfpConnectError AFP_SERVER_RESULT_DAEMON_ERROR sv =
     Fail ERR_CANNOT_CONNECT (SubjectThen sv ''Cannot communicate with AFP server'' [])"
| "mapAfpConnectError r sv =
     Fail ERR_CANNOT_CONNECT (SubjectThen sv ''AFP connection error %1'' [ArgCode r])"

section \<open>Connection lifecycle\<close>

text \<open>\<open>AfpWorker::ensureConnSetup\<close> (lines 161-169).\<close>

definition ensureConnSetup :: "env \<Rightarrow> sys \<Rightarrow> WorkerResult \<times> sys" where
  "ensureConnSetup e s =
     (if m_connSetupDone (wk s) then (Pass, s)
      else (Pass, (snd (perform e afp_sl_conn_setup s))\<lparr>wk := (wk s)\<lparr>m_connSetupDone := True\<rparr>\<rparr>))"

text \<open>
  The six assignments that empty the session cache (lines 181-186 and 495-500).
\<close>

definition clearSession :: "AfpWorker \<Rightarrow> AfpWorker" where
  "clearSession w = w\<lparr>m_serverId := 0, m_cachedServer := [], m_cachedUser := [],
                        m_cachedPass := [], m_volumeId := 0, m_cachedVolume := []\<rparr>"

text \<open>
  The two \<open>strncpy\<close> calls that copy a user name and a password into
  \<open>pu.afpUrl\<close> (lines 227-230, 243-246, 371-374).
\<close>

definition copyCredentials :: "afp_limits \<Rightarrow> AuthInfo \<Rightarrow> ParsedUrl \<Rightarrow> ParsedUrl" where
  "copyCredentials lim info pu =
     pu\<lparr>afpUrl := (afpUrl pu)\<lparr>username := strncpy (sz_username lim - 1) (info_username info),
                               password := strncpy (sz_password lim - 1) (info_password info)\<rparr>\<rparr>"

text \<open>
  \<open>AfpWorker::ensureConnected\<close> is long; its parts are separate definitions,
  in the order of the source.  Lines 177-187: connected to a different server.
\<close>

definition switchServer :: "env \<Rightarrow> ParsedUrl \<Rightarrow> sys \<Rightarrow> sys" where
  "switchServer e pu s =
     (if m_serverId (wk s) \<noteq> 0 \<and> m_cachedServer (wk s) \<noteq> server pu
      then (snd (perform e (afp_sl_disconnect (m_serverId (wk s))) s))\<lparr>wk := clearSession (wk s)\<rparr>
      else s)"

text \<open>Lines 191-197: the cached credentials are copied into \<open>pu\<close>.\<close>

definition fillCachedCredentials :: "afp_limits \<Rightarrow> AfpWorker \<Rightarrow> ParsedUrl \<Rightarrow> ParsedUrl" where
  "fillCachedCredentials lim w pu =
     (let u1 = (if m_cachedUser w \<noteq> []
                then (afpUrl pu)\<lparr>username := strncpy (sz_username lim - 1) (m_cachedUser w)\<rparr>
                else afpUrl pu);
          u2 = (if m_cachedPass w \<noteq> []
                then u1\<lparr>password := strncpy (sz_password lim - 1) (m_cachedPass w)\<rparr>
                else u1)
      in pu\<lparr>afpUrl := u2\<rparr>)"

text \<open>Lines 202-217: the \<open>AuthInfo\<close> for the credential cache and the dialog.\<close>

definition initialAuthInfo :: "ParsedUrl \<Rightarrow> AuthInfo" where
  "initialAuthInfo pu =
     \<lparr>info_host = server pu,
      info_port = (if port (afpUrl pu) > 0 \<and> port (afpUrl pu) \<noteq> 548
                   then Some (port (afpUrl pu)) else None),
      info_urlUser = username (afpUrl pu),
      info_username = username (afpUrl pu),
      info_password = password (afpUrl pu),
      keepPassword = True\<rparr>"

text \<open>
  Lines 220-232: credentials of the identifier, else of the credential cache.
  The value is \<open>haveCreds\<close>, \<open>info\<close> and \<open>pu\<close>.
\<close>

definition cachedCredentials ::
  "env \<Rightarrow> afp_limits \<Rightarrow> ParsedUrl \<Rightarrow> AuthInfo \<Rightarrow> sys \<Rightarrow> (bool \<times> AuthInfo \<times> ParsedUrl) \<times> sys" where
  "cachedCredentials e lim pu info s =
     (if \<not> (info_username info \<noteq> [] \<and> info_password info \<noteq> [])
      then (let (c, sc) = perform e (checkCachedAuthentication info) s
            in if flg c
               then ((info_username (r_info c) \<noteq> [] \<and> info_password (r_info c) \<noteq> [],
                      r_info c, copyCredentials lim (r_info c) pu), sc)
               else ((False, r_info c, pu), sc))
      else ((True, info, pu), s))"

text \<open>
  Lines 235-248: no credentials, so the dialog is shown before connecting.
  \<open>Inl\<close> is a \<open>return\<close> of \<open>ensureConnected\<close>; \<open>Inr\<close> carries
  \<open>pu\<close>, \<open>info\<close> and \<open>dialogUsed\<close> on.
\<close>

definition promptCredentials ::
  "env \<Rightarrow> afp_limits \<Rightarrow> ParsedUrl \<Rightarrow> AuthInfo \<Rightarrow> sys \<Rightarrow>
     ((WorkerResult \<times> ParsedUrl) + (ParsedUrl \<times> AuthInfo \<times> bool)) \<times> sys" where
  "promptCredentials e lim pu info s =
     (let (d, s1) = perform e (openPasswordDialog info False) s
      in if rc d \<noteq> 0
         then (Inl (Fail ERR_USER_CANCELED (Subject (server pu)), pu), s1)
         else (Inr (copyCredentials lim (r_info d) pu, r_info d, True), s1))"

text \<open>Lines 173-248: everything before the coordination files are looked at.\<close>

definition gatherCredentials ::
  "env \<Rightarrow> afp_limits \<Rightarrow> ParsedUrl \<Rightarrow> sys \<Rightarrow>
     ((WorkerResult \<times> ParsedUrl) + (ParsedUrl \<times> AuthInfo \<times> bool)) \<times> sys" where
  "gatherCredentials e lim pu s =
    (let (r, s1) = ensureConnSetup e s
     in if \<not> success r then (Inl (r, pu), s1)
        else
         let s2 = switchServer e pu s1
         in if m_serverId (wk s2) \<noteq> 0
            then (Inl (Pass, fillCachedCredentials lim (wk s2) pu), s2)
            else
             let ((haveCreds, info1, pu1), s3) =
                   cachedCredentials e lim pu (initialAuthInfo pu) s2
             in if \<not> haveCreds then promptCredentials e lim pu1 info1 s3
                else (Inr (pu1, info1, False), s3))"

text \<open>
  The value of an integer in a \<open>w\<close>-bit two's-complement type: what a
  conversion to that type gives, and what its arithmetic gives when a result
  does not fit (taken to wrap around).
\<close>

definition wrap_signed :: "nat \<Rightarrow> int \<Rightarrow> int" where
  "wrap_signed w x = (x + 2 ^ (w - 1)) mod 2 ^ w - 2 ^ (w - 1)"

text \<open>
  The circuit-breaker check (lines 260-273, and again after the lock is taken,
  lines 283-294): \<open>Some age\<close> when the marker exists and is younger than
  \<open>BREAKER_COOLDOWN_SECS = 30\<close>, else \<open>None\<close>, after unlinking a marker
  that has expired.  \<open>age\<close> is a \<open>time_t\<close>, the difference of two 64-bit
  times.
\<close>

definition breakerCheck :: "env \<Rightarrow> sys \<Rightarrow> int option \<times> sys" where
  "breakerCheck e s =
    (let (b, s1) = perform e stat_breaker s
     in if rc b = 0
        then (let (t, s2) = perform e time_now s1;
                  age = wrap_signed 64 (r_time t - r_time b)
              in if age < 30 then (Some age, s2)
                 else (None, snd (perform e unlink_breaker s2)))
        else (None, s1))"

text \<open>
  The failure of a check that found the breaker active (lines 267-269 and
  289-291).  The hint is \<open>BREAKER_COOLDOWN_SECS - static_cast<int>(age)\<close>, an
  \<open>int\<close> computed from the 32-bit value of \<open>age\<close>.
\<close>

definition breakerFailure :: "int \<Rightarrow> WorkerResult" where
  "breakerFailure age =
     Fail ERR_CANNOT_CONNECT
       (I18n ''AFP daemon not responding (retry in %1 s)''
          [ArgInt (wrap_signed 32 (30 - wrap_signed 32 age))])"

text \<open>\<open>if (lockFd >= 0) ::close(lockFd);\<close>\<close>

definition closeLock :: "env \<Rightarrow> int \<Rightarrow> sys \<Rightarrow> sys" where
  "closeLock e lockFd s = (if lockFd \<ge> 0 then snd (perform e (close_fd lockFd) s) else s)"

text \<open>
  \<open>lockFd = ::open(lockPath, ...); if (lockFd >= 0) flock(lockFd, LOCK_EX);\<close>
  (lines 277-279 and 378-380).
\<close>

definition acquireLock :: "env \<Rightarrow> sys \<Rightarrow> int \<times> sys" where
  "acquireLock e s =
    (let (l, s1) = perform e open_lock s
     in if rc l \<ge> 0 then (rc l, snd (perform e (flock_ex (rc l)) s1)) else (rc l, s1))"

text \<open>
  Lines 331-350: the connect call succeeded with the handle \<open>sid\<close>.
\<close>

definition connectSucceeded ::
  "env \<Rightarrow> ParsedUrl \<Rightarrow> AuthInfo \<Rightarrow> bool \<Rightarrow> int \<Rightarrow> handle \<Rightarrow> sys \<Rightarrow> sys" where
  "connectSucceeded e pu info dialogUsed lockFd sid s =
    (let s1 = closeLock e lockFd s;
         s2 = snd (perform e unlink_breaker s1);
         s3 = s2\<lparr>wk := (wk s2)\<lparr>m_serverId := sid, m_cachedServer := server pu,
                      m_cachedUser := username (afpUrl pu),
                      m_cachedPass := password (afpUrl pu)\<rparr>\<rparr>
     in if dialogUsed \<and> keepPassword info
        then snd (perform e (cacheAuthentication
                    (info\<lparr>info_username := username (afpUrl pu),
                          info_password := password (afpUrl pu)\<rparr>)) s3)
        else s3)"

text \<open>
  Lines 397-406: all retries are exhausted, the breaker marker is created and
  the lock released.
\<close>

definition tripBreaker :: "env \<Rightarrow> int \<Rightarrow> sys \<Rightarrow> sys" where
  "tripBreaker e lockFd s =
    (let (b, s1) = perform e open_breaker s;
         s2 = (if rc b \<ge> 0 then snd (perform e (close_fd (rc b)) s1) else s1)
     in closeLock e lockFd s2)"

text \<open>
  Lines 311-327: one call of \<open>afp_sl_connect\<close> under the alarm; a success
  without a handle is turned into \<open>AFP_SERVER_RESULT_DAEMON_ERROR\<close>.  The
  value is \<open>ret\<close> and \<open>sid\<close>.  The alarm that kills the process when the
  call never returns is not modelled: every call answers.
\<close>

definition connectOnce :: "env \<Rightarrow> ParsedUrl \<Rightarrow> sys \<Rightarrow> (afp_result \<times> handle) \<times> sys" where
  "connectOnce e pu s =
    (let s1 = snd (perform e (alarm 15) s);
         (c, s2) = perform e (afp_sl_connect (afpUrl pu)) s1;
         s3 = snd (perform e (alarm 0) s2)
     in if (ret c = AFP_SERVER_RESULT_OKAY \<or> ret c = AFP_SERVER_RESULT_ALREADY_CONNECTED)
           \<and> hnd c = 0
        then ((AFP_SERVER_RESULT_DAEMON_ERROR, hnd c), s3)
        else ((ret c, hnd c), s3))"

text \<open>
  One pass through the body of the connect / retry loop (lines 302-408), with
  \<open>MAX_CONNECT_RETRIES = 3\<close>, \<open>BASE_RETRY_DELAY_MS = 500\<close> and
  \<open>CONNECT_TIMEOUT_SECS = 15\<close>.  \<open>Inl\<close> is a \<open>return\<close>; \<open>Inr\<close>
  is a \<open>continue\<close> with the new values of \<open>pu\<close>, \<open>info\<close>,
  \<open>dialogUsed\<close>, \<open>lockFd\<close> and \<open>transientRetries\<close>.
\<close>

definition connect_iteration ::
  "env \<Rightarrow> afp_limits \<Rightarrow> ParsedUrl \<Rightarrow> AuthInfo \<Rightarrow> bool \<Rightarrow> int \<Rightarrow> nat \<Rightarrow> sys \<Rightarrow>
     (WorkerResult \<times> ParsedUrl \<times> sys) + (ParsedUrl \<times> AuthInfo \<times> bool \<times> int \<times> nat \<times> sys)" where
  "connect_iteration e lim pu info dialogUsed lockFd transientRetries s =
    (let ((ret1, sid), s1) = connectOnce e pu s
     in if ret1 = AFP_SERVER_RESULT_OKAY \<or> ret1 = AFP_SERVER_RESULT_ALREADY_CONNECTED
        then Inl (Pass, pu, connectSucceeded e pu info dialogUsed lockFd sid s1)
        else if ret1 = AFP_SERVER_RESULT_NOAUTHENT
        then
          (let (d, s2) = perform e (openPasswordDialog info True) (closeLock e lockFd s1)
           in if rc d \<noteq> 0
              then Inl (Fail ERR_USER_CANCELED (Subject (server pu)), pu, s2)
              else (let (fd, s3) = acquireLock e s2
                    in Inr (copyCredentials lim (r_info d) pu, r_info d, True, fd,
                            transientRetries, s3)))
        else if transientRetries < 3
        then Inr (pu, info, dialogUsed, lockFd, transientRetries + 1,
                  snd (perform e (msleep (500 * 2 ^ transientRetries)) s1))
        else Inl (mapAfpConnectError ret1 (server pu), pu, tripBreaker e lockFd s1))"

text \<open>
  The connect / retry loop (lines 296-408).  It has no bound on authentication
  failures, so it is a partial function: \<open>None\<close> is a loop that never
  returns.
\<close>

partial_function (option) connect_loop ::
  "env \<Rightarrow> afp_limits \<Rightarrow> ParsedUrl \<Rightarrow> AuthInfo \<Rightarrow> bool \<Rightarrow> int \<Rightarrow> nat \<Rightarrow> sys \<Rightarrow>
     (WorkerResult \<times> ParsedUrl \<times> sys) option" where
  "connect_loop e lim pu info dialogUsed lockFd transientRetries s =
    (case connect_iteration e lim pu info dialogUsed lockFd transientRetries s of
       Inl y \<Rightarrow> Some y
     | Inr (pu1, info1, dialogUsed1, lockFd1, transientRetries1, s1) \<Rightarrow>
        connect_loop e lim pu1 info1 dialogUsed1 lockFd1 transientRetries1 s1)"

declare connect_loop.simps [code]

text \<open>\<open>AfpWorker::ensureConnected\<close> (lines 171-409).\<close>

definition ensureConnected ::
  "env \<Rightarrow> afp_limits \<Rightarrow> ParsedUrl \<Rightarrow> sys \<Rightarrow> (WorkerResult \<times> ParsedUrl \<times> sys) option" where
  "ensureConnected e lim pu s =
    (case gatherCredentials e lim pu s of
       (Inl (r, pu1), s1) \<Rightarrow> Some (r, pu1, s1)
     | (Inr (pu1, info, dialogUsed), s1) \<Rightarrow>
        (case breakerCheck e s1 of
           (Some age, s2) \<Rightarrow> Some (breakerFailure age, pu1, s2)
         | (None, s2) \<Rightarrow>
            (let (lockFd, s3) = acquireLock e s2
             in case breakerCheck e s3 of
                  (Some age, s4) \<Rightarrow> Some (breakerFailure age, pu1, closeLock e lockFd s4)
                | (None, s4) \<Rightarrow> connect_loop e lim pu1 info dialogUsed lockFd 0 s4)))"

text \<open>\<open>AfpWorker::invalidateSessionState\<close> (lines 487-501).\<close>

definition invalidateSessionState :: "env \<Rightarrow> sys \<Rightarrow> sys" where
  "invalidateSessionState e s =
    (let s1 = (if m_serverId (wk s) \<noteq> 0
               then snd (perform e (afp_sl_disconnect (m_serverId (wk s))) s) else s)
     in s1\<lparr>wk := clearSession (wk s1)\<rparr>)"

text \<open>\<open>m_volumeId = vid; m_cachedVolume = pu.volume;\<close> (lines 482-483).\<close>

definition cacheVolume :: "handle \<Rightarrow> string \<Rightarrow> sys \<Rightarrow> sys" where
  "cacheVolume vid v s = s\<lparr>wk := (wk s)\<lparr>m_volumeId := vid, m_cachedVolume := v\<rparr>\<rparr>"

text \<open>
  \<open>afp_sl_attach\<close> and \<open>afp_sl_getvolid\<close> write the volume handle back;
  \<open>hnd\<close> of the answer is the value of \<open>vid\<close> after the call.

  Lines 461-473 of \<open>AfpWorker::ensureAttached\<close>: the attach after the
  connection was reset, with one more \<open>afp_sl_getvolid\<close> when the volume is
  again reported as attached.
\<close>

definition reattach :: "env \<Rightarrow> ParsedUrl \<Rightarrow> sys \<Rightarrow> resp \<times> sys" where
  "reattach e pu s =
    (let (a, s1) = perform e (afp_sl_attach (afpUrl pu)) s
     in if ret a = AFP_SERVER_RESULT_ALREADY_MOUNTED \<or> ret a = AFP_SERVER_RESULT_ALREADY_ATTACHED
        then perform e (afp_sl_getvolid (afpUrl pu)) s1
        else (a, s1))"

text \<open>
  Lines 449-476: \<open>afp_sl_getvolid\<close> failed, so the connection is reset and
  the volume attached again.
\<close>

definition resetAndReattach ::
  "env \<Rightarrow> afp_limits \<Rightarrow> ParsedUrl \<Rightarrow> sys \<Rightarrow> (WorkerResult \<times> ParsedUrl \<times> sys) option" where
  "resetAndReattach e lim pu s =
    (let s1 = snd (perform e (afp_sl_disconnect (m_serverId (wk s))) s);
         s2 = s1\<lparr>wk := (wk s1)\<lparr>m_serverId := 0, m_cachedServer := []\<rparr>\<rparr>
     in case ensureConnected e lim pu s2 of
          None \<Rightarrow> None
        | Some (rc1, pu1, s3) \<Rightarrow>
           if \<not> success rc1 then Some (rc1, pu1, s3)
           else
            let (g, s4) = reattach e pu1 s3
            in if ret g \<noteq> AFP_SERVER_RESULT_OKAY
               then Some (mapAfpError (ret g) (volume pu1), pu1, s4)
               else Some (Pass, pu1, cacheVolume (hnd g) (volume pu1) s4))"

text \<open>
  Lines 421-429: a different volume is cached; only the local cache is cleared.
\<close>

definition switchVolume :: "ParsedUrl \<Rightarrow> sys \<Rightarrow> sys" where
  "switchVolume pu s =
     (if m_volumeId (wk s) \<noteq> 0 \<and> m_cachedVolume (wk s) \<noteq> volume pu
      then s\<lparr>wk := (wk s)\<lparr>m_volumeId := 0, m_cachedVolume := []\<rparr>\<rparr>
      else s)"

text \<open>\<open>AfpWorker::ensureAttached\<close> (lines 411-485).\<close>

definition ensureAttached ::
  "env \<Rightarrow> afp_limits \<Rightarrow> ParsedUrl \<Rightarrow> sys \<Rightarrow> (WorkerResult \<times> ParsedUrl \<times> sys) option" where
  "ensureAttached e lim pu s =
    (if \<not> hasVolume pu
     then Some (Fail ERR_DOES_NOT_EXIST (I18n ''No volume specified in URL'' []), pu, s)
     else
      (case ensureConnected e lim pu s of
         None \<Rightarrow> None
       | Some (r, pu1, s1) \<Rightarrow>
          if \<not> success r then Some (r, pu1, s1)
          else
           let s2 = switchVolume pu1 s1
           in if m_volumeId (wk s2) \<noteq> 0 then Some (Pass, pu1, s2)
              else
               let (a, s3) = perform e (afp_sl_attach (afpUrl pu1)) s2
               in if ret a = AFP_SERVER_RESULT_ALREADY_MOUNTED
                     \<or> ret a = AFP_SERVER_RESULT_ALREADY_ATTACHED
                  then
                    (let (g, s4) = perform e (afp_sl_getvolid (afpUrl pu1)) s3
                     in if ret g \<noteq> AFP_SERVER_RESULT_OKAY
                        then resetAndReattach e lim pu1 s4
                        else Some (Pass, pu1, cacheVolume (hnd g) (volume pu1) s4))
                  else if ret a \<noteq> AFP_SERVER_RESULT_OKAY
                  then Some (mapAfpError (ret a) (volume pu1), pu1, s3)
                  else Some (Pass, pu1, cacheVolume (hnd a) (volume pu1) s3)))"

section \<open>Operations\<close>

text \<open>
  An operation returns early from inside a block.  A block is a computation
  whose value is \<open>Inl r\<close> when the operation has returned \<open>r\<close> there and
  \<open>Inr v\<close> when control goes on with \<open>v\<close>; \<open>andThen\<close> runs the rest
  of the operation after a block.  \<open>None\<close> is a computation that never
  returns.
\<close>

type_synonym 'a step = "((WorkerResult + 'a) \<times> sys) option"

definition andThen ::
  "'a step \<Rightarrow> ('a \<Rightarrow> sys \<Rightarrow> (WorkerResult \<times> sys) option) \<Rightarrow> (WorkerResult \<times> sys) option" where
  "andThen m k =
     (case m of None \<Rightarrow> None
      | Some (Inl r, s) \<Rightarrow> Some (r, s)
      | Some (Inr v, s) \<Rightarrow> k v s)"

text \<open>The last component of a path, else the given default (lines 710-711, 923-924).\<close>

definition lastPart :: "string \<Rightarrow> string \<Rightarrow> string" where
  "lastPart p dflt =
     (let parts = splitSkipEmptyParts CHR ''/'' p in if parts = [] then dflt else last parts)"

text \<open>
  \<open>AfpWorker::stat\<close>, volume root (lines 675-686): one metadata query of
  \<open>/\<close>, repeated once after a recoverable failure when the volume could be
  attached again.  \<open>Inl Pass\<close>: the real entry was emitted and the operation
  has returned; \<open>Inr ()\<close>: fall back to the synthetic entry.
\<close>

definition statVolumeRootAttempt ::
  "env \<Rightarrow> afp_limits \<Rightarrow> string \<Rightarrow> ParsedUrl \<Rightarrow> sys \<Rightarrow> unit step" where
  "statVolumeRootAttempt e lim v pu1 s1 =
    (let (a, sa) = perform e (afp_sl_stat (m_volumeId (wk s1)) ''/'' (afpUrl pu1)) s1
     in case (if ret a \<noteq> AFP_SERVER_RESULT_OKAY \<and> isRecoverableSessionError (ret a)
              then (case ensureAttached e lim pu1 (invalidateSessionState e sa) of
                      None \<Rightarrow> None
                    | Some (rr, pub, sb) \<Rightarrow>
                       if success rr
                       then Some (perform e (afp_sl_stat (m_volumeId (wk sb)) ''/''
                                    (afpUrl pub)) sb)
                       else Some (a, sb))
              else Some (a, sa)) of
          None \<Rightarrow> None
        | Some (b, sc) \<Rightarrow>
           if ret b = AFP_SERVER_RESULT_OKAY
           then Some (Inl Pass, snd (perform e (statEntry (statToUDS (r_stat b) v None)) sc))
           else Some (Inr (), sc))"

text \<open>\<open>AfpWorker::stat\<close>, volume root (lines 668-690).\<close>

definition statVolumeRoot ::
  "env \<Rightarrow> afp_limits \<Rightarrow> ParsedUrl \<Rightarrow> sys \<Rightarrow> (WorkerResult \<times> sys) option" where
  "statVolumeRoot e lim pu s =
    (case ensureAttached e lim pu s of
       None \<Rightarrow> None
     | Some (r, pu1, s1) \<Rightarrow>
        andThen
          (if success r then statVolumeRootAttempt e lim (volume pu) pu1 s1
           else Some (Inr (), s1))
          (\<lambda>u s2. Some (Pass, snd (perform e (statEntry (serverOrVolumeEntry (volume pu))) s2))))"

text \<open>\<open>AfpWorker::stat\<close>, file or directory within a volume (lines 692-725).\<close>

definition statPath ::
  "env \<Rightarrow> afp_limits \<Rightarrow> ParsedUrl \<Rightarrow> sys \<Rightarrow> (WorkerResult \<times> sys) option" where
  "statPath e lim pu s =
    (case ensureAttached e lim pu s of
       None \<Rightarrow> None
     | Some (r, pu1, s1) \<Rightarrow>
        if \<not> success r then Some (r, s1)
        else
         andThen
           (let (a, sa) = perform e (afp_sl_stat (m_volumeId (wk s1)) (urlpath (afpUrl pu1)) (afpUrl pu1)) s1
            in if ret a \<noteq> AFP_SERVER_RESULT_OKAY \<and> isRecoverableSessionError (ret a)
               then (case ensureAttached e lim pu1 (invalidateSessionState e sa) of
                       None \<Rightarrow> None
                     | Some (rr, pub, sb) \<Rightarrow>
                        if \<not> success rr then Some (Inl rr, sb)
                        else (let (b, sc) = perform e (afp_sl_stat (m_volumeId (wk sb)) (urlpath (afpUrl pub)) (afpUrl pub)) sb
                              in Some (Inr (b, pub), sc)))
               else Some (Inr (a, pu1), sa))
           (\<lambda>(st, pu2) s2.
              if ret st \<noteq> AFP_SERVER_RESULT_OKAY then Some (mapAfpError (ret st) (path pu2), s2)
              else
               let name = lastPart (path pu2) (volume pu2);
                   mt = (if S_ISREG (st_mode (r_stat st)) then Some (mimeTypeForFile name)
                         else if S_ISDIR (st_mode (r_stat st)) then Some inode_directory
                         else None)
               in Some (Pass, snd (perform e (statEntry (statToUDS (r_stat st) name mt)) s2))))"

text \<open>\<open>AfpWorker::stat\<close> (lines 654-726).\<close>

definition stat :: "env \<Rightarrow> afp_limits \<Rightarrow> QUrl \<Rightarrow> sys \<Rightarrow> (WorkerResult \<times> sys) option" where
  "stat e lim url s =
    (let pu = parseAfpUrl lim url
     in if \<not> hasVolume pu
        then Some (Pass, snd (perform e (statEntry (serverOrVolumeEntry [])) s))
        else if \<not> hasPath pu then statVolumeRoot e lim pu s
        else statPath e lim pu s)"

text \<open>
  The paging loop of \<open>AfpWorker::listDir\<close> (lines 806-883), \<open>BATCH = 64\<close>.
  The library may report neither the end of the directory nor an empty page, so
  the loop is a partial function.
\<close>

partial_function (option) readdir_loop ::
  "env \<Rightarrow> afp_limits \<Rightarrow> ParsedUrl \<Rightarrow> string \<Rightarrow> int \<Rightarrow> sys \<Rightarrow> (WorkerResult \<times> sys) option" where
  "readdir_loop e lim pu dirPath start s =
    (case (let (a, sa) = perform e (afp_sl_readdir (m_volumeId (wk s)) dirPath (afpUrl pu) start 64) s
           in if ret a \<noteq> AFP_SERVER_RESULT_OKAY \<and> isRecoverableSessionError (ret a)
              then (case ensureAttached e lim pu (invalidateSessionState e sa) of
                      None \<Rightarrow> None
                    | Some (rr, pub, sb) \<Rightarrow>
                       if \<not> success rr then Some (Inl rr, sb)
                       else (let (b, sc) = perform e (afp_sl_readdir (m_volumeId (wk sb)) dirPath (afpUrl pub) start 64) sb
                             in Some (Inr (b, pub), sc)))
              else Some (Inr (a, pu), sa)) of
       None \<Rightarrow> None
     | Some (Inl r, s1) \<Rightarrow> Some (r, s1)
     | Some (Inr (d, pu1), s1) \<Rightarrow>
        if ret d \<noteq> AFP_SERVER_RESULT_OKAY
        then Some (mapAfpError (ret d) (if hasPath pu1 then path pu1 else volume pu1), s1)
        else
         (let (x, s2) = perform e (listEntries (map (readdirEntry start) [0..<cnt d])) s1
          in if flg d \<or> cnt d = 0 then Some (Pass, s2)
             else readdir_loop e lim pu1 dirPath (start + int (cnt d)) s2))"

declare readdir_loop.simps [code]

text \<open>\<open>AfpWorker::listDir\<close> (lines 728-884), \<open>MAX_VOLS = 64\<close>.\<close>

definition listDir :: "env \<Rightarrow> afp_limits \<Rightarrow> QUrl \<Rightarrow> sys \<Rightarrow> (WorkerResult \<times> sys) option" where
  "listDir e lim url s =
    (let pu = parseAfpUrl lim url
     in if \<not> hasVolume pu
        then
          (case ensureConnected e lim pu s of
             None \<Rightarrow> None
           | Some (r, pu1, s1) \<Rightarrow>
              if \<not> success r then Some (r, s1)
              else
               andThen
                 (let (a, sa) = perform e (afp_sl_getvols (afpUrl pu1) 64) s1
                  in if ret a \<noteq> AFP_SERVER_RESULT_OKAY \<and> isRecoverableSessionError (ret a)
                     then (case ensureConnected e lim pu1 (invalidateSessionState e sa) of
                             None \<Rightarrow> None
                           | Some (rr, pub, sb) \<Rightarrow>
                              if \<not> success rr then Some (Inl rr, sb)
                              else (let (b, sc) = perform e (afp_sl_getvols (afpUrl pub) 64) sb
                                    in Some (Inr (b, pub), sc)))
                     else Some (Inr (a, pu1), sa))
                 (\<lambda>(v, pu2) s2.
                    let (w, s3) =
                          (if ret v = AFP_SERVER_RESULT_OKAY \<and> cnt v = 0
                           then perform e (afp_sl_getvols (afpUrl pu2) 64)
                                  (snd (perform e (msleep 500) s2))
                           else (v, s2))
                    in if ret w \<noteq> AFP_SERVER_RESULT_OKAY
                       then Some (mapAfpError (ret w) (server pu2), s3)
                       else Some (Pass,
                              snd (perform e (listEntries (map volumeSummaryToUDS [0..<cnt w])) s3))))
        else
          (case ensureAttached e lim pu s of
             None \<Rightarrow> None
           | Some (r, pu1, s1) \<Rightarrow>
              if \<not> success r then Some (r, s1)
              else
               let dirPath = (if hasPath pu1 then urlpath (afpUrl pu1) else ''/'');
                   (d, s2) = perform e (afp_sl_stat (m_volumeId (wk s1)) dirPath (afpUrl pu1)) s1;
                   s3 = (if ret d = AFP_SERVER_RESULT_OKAY
                         then snd (perform e (listEntry (statToUDS (r_stat d) ''.''
                                     (if S_ISDIR (st_mode (r_stat d)) then Some inode_directory
                                      else None))) s2)
                         else s2)
               in readdir_loop e lim pu1 dirPath 0 s3))"

text \<open>
  The read loop of \<open>AfpWorker::get\<close> (lines 944-973), \<open>READ_CHUNK = 64 KiB\<close>.
  \<open>offset\<close> is an \<open>unsigned long long\<close>, so sums are taken modulo
  \<open>2^64\<close>.
\<close>

definition READ_CHUNK :: nat where
  "READ_CHUNK = 64 * 1024"

partial_function (option) read_loop ::
  "env \<Rightarrow> string \<Rightarrow> nat \<Rightarrow> nat \<Rightarrow> sys \<Rightarrow> (WorkerResult \<times> sys) option" where
  "read_loop e p fileId offset s =
    (let (r, s1) = perform e (afp_sl_read (m_volumeId (wk s)) fileId offset READ_CHUNK) s
     in if ret r \<noteq> AFP_SERVER_RESULT_OKAY
        then Some (mapAfpError (ret r) p,
                   snd (perform e (afp_sl_close (m_volumeId (wk s1)) fileId) s1))
        else
         (let s2 = (if cnt r > 0 then snd (perform e (data (cnt r)) s1) else s1);
              offset1 = (if cnt r > 0 then (offset + cnt r) mod 2 ^ 64 else offset)
          in if flg r \<or> cnt r = 0
             then (let s3 = snd (perform e (afp_sl_close (m_volumeId (wk s2)) fileId) s2)
                   in Some (Pass, snd (perform e (data 0) s3)))
             else read_loop e p fileId offset1 s2))"

declare read_loop.simps [code]

text \<open>\<open>AfpWorker::get\<close> (lines 886-974).\<close>

definition get :: "env \<Rightarrow> afp_limits \<Rightarrow> QUrl \<Rightarrow> sys \<Rightarrow> (WorkerResult \<times> sys) option" where
  "get e lim url s =
    (let pu = parseAfpUrl lim url
     in if \<not> hasPath pu
        then Some (Fail ERR_IS_DIRECTORY (Subject (if hasVolume pu then volume pu else server pu)), s)
        else
          (case ensureAttached e lim pu s of
             None \<Rightarrow> None
           | Some (r, pu1, s1) \<Rightarrow>
              if \<not> success r then Some (r, s1)
              else
               andThen
                 (let (a, sa) = perform e (afp_sl_stat (m_volumeId (wk s1)) (urlpath (afpUrl pu1)) (afpUrl pu1)) s1
                  in if ret a \<noteq> AFP_SERVER_RESULT_OKAY \<and> isRecoverableSessionError (ret a)
                     then (case ensureAttached e lim pu1 (invalidateSessionState e sa) of
                             None \<Rightarrow> None
                           | Some (rr, pub, sb) \<Rightarrow>
                              if \<not> success rr then Some (Inl rr, sb)
                              else (let (b, sc) = perform e (afp_sl_stat (m_volumeId (wk sb)) (urlpath (afpUrl pub)) (afpUrl pub)) sb
                                    in Some (Inr (b, pub), sc)))
                     else Some (Inr (a, pu1), sa))
                 (\<lambda>(st, pu2) s2.
                    if ret st \<noteq> AFP_SERVER_RESULT_OKAY then Some (mapAfpError (ret st) (path pu2), s2)
                    else if S_ISDIR (st_mode (r_stat st))
                    then Some (Fail ERR_IS_DIRECTORY (Subject (path pu2)), s2)
                    else
                     let s3 = snd (perform e (totalSize (st_size (r_stat st))) s2);
                         s4 = snd (perform e (mimeType (lastPart (path pu2) (path pu2))) s3)
                     in andThen
                          (let (a, sa) = perform e (afp_sl_open (m_volumeId (wk s4)) (urlpath (afpUrl pu2)) (afpUrl pu2) O_RDONLY) s4
                           in if ret a \<noteq> AFP_SERVER_RESULT_OKAY \<and> isRecoverableSessionError (ret a)
                              then (case ensureAttached e lim pu2 (invalidateSessionState e sa) of
                                      None \<Rightarrow> None
                                    | Some (rr, pub, sb) \<Rightarrow>
                                       if \<not> success rr then Some (Inl rr, sb)
                                       else (let (b, sc) = perform e (afp_sl_open (m_volumeId (wk sb)) (urlpath (afpUrl pub)) (afpUrl pub) O_RDONLY) sb
                                             in Some (Inr (b, pub), sc)))
                              else Some (Inr (a, pu2), sa))
                          (\<lambda>(op, pu3) s5.
                             if ret op \<noteq> AFP_SERVER_RESULT_OKAY
                             then Some (mapAfpError (ret op) (path pu3), s5)
                             else read_loop e (path pu3) (hnd op) 0 s5))))"

text \<open>
  The write loop of \<open>AfpWorker::put\<close> (lines 1054-1082); its value is the
  final offset, an \<open>unsigned long long\<close>.
\<close>

partial_function (option) write_loop ::
  "env \<Rightarrow> string \<Rightarrow> nat \<Rightarrow> nat \<Rightarrow> sys \<Rightarrow> nat step" where
  "write_loop e p fileId offset s =
    (let s1 = snd (perform e dataReq s);
         (d, s2) = perform e readData s1
     in if rc d < 0
        then Some (Inl (Fail ERR_CANNOT_WRITE (I18n ''Error reading data from client'' [])),
                   snd (perform e (afp_sl_close (m_volumeId (wk s2)) fileId) s2))
        else if cnt d = 0 then Some (Inr offset, s2)
        else
         (let (w, s3) = perform e (afp_sl_write (m_volumeId (wk s2)) fileId offset (cnt d)) s2
          in if ret w \<noteq> AFP_SERVER_RESULT_OKAY
             then Some (Inl (mapAfpError (ret w) p),
                        snd (perform e (afp_sl_close (m_volumeId (wk s3)) fileId) s3))
             else write_loop e p fileId ((offset + cnt w) mod 2 ^ 64) s3))"

declare write_loop.simps [code]

text \<open>
  \<open>AfpWorker::put\<close> (lines 976-1096); \<open>overwrite\<close> is
  \<open>flags & KIO::Overwrite\<close>.
\<close>

definition put ::
  "env \<Rightarrow> afp_limits \<Rightarrow> QUrl \<Rightarrow> int \<Rightarrow> bool \<Rightarrow> sys \<Rightarrow> (WorkerResult \<times> sys) option" where
  "put e lim url permissions overwrite s =
    (let pu = parseAfpUrl lim url
     in if \<not> hasPath pu
        then Some (Fail ERR_ACCESS_DENIED (I18n ''Cannot write to volume root'' []), s)
        else
          (case ensureAttached e lim pu s of
             None \<Rightarrow> None
           | Some (r, pu1, s1) \<Rightarrow>
              if \<not> success r then Some (r, s1)
              else
               andThen
                 (let (a, sa) = perform e (afp_sl_stat (m_volumeId (wk s1)) (urlpath (afpUrl pu1)) (afpUrl pu1)) s1
                  in if ret a \<noteq> AFP_SERVER_RESULT_OKAY \<and> isRecoverableSessionError (ret a)
                     then (case ensureAttached e lim pu1 (invalidateSessionState e sa) of
                             None \<Rightarrow> None
                           | Some (rr, pub, sb) \<Rightarrow>
                              if \<not> success rr then Some (Inl rr, sb)
                              else (let (b, sc) = perform e (afp_sl_stat (m_volumeId (wk sb)) (urlpath (afpUrl pub)) (afpUrl pub)) sb
                                    in Some (Inr (b, pub), sc)))
                     else Some (Inr (a, pu1), sa))
                 (\<lambda>(st, pu2) s2.
                    let exists = (ret st = AFP_SERVER_RESULT_OKAY)
                    in if exists \<and> \<not> overwrite
                       then Some (Fail ERR_FILE_ALREADY_EXIST (Subject (path pu2)), s2)
                       else
                        andThen
                          (if \<not> exists
                           then
                             (case (let (a, sa) = perform e (afp_sl_creat (m_volumeId (wk s2)) (urlpath (afpUrl pu2)) (afpUrl pu2)
                                                                           (if permissions = - 1 then 420 else permissions)) s2
                                    in if ret a \<noteq> AFP_SERVER_RESULT_OKAY \<and> isRecoverableSessionError (ret a)
                                       then (case ensureAttached e lim pu2 (invalidateSessionState e sa) of
                                               None \<Rightarrow> None
                                             | Some (rr, pub, sb) \<Rightarrow>
                                                if \<not> success rr then Some (Inl rr, sb)
                                                else (let (b, sc) = perform e (afp_sl_creat (m_volumeId (wk sb)) (urlpath (afpUrl pub)) (afpUrl pub)
                                                                           (if permissions = - 1 then 420 else permissions)) sb
                                                      in Some (Inr (b, pub), sc)))
                                       else Some (Inr (a, pu2), sa)) of
                                None \<Rightarrow> None
                              | Some (Inl r1, sd) \<Rightarrow> Some (Inl r1, sd)
                              | Some (Inr (cr, pu3), sd) \<Rightarrow>
                                 if ret cr \<noteq> AFP_SERVER_RESULT_OKAY
                                 then Some (Inl (mapAfpError (ret cr) (path pu3)), sd)
                                 else Some (Inr pu3, sd))
                           else Some (Inr pu2, s2))
                          (\<lambda>pu3 s3.
                             andThen
                               (if exists \<and> overwrite
                                then
                                  (case (let (a, sa) = perform e (afp_sl_truncate (m_volumeId (wk s3)) (urlpath (afpUrl pu3)) (afpUrl pu3) 0) s3
                                         in if ret a \<noteq> AFP_SERVER_RESULT_OKAY \<and> isRecoverableSessionError (ret a)
                                            then (case ensureAttached e lim pu3 (invalidateSessionState e sa) of
                                                    None \<Rightarrow> None
                                                  | Some (rr, pub, sb) \<Rightarrow>
                                                     if \<not> success rr then Some (Inl rr, sb)
                                                     else (let (b, sc) = perform e (afp_sl_truncate (m_volumeId (wk sb)) (urlpath (afpUrl pub)) (afpUrl pub) 0) sb
                                                           in Some (Inr (b, pub), sc)))
                                            else Some (Inr (a, pu3), sa)) of
                                     None \<Rightarrow> None
                                   | Some (Inl r1, sd) \<Rightarrow> Some (Inl r1, sd)
                                   | Some (Inr (tr, pu4), sd) \<Rightarrow>
                                      if ret tr \<noteq> AFP_SERVER_RESULT_OKAY
                                      then Some (Inl (mapAfpError (ret tr) (path pu4)), sd)
                                      else Some (Inr pu4, sd))
                                else Some (Inr pu3, s3))
                               (\<lambda>pu4 s4.
                                  andThen
                                    (let (a, sa) = perform e (afp_sl_open (m_volumeId (wk s4)) (urlpath (afpUrl pu4)) (afpUrl pu4) O_RDWR) s4
                                     in if ret a \<noteq> AFP_SERVER_RESULT_OKAY \<and> isRecoverableSessionError (ret a)
                                        then (case ensureAttached e lim pu4 (invalidateSessionState e sa) of
                                                None \<Rightarrow> None
                                              | Some (rr, pub, sb) \<Rightarrow>
                                                 if \<not> success rr then Some (Inl rr, sb)
                                                 else (let (b, sc) = perform e (afp_sl_open (m_volumeId (wk sb)) (urlpath (afpUrl pub)) (afpUrl pub) O_RDWR) sb
                                                       in Some (Inr (b, pub), sc)))
                                        else Some (Inr (a, pu4), sa))
                                    (\<lambda>(op, pu5) s5.
                                       if ret op \<noteq> AFP_SERVER_RESULT_OKAY
                                       then Some (mapAfpError (ret op) (path pu5), s5)
                                       else
                                        andThen (write_loop e (path pu5) (hnd op) 0 s5)
                                          (\<lambda>offset s6.
                                             let s7 = snd (perform e
                                                        (afp_sl_close (m_volumeId (wk s6)) (hnd op)) s6)
                                             in Some (Pass,
                                                  if permissions \<noteq> - 1
                                                  then snd (perform e
                                                         (afp_sl_chmod (m_volumeId (wk s7))
                                                            (urlpath (afpUrl pu5)) (afpUrl pu5)
                                                            permissions) s7)
                                                  else s7))))))))"

text \<open>\<open>AfpWorker::mkdir\<close> (lines 1098-1124).\<close>

definition mkdir :: "env \<Rightarrow> afp_limits \<Rightarrow> QUrl \<Rightarrow> int \<Rightarrow> sys \<Rightarrow> (WorkerResult \<times> sys) option" where
  "mkdir e lim url permissions s =
    (let pu = parseAfpUrl lim url
     in if \<not> hasPath pu
        then Some (Fail ERR_ACCESS_DENIED (I18n ''Cannot create directory at volume level'' []), s)
        else
          (case ensureAttached e lim pu s of
             None \<Rightarrow> None
           | Some (r, pu1, s1) \<Rightarrow>
              if \<not> success r then Some (r, s1)
              else
               andThen
                 (let (a, sa) = perform e (afp_sl_mkdir (m_volumeId (wk s1)) (urlpath (afpUrl pu1)) (afpUrl pu1)
                                                         (if permissions = - 1 then 493 else permissions)) s1
                  in if ret a \<noteq> AFP_SERVER_RESULT_OKAY \<and> isRecoverableSessionError (ret a)
                     then (case ensureAttached e lim pu1 (invalidateSessionState e sa) of
                             None \<Rightarrow> None
                           | Some (rr, pub, sb) \<Rightarrow>
                              if \<not> success rr then Some (Inl rr, sb)
                              else (let (b, sc) = perform e (afp_sl_mkdir (m_volumeId (wk sb)) (urlpath (afpUrl pub)) (afpUrl pub)
                                                         (if permissions = - 1 then 493 else permissions)) sb
                                    in Some (Inr (b, pub), sc)))
                     else Some (Inr (a, pu1), sa))
                 (\<lambda>(m, pu2) s2.
                    if ret m \<noteq> AFP_SERVER_RESULT_OKAY then Some (mapAfpError (ret m) (path pu2), s2)
                    else Some (Pass, s2))))"

text \<open>\<open>AfpWorker::del\<close> (lines 1126-1159).\<close>

definition del :: "env \<Rightarrow> afp_limits \<Rightarrow> QUrl \<Rightarrow> bool \<Rightarrow> sys \<Rightarrow> (WorkerResult \<times> sys) option" where
  "del e lim url isFile s =
    (let pu = parseAfpUrl lim url
     in if \<not> hasPath pu
        then Some (Fail ERR_ACCESS_DENIED (I18n ''Cannot delete volume root'' []), s)
        else
          (case ensureAttached e lim pu s of
             None \<Rightarrow> None
           | Some (r, pu1, s1) \<Rightarrow>
              if \<not> success r then Some (r, s1)
              else
               andThen
                 (let (a, sa) = perform e (if isFile then afp_sl_unlink (m_volumeId (wk s1)) (urlpath (afpUrl pu1)) (afpUrl pu1)
                                     else afp_sl_rmdir (m_volumeId (wk s1)) (urlpath (afpUrl pu1)) (afpUrl pu1)) s1
                  in if ret a \<noteq> AFP_SERVER_RESULT_OKAY \<and> isRecoverableSessionError (ret a)
                     then (case ensureAttached e lim pu1 (invalidateSessionState e sa) of
                             None \<Rightarrow> None
                           | Some (rr, pub, sb) \<Rightarrow>
                              if \<not> success rr then Some (Inl rr, sb)
                              else (let (b, sc) = perform e (if isFile then afp_sl_unlink (m_volumeId (wk sb)) (urlpath (afpUrl pub)) (afpUrl pub)
                                     else afp_sl_rmdir (m_volumeId (wk sb)) (urlpath (afpUrl pub)) (afpUrl pub)) sb
                                    in Some (Inr (b, pub), sc)))
                     else Some (Inr (a, pu1), sa))
                 (\<lambda>(m, pu2) s2.
                    if ret m \<noteq> AFP_SERVER_RESULT_OKAY then Some (mapAfpError (ret m) (path pu2), s2)
                    else Some (Pass, s2))))"

text \<open>
  \<open>AfpWorker::rename\<close> (lines 1161-1202); \<open>overwrite\<close> is
  \<open>flags & KIO::Overwrite\<close>.
\<close>

definition rename ::
  "env \<Rightarrow> afp_limits \<Rightarrow> QUrl \<Rightarrow> QUrl \<Rightarrow> bool \<Rightarrow> sys \<Rightarrow> (WorkerResult \<times> sys) option" where
  "rename e lim src dest overwrite s =
    (let puSrc = parseAfpUrl lim src;
         puDest = parseAfpUrl lim dest
     in if \<not> hasPath puSrc \<or> \<not> hasPath puDest
        then Some (Fail ERR_UNSUPPORTED_ACTION (I18n ''Cannot rename volume roots'' []), s)
        else if server puSrc \<noteq> server puDest \<or> volume puSrc \<noteq> volume puDest
        then Some (Fail ERR_UNSUPPORTED_ACTION
                     (I18n ''Cannot rename across different volumes'' []), s)
        else
          (case ensureAttached e lim puSrc s of
             None \<Rightarrow> None
           | Some (r, pu1, s1) \<Rightarrow>
              if \<not> success r then Some (r, s1)
              else
               andThen
                 (if \<not> overwrite
                  then (let (ck, sk) = perform e (afp_sl_stat (m_volumeId (wk s1))
                                          (urlpath (afpUrl puDest)) (afpUrl puDest)) s1
                        in if ret ck = AFP_SERVER_RESULT_OKAY
                           then Some (Inl (Fail ERR_FILE_ALREADY_EXIST (Subject (path puDest))), sk)
                           else Some (Inr (), sk))
                  else Some (Inr (), s1))
                 (\<lambda>u s2.
                    andThen
                      (let (a, sa) = perform e (afp_sl_rename (m_volumeId (wk s2)) (urlpath (afpUrl pu1))
                                                              (urlpath (afpUrl puDest)) (afpUrl pu1)) s2
                       in if ret a \<noteq> AFP_SERVER_RESULT_OKAY \<and> isRecoverableSessionError (ret a)
                          then (case ensureAttached e lim pu1 (invalidateSessionState e sa) of
                                  None \<Rightarrow> None
                                | Some (rr, pub, sb) \<Rightarrow>
                                   if \<not> success rr then Some (Inl rr, sb)
                                   else (let (b, sc) = perform e (afp_sl_rename (m_volumeId (wk sb)) (urlpath (afpUrl pub))
                                                              (urlpath (afpUrl puDest)) (afpUrl pub)) sb
                                         in Some (Inr (b, pub), sc)))
                          else Some (Inr (a, pu1), sa))
                      (\<lambda>(m, pu2) s3.
                         if ret m \<noteq> AFP_SERVER_RESULT_OKAY
                         then Some (mapAfpError (ret m) (path pu2), s3)
                         else Some (Pass, s3)))))"

text \<open>\<open>AfpWorker::chmod\<close> (lines 1204-1231).\<close>

definition chmod :: "env \<Rightarrow> afp_limits \<Rightarrow> QUrl \<Rightarrow> int \<Rightarrow> sys \<Rightarrow> (WorkerResult \<times> sys) option" where
  "chmod e lim url permissions s =
    (let pu = parseAfpUrl lim url
     in if \<not> hasPath pu
        then Some (Fail ERR_UNSUPPORTED_ACTION (I18n ''Cannot chmod volume root'' []), s)
        else
          (case ensureAttached e lim pu s of
             None \<Rightarrow> None
           | Some (r, pu1, s1) \<Rightarrow>
              if \<not> success r then Some (r, s1)
              else
               andThen
                 (let (a, sa) = perform e (afp_sl_chmod (m_volumeId (wk s1)) (urlpath (afpUrl pu1)) (afpUrl pu1) permissions) s1
                  in if ret a \<noteq> AFP_SERVER_RESULT_OKAY \<and> isRecoverableSessionError (ret a)
                     then (case ensureAttached e lim pu1 (invalidateSessionState e sa) of
                             None \<Rightarrow> None
                           | Some (rr, pub, sb) \<Rightarrow>
                              if \<not> success rr then Some (Inl rr, sb)
                              else (let (b, sc) = perform e (afp_sl_chmod (m_volumeId (wk sb)) (urlpath (afpUrl pub)) (afpUrl pub) permissions) sb
                                    in Some (Inr (b, pub), sc)))
                     else Some (Inr (a, pu1), sa))
                 (\<lambda>(m, pu2) s2.
                    if ret m \<noteq> AFP_SERVER_RESULT_OKAY then Some (mapAfpError (ret m) (path pu2), s2)
                    else Some (Pass, s2))))"

text \<open>
  \<open>AfpWorker::fileSystemFreeSpace\<close> (lines 1233-1267); the products are
  64-bit unsigned.
\<close>

definition fileSystemFreeSpace ::
  "env \<Rightarrow> afp_limits \<Rightarrow> QUrl \<Rightarrow> sys \<Rightarrow> (WorkerResult \<times> sys) option" where
  "fileSystemFreeSpace e lim url s =
    (let pu = parseAfpUrl lim url
     in case ensureAttached e lim pu s of
          None \<Rightarrow> None
        | Some (r, pu1, s1) \<Rightarrow>
           if \<not> success r then Some (r, s1)
           else
            andThen
              (let (a, sa) = perform e (afp_sl_statfs (m_volumeId (wk s1)) ''/'' (afpUrl pu1)) s1
               in if ret a \<noteq> AFP_SERVER_RESULT_OKAY \<and> isRecoverableSessionError (ret a)
                  then (case ensureAttached e lim pu1 (invalidateSessionState e sa) of
                          None \<Rightarrow> None
                        | Some (rr, pub, sb) \<Rightarrow>
                           if \<not> success rr then Some (Inl rr, sb)
                           else (let (b, sc) = perform e (afp_sl_statfs (m_volumeId (wk sb)) ''/'' (afpUrl pub)) sb
                                 in Some (Inr (b, pub), sc)))
                  else Some (Inr (a, pu1), sa))
              (\<lambda>(v, pu2) s2.
                 if ret v \<noteq> AFP_SERVER_RESULT_OKAY then Some (mapAfpError (ret v) (volume pu2), s2)
                 else
                  let total = (f_blocks v * f_frsize v) mod 2 ^ 64;
                      available = (f_bavail v * f_frsize v) mod 2 ^ 64;
                      s3 = snd (perform e (setMetaData ''total'' total) s2)
                  in Some (Pass, snd (perform e (setMetaData ''available'' available) s3))))"


section \<open>Vocabulary of the properties\<close>

text \<open>
  \<open>only P s s'\<close>: the history of \<open>s'\<close> extends that of \<open>s\<close>, and every
  call added satisfies \<open>P\<close>.
\<close>

definition only :: "(call \<Rightarrow> bool) \<Rightarrow> sys \<Rightarrow> sys \<Rightarrow> bool" where
  "only P s s' \<longleftrightarrow> (\<exists>evs. trace s' = trace s @ evs \<and> (\<forall>ev \<in> set evs. P (fst ev)))"

text \<open>
  The calls of the connection lifecycle: library set-up, connect, disconnect,
  attach and handle query, the coordination files, the alarm, the back-off
  sleep, the credential cache and the password dialog.
\<close>

fun session_call :: "call \<Rightarrow> bool" where
  "session_call afp_sl_conn_setup = True"
| "session_call (afp_sl_disconnect h) = True"
| "session_call (afp_sl_connect u) = True"
| "session_call (afp_sl_attach u) = True"
| "session_call (afp_sl_getvolid u) = True"
| "session_call stat_breaker = True"
| "session_call time_now = True"
| "session_call unlink_breaker = True"
| "session_call open_breaker = True"
| "session_call open_lock = True"
| "session_call (flock_ex fd) = True"
| "session_call (close_fd fd) = True"
| "session_call (alarm n) = True"
| "session_call (msleep n) = True"
| "session_call (checkCachedAuthentication i) = True"
| "session_call (openPasswordDialog i b) = True"
| "session_call (cacheAuthentication i) = True"
| "session_call c = False"

text \<open>
  The session invariant: a cached volume handle comes with a cached server
  handle and a volume name; and, separately, a cached server handle comes with
  a server name.
\<close>

definition session_inv :: "AfpWorker \<Rightarrow> bool" where
  "session_inv w \<longleftrightarrow> (m_volumeId w \<noteq> 0 \<longrightarrow> m_serverId w \<noteq> 0 \<and> m_cachedVolume w \<noteq> [])"

definition server_named :: "AfpWorker \<Rightarrow> bool" where
  "server_named w \<longleftrightarrow> (m_serverId w \<noteq> 0 \<longrightarrow> m_cachedServer w \<noteq> [])"

text \<open>
  Two targets that differ at most in the credentials of \<open>afpUrl\<close>.
\<close>

definition same_target :: "ParsedUrl \<Rightarrow> ParsedUrl \<Rightarrow> bool" where
  "same_target pu pu' \<longleftrightarrow>
     server pu' = server pu \<and> volume pu' = volume pu \<and> path pu' = path pu \<and>
     hasVolume pu' = hasVolume pu \<and> hasPath pu' = hasPath pu \<and>
     urlpath (afpUrl pu') = urlpath (afpUrl pu) \<and>
     servername (afpUrl pu') = servername (afpUrl pu) \<and>
     volumename (afpUrl pu') = volumename (afpUrl pu) \<and>
     port (afpUrl pu') = port (afpUrl pu)"


text \<open>
  Stale-session recovery as the specification words it: when the call returns
  one of the five recoverable codes, the session is invalidated, the required
  state is established again, and the call is issued once more, whatever it
  then returns; when establishing fails, that failure is the result of the
  operation.  Any other code is passed on at once.  The call is built from the
  cached volume handle and the target, both as they are when it is issued.
\<close>

definition recoverable_codes :: "afp_result set" where
  "recoverable_codes = {AFP_SERVER_RESULT_NOTCONNECTED, AFP_SERVER_RESULT_NOTATTACHED,
     AFP_SERVER_RESULT_DAEMON_ERROR, AFP_SERVER_RESULT_NOSERVER, AFP_SERVER_RESULT_TIMEDOUT}"

definition recover_once ::
  "env \<Rightarrow> afp_limits \<Rightarrow>
     (env \<Rightarrow> afp_limits \<Rightarrow> ParsedUrl \<Rightarrow> sys \<Rightarrow> (WorkerResult \<times> ParsedUrl \<times> sys) option) \<Rightarrow>
     (handle \<Rightarrow> afp_url \<Rightarrow> call) \<Rightarrow> ParsedUrl \<Rightarrow> sys \<Rightarrow> (resp \<times> ParsedUrl) step" where
  "recover_once e lim establish mk pu s =
    (let (a, sa) = perform e (mk (m_volumeId (wk s)) (afpUrl pu)) s
     in if ret a \<in> recoverable_codes
        then (case establish e lim pu (invalidateSessionState e sa) of
                None \<Rightarrow> None
              | Some (rr, pub, sb) \<Rightarrow>
                 if \<not> success rr then Some (Inl rr, sb)
                 else (let (b, sc) = perform e (mk (m_volumeId (wk sb)) (afpUrl pub)) sb
                       in Some (Inr (b, pub), sc)))
        else Some (Inr (a, pu), sa))"


text \<open>
  Partial-correctness assertions over computations: \<open>returns Q m\<close> when
  every result of \<open>m\<close> ends in a state satisfying \<open>Q\<close>, and
  \<open>yields Q R m\<close> for a block, with \<open>Q\<close> where the operation has
  returned and \<open>R\<close> where it goes on.
\<close>

definition session_ok :: "bool \<Rightarrow> sys \<Rightarrow> bool" where
  "session_ok n s \<longleftrightarrow> session_inv (wk s) \<and> (n \<longrightarrow> server_named (wk s))"

definition target_ok :: "bool \<Rightarrow> ParsedUrl \<Rightarrow> bool" where
  "target_ok n pu \<longleftrightarrow> (hasVolume pu \<longrightarrow> volume pu \<noteq> []) \<and> (n \<longrightarrow> server pu \<noteq> [])"

definition returns :: "(sys \<Rightarrow> bool) \<Rightarrow> (WorkerResult \<times> sys) option \<Rightarrow> bool" where
  "returns Q m \<longleftrightarrow> (\<forall>r s'. m = Some (r, s') \<longrightarrow> Q s')"

definition yields :: "(sys \<Rightarrow> bool) \<Rightarrow> ('a \<Rightarrow> sys \<Rightarrow> bool) \<Rightarrow> 'a step \<Rightarrow> bool" where
  "yields Q R m \<longleftrightarrow>
     (\<forall>x s'. m = Some (x, s') \<longrightarrow> (case x of Inl r \<Rightarrow> Q s' | Inr v \<Rightarrow> R v s'))"

text \<open>The durations of the back-off sleeps among a list of calls, in order.\<close>

fun sleeps :: "call list \<Rightarrow> nat list" where
  "sleeps [] = []"
| "sleeps (msleep n # cs) = n # sleeps cs"
| "sleeps (c # cs) = sleeps cs"

fun is_connect :: "call \<Rightarrow> bool" where
  "is_connect (afp_sl_connect u) = True"
| "is_connect c = False"


text \<open>The calls issued after the last connect call.\<close>

definition since_connect :: "call list \<Rightarrow> call list" where
  "since_connect cs = rev (takeWhile (\<lambda>c. \<not> is_connect c) (rev cs))"

text \<open>
  What a look at the breaker marker finds in state \<open>s\<close>: \<open>None\<close> when
  there is no marker, else the time elapsed since its modification time.
\<close>

definition marker_age :: "env \<Rightarrow> sys \<Rightarrow> int option" where
  "marker_age e s =
    (let (b, s1) = perform e stat_breaker s
     in if rc b = 0
        then Some (wrap_signed 64 (r_time (fst (perform e time_now s1)) - r_time b))
        else None)"

text \<open>What the connect call answers when it is issued from state \<open>s\<close>.\<close>

definition connect_answer :: "env \<Rightarrow> ParsedUrl \<Rightarrow> sys \<Rightarrow> resp" where
  "connect_answer e pu s =
     fst (perform e (afp_sl_connect (afpUrl pu)) (snd (perform e (alarm 15) s)))"

fun is_stat :: "call \<Rightarrow> bool" where
  "is_stat (afp_sl_stat v p u) = True"
| "is_stat c = False"

fun is_rename :: "call \<Rightarrow> bool" where
  "is_rename (afp_sl_rename v p q u) = True"
| "is_rename c = False"

text \<open>
  What a list of calls tells the client: the total-size hints, the sizes of the
  chunks forwarded, and the sizes asked of the read call.
\<close>

fun hints :: "call list \<Rightarrow> nat list" where
  "hints [] = []"
| "hints (totalSize n # cs) = n # hints cs"
| "hints (c # cs) = hints cs"

fun forwarded :: "call list \<Rightarrow> nat list" where
  "forwarded [] = []"
| "forwarded (data n # cs) = n # forwarded cs"
| "forwarded (c # cs) = forwarded cs"

fun read_sizes :: "call list \<Rightarrow> nat list" where
  "read_sizes [] = []"
| "read_sizes (afp_sl_read v f off n # cs) = n # read_sizes cs"
| "read_sizes (c # cs) = read_sizes cs"

text \<open>
  The calls of the streaming phase of a download of the open file \<open>f\<close>:
  reads of 64 KiB, chunks forwarded, and the close.
\<close>

fun stream_call :: "nat \<Rightarrow> call \<Rightarrow> bool" where
  "stream_call f (afp_sl_read v g off n) = (g = f \<and> n = READ_CHUNK)"
| "stream_call f (data n) = True"
| "stream_call f (afp_sl_close v g) = (g = f)"
| "stream_call f c = False"

text \<open>
  A server that serves a regular file of \<open>N\<close> bytes: every metadata query
  reports the size \<open>N\<close>, every open succeeds, and a read of \<open>n > 0\<close>
  bytes succeeds and delivers at most \<open>n\<close> bytes: at an offset below
  \<open>N\<close> at least one byte and none beyond \<open>N\<close>, at or beyond \<open>N\<close>
  nothing; the end-of-file flag is raised only when the bytes up to \<open>N\<close>
  have been delivered.
\<close>

definition serves_file :: "env \<Rightarrow> nat \<Rightarrow> bool" where
  "serves_file e N \<longleftrightarrow>
     (\<forall>h v p u. ret (e h (afp_sl_stat v p u)) = AFP_SERVER_RESULT_OKAY \<and>
                st_size (r_stat (e h (afp_sl_stat v p u))) = N \<and>
                \<not> S_ISDIR (st_mode (r_stat (e h (afp_sl_stat v p u))))) \<and>
     (\<forall>h v p u m. ret (e h (afp_sl_open v p u m)) = AFP_SERVER_RESULT_OKAY) \<and>
     (\<forall>h v f off n. 0 < n \<longrightarrow>
        ret (e h (afp_sl_read v f off n)) = AFP_SERVER_RESULT_OKAY \<and>
        cnt (e h (afp_sl_read v f off n)) \<le> n \<and>
        (off < N \<longrightarrow> 0 < cnt (e h (afp_sl_read v f off n)) \<and>
                      off + cnt (e h (afp_sl_read v f off n)) \<le> N) \<and>
        (N \<le> off \<longrightarrow> cnt (e h (afp_sl_read v f off n)) = 0) \<and>
        (flg (e h (afp_sl_read v f off n)) \<longrightarrow> N \<le> off + cnt (e h (afp_sl_read v f off n))))"

fun is_mkdir :: "call \<Rightarrow> bool" where
  "is_mkdir (afp_sl_mkdir v p u m) = True"
| "is_mkdir c = False"

fun is_disconnect :: "call \<Rightarrow> bool" where
  "is_disconnect (afp_sl_disconnect i) = True"
| "is_disconnect c = False"
section \<open>Concrete inputs\<close>

text \<open>
  Limits, identifiers and environments on which the theorems below are run.
  \<open>answer\<close> is an answer that reports success with the handle \<open>1\<close>.
\<close>

definition lim0 :: afp_limits where
  "lim0 = \<lparr>default_url = \<lparr>servername = [], port = 548, username = [], password = [],
                             volumename = [], urlpath = []\<rparr>,
            sz_servername = 256, sz_username = 128, sz_password = 128,
            sz_volumename = 34, sz_path = 768\<rparr>"

definition url_of :: "string \<Rightarrow> string \<Rightarrow> string \<Rightarrow> QUrl" where
  "url_of sch h p = \<lparr>q_scheme = sch, q_host = h, q_port = - 1, q_userName = ''u'',
                     q_password = ''p'', q_path = p\<rparr>"

definition answer :: resp where
  "answer = \<lparr>ret = AFP_SERVER_RESULT_OKAY, rc = 0, flg = False, hnd = 1, cnt = 0,
              r_stat = \<lparr>st_size = 0, st_mode = 0\<rparr>, r_time = 0,
              r_info = \<lparr>info_host = [], info_port = None, info_urlUser = [],
                        info_username = [], info_password = [], keepPassword = False\<rparr>,
              f_blocks = 0, f_frsize = 0, f_bavail = 0\<rparr>"

definition env_same :: env where
  "env_same h c = answer"

text \<open>
  An environment in which everything works: no breaker marker, the lock can be
  taken, and every library call succeeds with the handle \<open>1\<close>.
\<close>

definition env_ok :: env where
  "env_ok h c = (case c of stat_breaker \<Rightarrow> answer\<lparr>rc := - 1\<rparr> | _ \<Rightarrow> answer)"


text \<open>
  An environment without a breaker marker in which the first \<open>n\<close> connect
  calls answer the code \<open>r\<close> and no handle, and every other call succeeds
  with the handle \<open>1\<close>.
\<close>

definition env_retry :: "nat \<Rightarrow> afp_result \<Rightarrow> env" where
  "env_retry n r h c =
     (case c of stat_breaker \<Rightarrow> answer\<lparr>rc := - 1\<rparr>
      | afp_sl_connect u \<Rightarrow>
          if length (filter (\<lambda>ev. is_connect (fst ev)) h) < n
          then answer\<lparr>ret := r, hnd := 0\<rparr> else answer
      | _ \<Rightarrow> answer)"

text \<open>
  Environments with a breaker marker that is 10 seconds old: in the first from
  the start, with a user who cancels the password dialog; in the second from
  the first connect call on (another process has tripped the breaker); in the
  third the marker is 40 seconds old.
\<close>

definition env_tripped :: env where
  "env_tripped h c = (case c of time_now \<Rightarrow> answer\<lparr>r_time := 10\<rparr>
                      | openPasswordDialog i b \<Rightarrow> answer\<lparr>rc := 1\<rparr>
                      | _ \<Rightarrow> answer)"

definition env_late :: env where
  "env_late h c = (case c of stat_breaker \<Rightarrow>
                       (if list_ex (\<lambda>ev. is_connect (fst ev)) h then answer else answer\<lparr>rc := - 1\<rparr>)
                   | time_now \<Rightarrow> answer\<lparr>r_time := 10\<rparr>
                   | _ \<Rightarrow> answer)"

definition env_expired :: env where
  "env_expired h c = (case c of time_now \<Rightarrow> answer\<lparr>r_time := 40\<rparr> | _ \<Rightarrow> answer)"

definition url_anon :: "string \<Rightarrow> string \<Rightarrow> QUrl" where
  "url_anon h p = \<lparr>q_scheme = ''afp'', q_host = h, q_port = - 1, q_userName = [],
                   q_password = [], q_path = p\<rparr>"

text \<open>
  An environment in which everything works, except that every metadata query
  answers the code \<open>r\<close>.
\<close>

definition env_stat :: "afp_result \<Rightarrow> env" where
  "env_stat r h c = (case c of stat_breaker \<Rightarrow> answer\<lparr>rc := - 1\<rparr>
                     | afp_sl_stat v p u \<Rightarrow> answer\<lparr>ret := r\<rparr>
                     | _ \<Rightarrow> answer)"

text \<open>
  An environment that serves a regular file of \<open>N\<close> bytes, in full reads,
  with the end-of-file flag on the read that reaches the end.
\<close>

definition env_file :: "nat \<Rightarrow> env" where
  "env_file N h c =
     (case c of stat_breaker \<Rightarrow> answer\<lparr>rc := - 1\<rparr>
      | afp_sl_stat v p u \<Rightarrow> answer\<lparr>r_stat := \<lparr>st_size = N, st_mode = 33188\<rparr>\<rparr>
      | afp_sl_read v f off n \<Rightarrow> answer\<lparr>cnt := min n (N - off), flg := (N \<le> off + n)\<rparr>
      | _ \<Rightarrow> answer)"

text \<open>
  An environment in which a marker that is 10 seconds old appears while the
  request waits for the lock: it is there from the first \<open>open_lock\<close> on.
\<close>

definition env_waiting :: env where
  "env_waiting h c =
     (case c of stat_breaker \<Rightarrow>
          (if list_ex (\<lambda>ev. case fst ev of open_lock \<Rightarrow> True | _ \<Rightarrow> False) h
           then answer else answer\<lparr>rc := - 1\<rparr>)
      | time_now \<Rightarrow> answer\<lparr>r_time := 10\<rparr>
      | _ \<Rightarrow> answer)"

text \<open>
  The same server, except that every read at an offset other than \<open>0\<close>
  times out.
\<close>

definition env_broken :: "nat \<Rightarrow> env" where
  "env_broken N h c =
     (case c of stat_breaker \<Rightarrow> answer\<lparr>rc := - 1\<rparr>
      | afp_sl_stat v p u \<Rightarrow> answer\<lparr>r_stat := \<lparr>st_size = N, st_mode = 33188\<rparr>\<rparr>
      | afp_sl_read v f off n \<Rightarrow>
          if off = 0 then answer\<lparr>cnt := min n N, flg := (N \<le> n)\<rparr>
          else answer\<lparr>ret := AFP_SERVER_RESULT_TIMEDOUT\<rparr>
      | _ \<Rightarrow> answer)"

text \<open>
  An environment for the attach-reset cycle: there is no breaker marker; the
  first connect call succeeds and every later one reports a daemon error; the
  first attach call reports success without a volume handle and every later one
  that the volume is attached already; the handle query fails.
\<close>

definition env_reset :: "nat \<Rightarrow> env" where
  "env_reset n h c =
     (case c of stat_breaker \<Rightarrow> answer\<lparr>rc := - 1\<rparr>
      | afp_sl_connect u \<Rightarrow>
          if length (filter (\<lambda>ev. is_connect (fst ev)) h) < n then answer
          else answer\<lparr>ret := AFP_SERVER_RESULT_DAEMON_ERROR, hnd := 0\<rparr>
      | afp_sl_attach u \<Rightarrow>
          if list_ex (\<lambda>ev. case fst ev of afp_sl_attach u' \<Rightarrow> True | _ \<Rightarrow> False) h
          then answer\<lparr>ret := AFP_SERVER_RESULT_ALREADY_ATTACHED, hnd := 0\<rparr>
          else answer\<lparr>hnd := 0\<rparr>
      | afp_sl_getvolid u \<Rightarrow> answer\<lparr>ret := AFP_SERVER_RESULT_NOTATTACHED, hnd := 0\<rparr>
      | _ \<Rightarrow> answer)"

text \<open>
  An environment in which everything works, except that the first \<open>n\<close>
  calls that create a directory answer the code \<open>r\<close>.
\<close>

definition env_stale :: "nat \<Rightarrow> afp_result \<Rightarrow> env" where
  "env_stale n r h c =
     (case c of stat_breaker \<Rightarrow> answer\<lparr>rc := - 1\<rparr>
      | afp_sl_mkdir v p u m \<Rightarrow>
          if length (filter (\<lambda>ev. is_mkdir (fst ev)) h) < n then answer\<lparr>ret := r\<rparr>
          else answer
      | _ \<Rightarrow> answer)"
section \<open>The target decomposer\<close>

lemma split_acc_parts:
  "p \<in> set (split_acc sep cur str) \<Longrightarrow> sep \<notin> set cur \<Longrightarrow> p \<noteq> [] \<and> sep \<notin> set p"
  by (induction sep cur str rule: split_acc.induct) (auto split: if_splits)

lemma split_acc_append:
  "sep \<notin> set w \<Longrightarrow> split_acc sep cur (w @ rest) = split_acc sep (cur @ w) rest"
  by (induction w arbitrary: cur) auto

lemma split_acc_canonical:
  "\<forall>p \<in> set segs. p \<noteq> [] \<and> sep \<notin> set p \<Longrightarrow>
   split_acc sep cur (concat (map (\<lambda>p. sep # p) segs)) = (if cur = [] then segs else cur # segs)"
proof (induction segs arbitrary: cur)
  case Nil
  then show ?case by simp
next
  case (Cons p ps)
  have p: "p \<noteq> []" "sep \<notin> set p" using Cons.prems by auto
  have "split_acc sep [] (p @ concat (map (\<lambda>p. sep # p) ps)) = p # ps"
    using Cons.IH [of p] Cons.prems p by (simp add: split_acc_append)
  then show ?case by simp
qed

lemma splitSkipEmptyParts_parts:
  "p \<in> set (splitSkipEmptyParts sep str) \<Longrightarrow> p \<noteq> [] \<and> sep \<notin> set p"
  using split_acc_parts [of p sep "[]" str] by (simp add: splitSkipEmptyParts_def)

lemma strncpy_slash: "2 \<le> n \<Longrightarrow> strncpy (n - Suc 0) ''/'' = ''/''"
  by (cases "n - Suc 0") (auto simp: strncpy_def)

lemma parseAfpUrl_server [simp]: "server (parseAfpUrl lim url) = q_host url"
  by (simp add: parseAfpUrl_def Let_def)

lemma parseAfpUrl_hasVolume:
  "hasVolume (parseAfpUrl lim url) \<longleftrightarrow> splitSkipEmptyParts CHR ''/'' (q_path url) \<noteq> []"
  by (simp add: parseAfpUrl_def Let_def)

lemma parseAfpUrl_hasPath:
  "hasPath (parseAfpUrl lim url) \<longleftrightarrow> 1 < length (splitSkipEmptyParts CHR ''/'' (q_path url))"
  by (auto simp: parseAfpUrl_def Let_def)

lemma parseAfpUrl_volume:
  "volume (parseAfpUrl lim url) =
     (if splitSkipEmptyParts CHR ''/'' (q_path url) = [] then []
      else hd (splitSkipEmptyParts CHR ''/'' (q_path url)))"
  by (simp add: parseAfpUrl_def Let_def)

lemma parseAfpUrl_path:
  "path (parseAfpUrl lim url) = join CHR ''/'' (tl (splitSkipEmptyParts CHR ''/'' (q_path url)))"
proof -
  have "\<not> 1 < length ps \<Longrightarrow> tl ps = []" for ps :: "string list"
    by (cases ps) auto
  then show ?thesis by (simp add: parseAfpUrl_def Let_def)
qed

lemma parseAfpUrl_volume_nonempty:
  "hasVolume (parseAfpUrl lim url) \<Longrightarrow> volume (parseAfpUrl lim url) \<noteq> []"
  using splitSkipEmptyParts_parts [of "hd (splitSkipEmptyParts CHR ''/'' (q_path url))" "CHR ''/''" "q_path url"]
  by (simp add: parseAfpUrl_hasVolume parseAfpUrl_volume)

lemma parseAfpUrl_root_path:
  assumes "length (splitSkipEmptyParts CHR ''/'' (q_path url)) = 1" and "2 \<le> sz_path lim"
  shows "urlpath (afpUrl (parseAfpUrl lim url)) = ''/''"
proof -
  have "tl ps = [] \<and> ps \<noteq> []" if "length ps = 1" for ps :: "string list"
    using that by (cases ps) auto
  with assms show ?thesis
    by (simp add: parseAfpUrl_def Let_def strncpy_slash)
qed

lemma parseAfpUrl_scheme:
  "parseAfpUrl lim (url\<lparr>q_scheme := sch\<rparr>) = parseAfpUrl lim url"
proof -
  have "q_host (url\<lparr>q_scheme := sch\<rparr>) = q_host url"
    "q_port (url\<lparr>q_scheme := sch\<rparr>) = q_port url"
    "q_userName (url\<lparr>q_scheme := sch\<rparr>) = q_userName url"
    "q_password (url\<lparr>q_scheme := sch\<rparr>) = q_password url"
    "q_path (url\<lparr>q_scheme := sch\<rparr>) = q_path url"
    by simp_all
  then show ?thesis unfolding parseAfpUrl_def by (simp only:)
qed

lemma del_root:
  "\<not> hasPath (parseAfpUrl lim url) \<Longrightarrow>
   del e lim url isFile s = Some (Fail ERR_ACCESS_DENIED (I18n ''Cannot delete volume root'' []), s)"
  by (simp add: del_def Let_def)

lemma rename_root:
  "\<not> hasPath (parseAfpUrl lim src) \<or> \<not> hasPath (parseAfpUrl lim dest) \<Longrightarrow>
   rename e lim src dest overwrite s =
     Some (Fail ERR_UNSUPPORTED_ACTION (I18n ''Cannot rename volume roots'' []), s)"
  by (simp add: rename_def Let_def)

lemma rename_across:
  "server (parseAfpUrl lim src) \<noteq> server (parseAfpUrl lim dest)
     \<or> volume (parseAfpUrl lim src) \<noteq> volume (parseAfpUrl lim dest) \<Longrightarrow>
   \<exists>m. rename e lim src dest overwrite s = Some (Fail ERR_UNSUPPORTED_ACTION m, s)"
  by (simp add: rename_def Let_def)

lemma url_of_simps [simp]:
  "q_scheme (url_of sch h p) = sch" "q_host (url_of sch h p) = h" "q_path (url_of sch h p) = p"
  by (simp_all add: url_of_def)

section \<open>Splitting and joining\<close>

lemma split_sep: "splitSkipEmptyParts sep (sep # str) = splitSkipEmptyParts sep str"
  by (simp add: splitSkipEmptyParts_def)

lemma split_seg:
  "seg \<noteq> [] \<Longrightarrow> sep \<notin> set seg \<Longrightarrow> splitSkipEmptyParts sep seg = [seg]"
  using split_acc_append [of sep seg "[]" "[]"] by (simp add: splitSkipEmptyParts_def)

lemma split_seg_sep:
  "seg \<noteq> [] \<Longrightarrow> sep \<notin> set seg \<Longrightarrow>
   splitSkipEmptyParts sep (seg @ sep # str) = seg # splitSkipEmptyParts sep str"
  using split_acc_append [of sep seg "[]" "sep # str"] by (simp add: splitSkipEmptyParts_def)

lemma split_join:
  "\<forall>p \<in> set segs. p \<noteq> [] \<and> sep \<notin> set p \<Longrightarrow>
   splitSkipEmptyParts sep (join sep segs) = segs"
proof (induction sep segs rule: join.induct)
  case (1 sep)
  show ?case by (simp add: splitSkipEmptyParts_def)
next
  case (2 sep p)
  then show ?case by (simp add: split_seg)
next
  case (3 sep p q ps)
  then show ?case by (simp add: split_seg_sep)
qed

lemma parseAfpUrl_no_segment:
  assumes "splitSkipEmptyParts CHR ''/'' (q_path url) = []"
  shows "\<not> hasVolume (parseAfpUrl lim url) \<and> \<not> hasPath (parseAfpUrl lim url) \<and>
     volume (parseAfpUrl lim url) = [] \<and> path (parseAfpUrl lim url) = []"
  using assms
  by (simp add: parseAfpUrl_hasVolume parseAfpUrl_hasPath parseAfpUrl_volume parseAfpUrl_path)

lemma parseAfpUrl_segments:
  assumes "splitSkipEmptyParts CHR ''/'' (q_path url) = v # rest"
  shows "hasVolume (parseAfpUrl lim url) \<and> volume (parseAfpUrl lim url) = v \<and>
     path (parseAfpUrl lim url) = join CHR ''/'' rest \<and>
     (hasPath (parseAfpUrl lim url) \<longleftrightarrow> rest \<noteq> []) \<and>
     (rest = [] \<and> 2 \<le> sz_path lim \<longrightarrow> urlpath (afpUrl (parseAfpUrl lim url)) = ''/'')"
  using assms parseAfpUrl_root_path [of url lim]
  by (simp add: parseAfpUrl_hasVolume parseAfpUrl_hasPath parseAfpUrl_volume parseAfpUrl_path)

section \<open>Calls issued and session fields changed by the lifecycle\<close>


lemma perform_wk [simp]: "wk (snd (perform e c s)) = wk s"
  by (simp add: perform_def)

lemma perform_trace [simp]: "trace (snd (perform e c s)) = trace s @ [(c, e (trace s) c)]"
  by (simp add: perform_def)

lemma perform_fst [simp]: "fst (perform e c s) = e (trace s) c"
  by (simp add: perform_def)

lemma only_refl [simp]: "only P s s"
  by (simp add: only_def)

lemma only_trans: "only P s s1 \<Longrightarrow> only P s1 s2 \<Longrightarrow> only P s s2"
  by (auto simp: only_def)

lemma only_perform: "only P s s1 \<Longrightarrow> P c \<Longrightarrow> only P s (snd (perform e c s1))"
  by (auto simp: only_def)

lemma only_wk_update [simp]: "only P s (s1\<lparr>wk := w\<rparr>) = only P s s1"
  by (simp add: only_def)

lemma only_from_wk_update [simp]: "only P (s\<lparr>wk := w\<rparr>) s1 = only P s s1"
  by (simp add: only_def)

lemma only_mono: "only P s s1 \<Longrightarrow> (\<And>c. P c \<Longrightarrow> Q c) \<Longrightarrow> only Q s s1"
  by (auto simp: only_def)

lemma only_issued: "only P s s1 \<Longrightarrow> c \<in> set (issued s s1) \<Longrightarrow> P c"
  by (auto simp: only_def issued_def)

lemma same_target_refl [simp]: "same_target pu pu"
  by (simp add: same_target_def)

lemma same_target_trans: "same_target a b \<Longrightarrow> same_target b c \<Longrightarrow> same_target a c"
  by (simp add: same_target_def)

lemma same_target_copyCredentials [simp]: "same_target pu (copyCredentials lim i pu)"
  by (simp add: same_target_def copyCredentials_def)

lemma same_target_fill [simp]: "same_target pu (fillCachedCredentials lim w pu)"
  by (simp add: same_target_def fillCachedCredentials_def Let_def)

lemma ensureConnSetup_facts:
  "fst (ensureConnSetup e s) = Pass"
  "only session_call s0 s \<Longrightarrow> only session_call s0 (snd (ensureConnSetup e s))"
  "wk (snd (ensureConnSetup e s)) = (wk s)\<lparr>m_connSetupDone := True\<rparr>"
  by (auto simp: ensureConnSetup_def intro: only_perform)

lemma closeLock_wk [simp]: "wk (closeLock e fd s) = wk s"
  by (simp add: closeLock_def)

lemma closeLock_only: "only session_call s0 s \<Longrightarrow> only session_call s0 (closeLock e fd s)"
  by (simp add: closeLock_def only_perform)

lemma acquireLock_wk [simp]: "wk (snd (acquireLock e s)) = wk s"
  by (simp add: acquireLock_def Let_def split_beta)

lemma acquireLock_only:
  "only session_call s0 s \<Longrightarrow> only session_call s0 (snd (acquireLock e s))"
  by (simp add: acquireLock_def Let_def split_beta only_perform)

lemma breakerCheck_wk [simp]: "wk (snd (breakerCheck e s)) = wk s"
  by (simp add: breakerCheck_def Let_def split_beta)

lemma breakerCheck_only:
  "only session_call s0 s \<Longrightarrow> only session_call s0 (snd (breakerCheck e s))"
  by (simp add: breakerCheck_def Let_def split_beta only_perform)

lemma invalidate_wk [simp]: "wk (invalidateSessionState e s) = clearSession (wk s)"
  by (simp add: invalidateSessionState_def Let_def)

lemma invalidate_only:
  "only session_call s0 s \<Longrightarrow> only session_call s0 (invalidateSessionState e s)"
  by (simp add: invalidateSessionState_def Let_def only_perform)

lemma switchServer_only:
  "only session_call s0 s \<Longrightarrow> only session_call s0 (switchServer e pu s)"
  by (simp add: switchServer_def only_perform)

lemma switchServer_wk:
  "wk (switchServer e pu s) =
     (if m_serverId (wk s) \<noteq> 0 \<and> m_cachedServer (wk s) \<noteq> server pu
      then clearSession (wk s) else wk s)"
  by (simp add: switchServer_def)

lemma cachedCredentials_wk [simp]: "wk (snd (cachedCredentials e lim pu i s)) = wk s"
  by (simp add: cachedCredentials_def Let_def split_beta)

lemma cachedCredentials_only:
  "only session_call s0 s \<Longrightarrow> only session_call s0 (snd (cachedCredentials e lim pu i s))"
  by (simp add: cachedCredentials_def Let_def split_beta only_perform)

lemma cachedCredentials_target [simp]:
  "same_target pu (snd (snd (fst (cachedCredentials e lim pu i s))))"
  by (simp add: cachedCredentials_def Let_def split_beta)

lemma promptCredentials_wk [simp]: "wk (snd (promptCredentials e lim pu i s)) = wk s"
  by (simp add: promptCredentials_def Let_def split_beta)

lemma promptCredentials_only:
  "only session_call s0 s \<Longrightarrow> only session_call s0 (snd (promptCredentials e lim pu i s))"
  by (simp add: promptCredentials_def Let_def split_beta only_perform)

lemma gatherCredentials_only:
  "only session_call s0 s \<Longrightarrow> only session_call s0 (snd (gatherCredentials e lim pu s))"
  by (simp add: gatherCredentials_def Let_def split_beta ensureConnSetup_facts
        switchServer_only cachedCredentials_only promptCredentials_only)

lemma gatherCredentials_wk:
  "wk (snd (gatherCredentials e lim pu s)) =
     (if m_serverId (wk s) \<noteq> 0 \<and> m_cachedServer (wk s) \<noteq> server pu
      then clearSession (wk s) else wk s)\<lparr>m_connSetupDone := True\<rparr>"
  by (simp add: gatherCredentials_def Let_def split_beta ensureConnSetup_facts
        switchServer_wk clearSession_def)


lemma connectOnce_wk [simp]: "wk (snd (connectOnce e pu s)) = wk s"
  by (simp add: connectOnce_def Let_def split_beta)

lemma connectOnce_only:
  "only session_call s0 s \<Longrightarrow> only session_call s0 (snd (connectOnce e pu s))"
  by (simp add: connectOnce_def Let_def split_beta only_perform)

lemma connectOnce_sid:
  "fst (fst (connectOnce e pu s)) = AFP_SERVER_RESULT_OKAY
     \<or> fst (fst (connectOnce e pu s)) = AFP_SERVER_RESULT_ALREADY_CONNECTED
   \<Longrightarrow> snd (fst (connectOnce e pu s)) \<noteq> 0"
  by (auto simp: connectOnce_def Let_def split_beta split: if_splits)

lemma connectSucceeded_wk [simp]:
  "wk (connectSucceeded e pu info du fd sid s) =
     (wk s)\<lparr>m_serverId := sid, m_cachedServer := server pu,
              m_cachedUser := username (afpUrl pu), m_cachedPass := password (afpUrl pu)\<rparr>"
  by (simp add: connectSucceeded_def Let_def)

lemma connectSucceeded_only:
  "only session_call s0 s \<Longrightarrow> only session_call s0 (connectSucceeded e pu info du fd sid s)"
  by (simp add: connectSucceeded_def Let_def only_perform closeLock_only)

lemma tripBreaker_wk [simp]: "wk (tripBreaker e fd s) = wk s"
  by (simp add: tripBreaker_def Let_def split_beta)

lemma tripBreaker_only:
  "only session_call s0 s \<Longrightarrow> only session_call s0 (tripBreaker e fd s)"
  by (simp add: tripBreaker_def Let_def split_beta only_perform closeLock_only)

lemma connect_loop_induct [consumes 1, case_names return continue]:
  assumes "connect_loop e lim pu info du fd k s = Some y"
    and "\<And>pu info du fd k s y.
           connect_iteration e lim pu info du fd k s = Inl y \<Longrightarrow> P pu info du fd k s y"
    and "\<And>pu info du fd k s pu1 info1 du1 fd1 k1 s1 y.
           connect_iteration e lim pu info du fd k s = Inr (pu1, info1, du1, fd1, k1, s1) \<Longrightarrow>
           connect_loop e lim pu1 info1 du1 fd1 k1 s1 = Some y \<Longrightarrow>
           P pu1 info1 du1 fd1 k1 s1 y \<Longrightarrow> P pu info du fd k s y"
  shows "P pu info du fd k s y"
proof -
  have "connect_loop e' lim' pu info du fd k s = Some y \<Longrightarrow>
        e' = e \<and> lim' = lim \<longrightarrow> connect_loop e lim pu info du fd k s = Some y \<and> P pu info du fd k s y"
    for e' lim'
  proof (induct rule: connect_loop.raw_induct [rotated, consumes 1])
    case (1 loop e' lim' pu info du fd k s y)
    show ?case
    proof (intro impI)
      assume eq: "e' = e \<and> lim' = lim"
      show "connect_loop e lim pu info du fd k s = Some y \<and> P pu info du fd k s y"
      proof (cases "connect_iteration e lim pu info du fd k s")
        case (Inl a)
        with "1.hyps"(2) eq have "a = y" by simp
        with Inl assms(2) show ?thesis by (subst connect_loop.simps) simp
      next
        case (Inr b)
        obtain pu1 info1 du1 fd1 k1 s1 where b: "b = (pu1, info1, du1, fd1, k1, s1)"
          by (cases b) auto
        from "1.hyps"(2) eq Inr b have "loop e lim pu1 info1 du1 fd1 k1 s1 = Some y"
          by simp
        from "1.hyps"(1) [OF this]
        have r: "connect_loop e lim pu1 info1 du1 fd1 k1 s1 = Some y"
          "P pu1 info1 du1 fd1 k1 s1 y" by simp_all
        from r(1) Inr b have "connect_loop e lim pu info du fd k s = Some y"
          by (subst connect_loop.simps) simp
        moreover from assms(3) Inr b r have "P pu info du fd k s y" by blast
        ultimately show ?thesis by simp
      qed
    qed
  qed
  from this [OF assms(1)] show ?thesis by simp
qed

lemma mapAfpConnectError_not_Pass [simp]: "mapAfpConnectError r sv \<noteq> Pass"
  by (cases r) simp_all

lemma connect_iteration_return:
  assumes "connect_iteration e lim pu info du fd k s = Inl (r, pu', s')"
  shows "(only session_call s0 s \<longrightarrow> only session_call s0 s') \<and> pu' = pu \<and>
     (r = Pass \<longrightarrow> m_serverId (wk s') \<noteq> 0 \<and>
        wk s' = (wk s)\<lparr>m_serverId := m_serverId (wk s'), m_cachedServer := server pu,
                  m_cachedUser := username (afpUrl pu), m_cachedPass := password (afpUrl pu)\<rparr>) \<and>
     (r \<noteq> Pass \<longrightarrow> wk s' = wk s)"
  using assms connectOnce_sid [of e pu s]
  by (auto simp: connect_iteration_def Let_def split_beta connectSucceeded_only connectOnce_only
        only_perform closeLock_only tripBreaker_only split: if_splits)

lemma connect_iteration_continue:
  assumes "connect_iteration e lim pu info du fd k s = Inr (pu1, info1, du1, fd1, k1, s1)"
  shows "(only session_call s0 s \<longrightarrow> only session_call s0 s1) \<and> same_target pu pu1 \<and>
     wk s1 = wk s"
  using assms
  by (auto simp: connect_iteration_def Let_def split_beta connectOnce_only
        only_perform closeLock_only acquireLock_only split: if_splits)

lemma connect_loop_facts_aux:
  "connect_loop e lim pu info du fd k s = Some y \<Longrightarrow>
     (only session_call s0 s \<longrightarrow> only session_call s0 (snd (snd y))) \<and>
     same_target pu (fst (snd y)) \<and>
     (fst y = Pass \<longrightarrow>
        m_serverId (wk (snd (snd y))) \<noteq> 0 \<and>
        m_cachedServer (wk (snd (snd y))) = server pu \<and>
        m_cachedUser (wk (snd (snd y))) = username (afpUrl (fst (snd y))) \<and>
        m_cachedPass (wk (snd (snd y))) = password (afpUrl (fst (snd y)))) \<and>
     m_volumeId (wk (snd (snd y))) = m_volumeId (wk s) \<and>
     m_cachedVolume (wk (snd (snd y))) = m_cachedVolume (wk s) \<and>
     m_connSetupDone (wk (snd (snd y))) = m_connSetupDone (wk s) \<and>
     (fst y \<noteq> Pass \<longrightarrow> wk (snd (snd y)) = wk s)"
proof (induct rule: connect_loop_induct)
  case (return pu info du fd k s y)
  obtain r pu' s' where y: "y = (r, pu', s')" by (cases y)
  note f = connect_iteration_return [OF return [unfolded y], of s0]
  show ?case
  proof (cases "r = Pass")
    case True
    with f have w: "wk s' = (wk s)\<lparr>m_serverId := m_serverId (wk s'), m_cachedServer := server pu,
                  m_cachedUser := username (afpUrl pu), m_cachedPass := password (afpUrl pu)\<rparr>"
      by simp
    have "m_cachedServer (wk s') = server pu" "m_cachedUser (wk s') = username (afpUrl pu)"
      "m_cachedPass (wk s') = password (afpUrl pu)" "m_volumeId (wk s') = m_volumeId (wk s)"
      "m_cachedVolume (wk s') = m_cachedVolume (wk s)"
      "m_connSetupDone (wk s') = m_connSetupDone (wk s)"
      by (subst w, simp)+
    with f True show ?thesis by (simp add: y)
  next
    case False
    with f show ?thesis by (simp add: y)
  qed
next
  case (continue pu info du fd k s pu1 info1 du1 fd1 k1 s1 y)
  note f = connect_iteration_continue [OF continue(1), of s0]
  have "server pu1 = server pu" using f by (simp add: same_target_def)
  moreover have "same_target pu (fst (snd y))"
    using f continue(3) same_target_trans by blast
  ultimately show ?case using f continue(3) by simp
qed

lemma connect_loop_facts:
  assumes "connect_loop e lim pu info du fd k s = Some (r, pu', s')"
  shows "only session_call s0 s \<Longrightarrow> only session_call s0 s'"
    and "same_target pu pu'"
    and "r = Pass \<Longrightarrow> m_serverId (wk s') \<noteq> 0"
    and "r = Pass \<Longrightarrow> m_cachedServer (wk s') = server pu \<and>
           m_cachedUser (wk s') = username (afpUrl pu') \<and>
           m_cachedPass (wk s') = password (afpUrl pu')"
    and "r \<noteq> Pass \<Longrightarrow> wk s' = wk s"
    and "m_volumeId (wk s') = m_volumeId (wk s)"
    and "m_cachedVolume (wk s') = m_cachedVolume (wk s)"
    and "m_connSetupDone (wk s') = m_connSetupDone (wk s)"
  using connect_loop_facts_aux [OF assms, of s0] by simp_all

lemma promptCredentials_result:
  "fst (promptCredentials e lim pu i s) = Inl (r, pu1) \<Longrightarrow> r \<noteq> Pass \<and> same_target pu pu1"
  "fst (promptCredentials e lim pu i s) = Inr (pu1, i1, du) \<Longrightarrow> same_target pu pu1"
  by (auto simp: promptCredentials_def Let_def split_beta split: if_splits)

lemma gatherCredentials_result:
  "fst (gatherCredentials e lim pu s) = Inl (r, pu1) \<Longrightarrow>
     same_target pu pu1 \<and> (r = Pass \<longleftrightarrow> m_serverId (wk (snd (gatherCredentials e lim pu s))) \<noteq> 0)"
  "fst (gatherCredentials e lim pu s) = Inr (pu1, i1, du) \<Longrightarrow>
     same_target pu pu1 \<and> m_serverId (wk (snd (gatherCredentials e lim pu s))) = 0"
  by (auto simp: gatherCredentials_def Let_def split_beta ensureConnSetup_facts
        split: if_splits dest!: promptCredentials_result
        intro: same_target_trans [OF cachedCredentials_target])


lemma breakerFailure_not_Pass [simp]: "breakerFailure age \<noteq> Pass"
  by (simp add: breakerFailure_def)

lemma gatherCredentials_cachedServer:
  "m_serverId (wk (snd (gatherCredentials e lim pu s))) \<noteq> 0 \<Longrightarrow>
   m_cachedServer (wk (snd (gatherCredentials e lim pu s))) = server pu"
  by (auto simp: gatherCredentials_wk clearSession_def split: if_splits)

lemma ensureConnected_facts_aux:
  assumes "ensureConnected e lim pu s = Some (r, pu', s')"
  shows "(only session_call s0 s \<longrightarrow> only session_call s0 s') \<and>
     same_target pu pu' \<and>
     (r = Pass \<longrightarrow> m_serverId (wk s') \<noteq> 0) \<and>
     (m_serverId (wk s') \<noteq> 0 \<longrightarrow> m_cachedServer (wk s') = server pu) \<and>
     (r \<noteq> Pass \<longrightarrow> m_serverId (wk s') = 0) \<and>
     m_volumeId (wk s') = m_volumeId (wk (snd (gatherCredentials e lim pu s))) \<and>
     m_cachedVolume (wk s') = m_cachedVolume (wk (snd (gatherCredentials e lim pu s))) \<and>
     m_connSetupDone (wk s') \<and>
     (m_serverId (wk (snd (gatherCredentials e lim pu s))) \<noteq> 0 \<longrightarrow> r = Pass)"
proof -
  let ?g = "gatherCredentials e lim pu s"
  let ?b1 = "breakerCheck e (snd ?g)"
  let ?l = "acquireLock e (snd ?b1)"
  let ?b2 = "breakerCheck e (snd ?l)"
  have g_only: "only session_call s0 s \<longrightarrow> only session_call s0 (snd ?g)"
    by (simp add: gatherCredentials_only)
  have b2_only: "only session_call s0 s \<longrightarrow> only session_call s0 (snd ?b2)"
    by (simp add: gatherCredentials_only breakerCheck_only acquireLock_only)
  have csd: "m_connSetupDone (wk (snd ?g))"
    by (simp add: gatherCredentials_wk)
  show ?thesis
  proof (cases "fst ?g")
    case (Inl a)
    obtain r1 pu1 where a: "a = (r1, pu1)" by (cases a)
    from assms Inl a have eq: "r = r1" "pu' = pu1" "s' = snd ?g"
      by (simp_all add: ensureConnected_def split_beta)
    from gatherCredentials_result(1) [of e lim pu s r1 pu1] Inl a
    have "same_target pu pu1" "r1 = Pass \<longleftrightarrow> m_serverId (wk (snd ?g)) \<noteq> 0"
      by simp_all
    with g_only gatherCredentials_cachedServer [of e lim pu s] csd show ?thesis
      by (simp add: eq)
  next
    case (Inr b)
    obtain pu1 info du where b: "b = (pu1, info, du)" by (cases b)
    from gatherCredentials_result(2) [of e lim pu s pu1 info du] Inr b
    have tgt: "same_target pu pu1" and nosrv: "m_serverId (wk (snd ?g)) = 0"
      by simp_all
    show ?thesis
    proof (cases "fst ?b1")
      case (Some age)
      from assms Inr b Some have eq: "r = breakerFailure age" "pu' = pu1" "s' = snd ?b1"
        by (simp_all add: ensureConnected_def split_beta)
      show ?thesis using tgt nosrv csd
        by (simp add: eq gatherCredentials_only breakerCheck_only)
    next
      case None
      note b1 = None
      show ?thesis
      proof (cases "fst ?b2")
        case (Some age)
        from assms Inr b b1 Some
        have eq: "r = breakerFailure age" "pu' = pu1" "s' = closeLock e (fst ?l) (snd ?b2)"
          by (simp_all add: ensureConnected_def split_beta Let_def)
        show ?thesis using tgt nosrv b2_only csd
          by (simp add: eq closeLock_only)
      next
        case None
        from assms Inr b b1 None
        have loop: "connect_loop e lim pu1 info du (fst ?l) 0 (snd ?b2) = Some (r, pu', s')"
          by (simp add: ensureConnected_def split_beta Let_def)
        have wk2: "wk (snd ?b2) = wk (snd ?g)" by simp
        note f = connect_loop_facts [OF loop]
        have "server pu1 = server pu" using tgt by (simp add: same_target_def)
        moreover have "same_target pu pu'"
          using f(2) tgt by (rule same_target_trans [rotated])
        moreover have "only session_call s0 s \<longrightarrow> only session_call s0 s'"
          using f(1) [of s0] b2_only by blast
        ultimately show ?thesis using nosrv csd f(3,4,5,6,7,8) wk2
          by (cases "r = Pass") simp_all
      qed
    qed
  qed
qed

lemma ensureConnected_facts:
  assumes "ensureConnected e lim pu s = Some (r, pu', s')"
  shows "only session_call s0 s \<Longrightarrow> only session_call s0 s'"
    and "same_target pu pu'"
    and "r = Pass \<Longrightarrow> m_serverId (wk s') \<noteq> 0"
    and "m_serverId (wk s') \<noteq> 0 \<Longrightarrow> m_cachedServer (wk s') = server pu"
    and "r \<noteq> Pass \<Longrightarrow> m_serverId (wk s') = 0"
    and "m_volumeId (wk s') = m_volumeId (wk (snd (gatherCredentials e lim pu s)))"
    and "m_cachedVolume (wk s') = m_cachedVolume (wk (snd (gatherCredentials e lim pu s)))"
    and "m_connSetupDone (wk s')"
    and "m_serverId (wk (snd (gatherCredentials e lim pu s))) \<noteq> 0 \<Longrightarrow> r = Pass"
  using ensureConnected_facts_aux [OF assms, of s0] by simp_all


lemma ensureConnected_inv:
  assumes "ensureConnected e lim pu s = Some (r, pu', s')" and "session_inv (wk s)"
  shows "session_inv (wk s')"
proof -
  note f = ensureConnected_facts [OF assms(1)]
  show ?thesis
    using f(3,5,6,7,9) assms(2)
    by (cases "r = Pass")
       (auto simp: session_inv_def gatherCredentials_wk clearSession_def split: if_splits)
qed

lemma ensureConnected_named:
  assumes "ensureConnected e lim pu s = Some (r, pu', s')" and "server pu \<noteq> []"
  shows "server_named (wk s')"
  using ensureConnected_facts(4) [OF assms(1)] assms(2) by (auto simp: server_named_def)

lemma ensureConnected_keeps_null_volume:
  assumes "ensureConnected e lim pu s = Some (r, pu', s')" and "m_volumeId (wk s) = 0"
  shows "m_volumeId (wk s') = 0"
  using ensureConnected_facts(6) [OF assms(1)] assms(2)
  by (simp add: gatherCredentials_wk clearSession_def)

lemma reattach_wk [simp]: "wk (snd (reattach e pu s)) = wk s"
  by (simp add: reattach_def Let_def split_beta)

lemma reattach_only:
  "only session_call s0 s \<Longrightarrow> only session_call s0 (snd (reattach e pu s))"
  by (simp add: reattach_def Let_def split_beta only_perform)

lemma cacheVolume_wk [simp]:
  "wk (cacheVolume vid v s) = (wk s)\<lparr>m_volumeId := vid, m_cachedVolume := v\<rparr>"
  by (simp add: cacheVolume_def)

lemma cacheVolume_only [simp]:
  "only P s0 (cacheVolume vid v s) = only P s0 s"
  by (simp add: cacheVolume_def)

lemma mapAfpError_Pass [simp]: "mapAfpError r p = Pass \<longleftrightarrow> r = AFP_SERVER_RESULT_OKAY"
  by (cases r) simp_all

lemma resetAndReattach_facts_aux:
  assumes "resetAndReattach e lim pu s = Some (r, pu', s')"
  shows "(only session_call s0 s \<longrightarrow> only session_call s0 s') \<and>
     same_target pu pu' \<and>
     (r = Pass \<longrightarrow> m_serverId (wk s') \<noteq> 0 \<and> m_cachedVolume (wk s') = volume pu) \<and>
     (m_serverId (wk s') \<noteq> 0 \<longrightarrow> m_cachedServer (wk s') = server pu) \<and>
     (m_volumeId (wk s) = 0 \<longrightarrow> volume pu \<noteq> [] \<longrightarrow> session_inv (wk s')) \<and>
     m_connSetupDone (wk s')"
proof -
  let ?s2 = "(snd (perform e (afp_sl_disconnect (m_serverId (wk s))) s))
               \<lparr>wk := (wk s)\<lparr>m_serverId := 0, m_cachedServer := []\<rparr>\<rparr>"
  from assms obtain rc1 pu1 s3 where c: "ensureConnected e lim pu ?s2 = Some (rc1, pu1, s3)"
    by (auto simp: resetAndReattach_def Let_def split: option.splits)
  note f = ensureConnected_facts [OF c]
  have o3: "only session_call s0 s \<longrightarrow> only session_call s0 s3"
    using f(1) [of s0] by (simp add: only_perform)
  have v3: "m_volumeId (wk s) = 0 \<longrightarrow> m_volumeId (wk s3) = 0"
    using ensureConnected_keeps_null_volume [OF c] by simp
  have tgt: "volume pu1 = volume pu" "server pu1 = server pu"
    using f(2) by (simp_all add: same_target_def)
  show ?thesis
  proof (cases "success rc1")
    case False
    with assms c have eq: "r = rc1" "pu' = pu1" "s' = s3"
      by (auto simp: resetAndReattach_def Let_def)
    from False have "rc1 \<noteq> Pass" by auto
    then show ?thesis using o3 v3 f(2,4,5,8)
      by (simp add: eq session_inv_def)
  next
    case True
    then have p: "rc1 = Pass" by (cases rc1) simp_all
    let ?g = "reattach e pu1 s3"
    show ?thesis
    proof (cases "ret (fst ?g) = AFP_SERVER_RESULT_OKAY")
      case False
      with assms c p
      have eq: "r = mapAfpError (ret (fst ?g)) (volume pu1)" "pu' = pu1" "s' = snd ?g"
        by (auto simp: resetAndReattach_def Let_def split_beta)
      show ?thesis using False o3 v3 f(2,4,8)
        by (simp add: eq session_inv_def reattach_only)
    next
      case True
      with assms c p
      have eq: "r = Pass" "pu' = pu1"
        "s' = cacheVolume (hnd (fst ?g)) (volume pu1) (snd ?g)"
        by (auto simp: resetAndReattach_def Let_def split_beta)
      show ?thesis using o3 f(2,3,4,8) p tgt
        by (simp add: eq session_inv_def reattach_only)
    qed
  qed
qed

lemma ensureAttached_facts_aux:
  assumes "ensureAttached e lim pu s = Some (r, pu', s')"
  shows "(only session_call s0 s \<longrightarrow> only session_call s0 s') \<and>
     same_target pu pu' \<and>
     (r = Pass \<longrightarrow> m_serverId (wk s') \<noteq> 0 \<and> m_cachedVolume (wk s') = volume pu) \<and>
     (hasVolume pu \<longrightarrow> m_serverId (wk s') \<noteq> 0 \<longrightarrow> m_cachedServer (wk s') = server pu) \<and>
     (session_inv (wk s) \<longrightarrow> (hasVolume pu \<longrightarrow> volume pu \<noteq> []) \<longrightarrow> session_inv (wk s'))"
proof (cases "hasVolume pu")
  case False
  with assms show ?thesis by (auto simp: ensureAttached_def)
next
  case True
  note hv = True
  from assms hv obtain r1 pu1 s1 where c: "ensureConnected e lim pu s = Some (r1, pu1, s1)"
    by (auto simp: ensureAttached_def split: option.splits)
  note f = ensureConnected_facts [OF c]
  have tgt: "volume pu1 = volume pu" "server pu1 = server pu"
    using f(2) by (simp_all add: same_target_def)
  have inv1: "session_inv (wk s) \<longrightarrow> session_inv (wk s1)"
    using ensureConnected_inv [OF c] by simp
  show ?thesis
  proof (cases "success r1")
    case False
    with assms c hv have eq: "r = r1" "pu' = pu1" "s' = s1"
      by (auto simp: ensureAttached_def)
    from False have "r1 \<noteq> Pass" by auto
    then show ?thesis using f(1) [of s0] f(2,4) inv1 by (simp add: eq)
  next
    case True
    then have p: "r1 = Pass" by (cases r1) simp_all
    define s2 where "s2 = switchVolume pu1 s1"
    have o2: "only session_call s0 s \<longrightarrow> only session_call s0 s2"
      using f(1) [of s0] by (simp add: s2_def switchVolume_def)
    have srv2: "m_serverId (wk s2) \<noteq> 0" "m_cachedServer (wk s2) = server pu"
      using f(3,4) p by (simp_all add: s2_def switchVolume_def)
    have inv2: "session_inv (wk s) \<longrightarrow> session_inv (wk s2)"
      using inv1 by (simp add: session_inv_def s2_def switchVolume_def)
    have cv2: "m_volumeId (wk s2) \<noteq> 0 \<longrightarrow> m_cachedVolume (wk s2) = volume pu"
      using tgt by (simp add: s2_def switchVolume_def)
    from assms c hv p have body:
      "(if m_volumeId (wk s2) \<noteq> 0 then Some (Pass, pu1, s2)
        else let (a, s3) = perform e (afp_sl_attach (afpUrl pu1)) s2
             in if ret a = AFP_SERVER_RESULT_ALREADY_MOUNTED
                   \<or> ret a = AFP_SERVER_RESULT_ALREADY_ATTACHED
                then (let (g, s4) = perform e (afp_sl_getvolid (afpUrl pu1)) s3
                      in if ret g \<noteq> AFP_SERVER_RESULT_OKAY
                         then resetAndReattach e lim pu1 s4
                         else Some (Pass, pu1, cacheVolume (hnd g) (volume pu1) s4))
                else if ret a \<noteq> AFP_SERVER_RESULT_OKAY
                then Some (mapAfpError (ret a) (volume pu1), pu1, s3)
                else Some (Pass, pu1, cacheVolume (hnd a) (volume pu1) s3)) = Some (r, pu', s')"
      unfolding s2_def by (simp add: ensureAttached_def Let_def)
    show ?thesis
    proof (cases "m_volumeId (wk s2) \<noteq> 0")
      case True
      with body have eq: "r = Pass" "pu' = pu1" "s' = s2"
        by auto
      show ?thesis unfolding eq using o2 f(2) srv2 inv2 cv2 True by blast
    next
      case False
      note nv = False
      let ?a = "perform e (afp_sl_attach (afpUrl pu1)) s2"
      let ?g = "perform e (afp_sl_getvolid (afpUrl pu1)) (snd ?a)"
      have og: "only session_call s0 s \<longrightarrow> only session_call s0 (snd ?g)"
        "only session_call s0 s \<longrightarrow> only session_call s0 (snd ?a)"
        using o2 by (simp_all add: only_perform)
      have wka: "wk (snd ?a) = wk s2" "wk (snd ?g) = wk s2" by simp_all
      consider (reset) "ret (fst ?a) = AFP_SERVER_RESULT_ALREADY_MOUNTED
              \<or> ret (fst ?a) = AFP_SERVER_RESULT_ALREADY_ATTACHED"
            "ret (fst ?g) \<noteq> AFP_SERVER_RESULT_OKAY"
        | (got) "ret (fst ?a) = AFP_SERVER_RESULT_ALREADY_MOUNTED
              \<or> ret (fst ?a) = AFP_SERVER_RESULT_ALREADY_ATTACHED"
            "ret (fst ?g) = AFP_SERVER_RESULT_OKAY"
        | (failed) "\<not> (ret (fst ?a) = AFP_SERVER_RESULT_ALREADY_MOUNTED
              \<or> ret (fst ?a) = AFP_SERVER_RESULT_ALREADY_ATTACHED)"
            "ret (fst ?a) \<noteq> AFP_SERVER_RESULT_OKAY"
        | (attached) "ret (fst ?a) = AFP_SERVER_RESULT_OKAY"
        by auto
      then show ?thesis
      proof cases
        case reset
        with body nv
        have rr: "resetAndReattach e lim pu1 (snd ?g) = Some (r, pu', s')"
          by (simp add: Let_def split_beta)
        note g = resetAndReattach_facts_aux [OF rr, of s0]
        have "m_volumeId (wk (snd ?g)) = 0" using nv by simp
        moreover have "same_target pu pu'" using g f(2) same_target_trans by blast
        ultimately show ?thesis using g og(1) tgt hv by auto
      next
        case got
        with body nv
        have eq: "r = Pass" "pu' = pu1" "s' = cacheVolume (hnd (fst ?g)) (volume pu1) (snd ?g)"
          by (auto simp: Let_def split_beta)
        show ?thesis using og(1) f(2) srv2 tgt nv hv
          by (simp add: eq session_inv_def)
      next
        case failed
        with body nv
        have eq: "r = mapAfpError (ret (fst ?a)) (volume pu1)" "pu' = pu1" "s' = snd ?a"
          by (auto simp: Let_def split_beta)
        show ?thesis using og(2) f(2) srv2 nv failed(2)
          by (simp add: eq session_inv_def)
      next
        case attached
        with body nv
        have eq: "r = Pass" "pu' = pu1" "s' = cacheVolume (hnd (fst ?a)) (volume pu1) (snd ?a)"
          by (auto simp: Let_def split_beta)
        show ?thesis using og(2) f(2) srv2 tgt nv hv
          by (simp add: eq session_inv_def)
      qed
    qed
  qed
qed

lemma ensureAttached_facts:
  assumes "ensureAttached e lim pu s = Some (r, pu', s')"
  shows "only session_call s0 s \<Longrightarrow> only session_call s0 s'"
    and "same_target pu pu'"
    and "r = Pass \<Longrightarrow> m_serverId (wk s') \<noteq> 0 \<and> m_cachedVolume (wk s') = volume pu"
    and "hasVolume pu \<Longrightarrow> m_serverId (wk s') \<noteq> 0 \<Longrightarrow> m_cachedServer (wk s') = server pu"
    and "session_inv (wk s) \<Longrightarrow> (hasVolume pu \<longrightarrow> volume pu \<noteq> []) \<Longrightarrow> session_inv (wk s')"
  using ensureAttached_facts_aux [OF assms, of s0] by simp_all

section \<open>The recovery blocks of the operations\<close>

lemma recoverable_fold:
  "(r \<noteq> AFP_SERVER_RESULT_OKAY \<and> isRecoverableSessionError r) = (r \<in> recoverable_codes)"
  by (cases r) (simp_all add: recoverable_codes_def)

lemma statPath_structured:
  "statPath e lim pu s =
    (case ensureAttached e lim pu s of
       None \<Rightarrow> None
     | Some (r, pu1, s1) \<Rightarrow>
        if \<not> success r then Some (r, s1)
        else
         andThen
           (recover_once e lim ensureAttached
              (\<lambda>vid u. afp_sl_stat vid (urlpath u) u) pu1 s1)
           (\<lambda>(st, pu2) s2.
              if ret st \<noteq> AFP_SERVER_RESULT_OKAY then Some (mapAfpError (ret st) (path pu2), s2)
              else
               let name = lastPart (path pu2) (volume pu2);
                   mt = (if S_ISREG (st_mode (r_stat st)) then Some (mimeTypeForFile name)
                         else if S_ISDIR (st_mode (r_stat st)) then Some inode_directory
                         else None)
               in Some (Pass, snd (perform e (statEntry (statToUDS (r_stat st) name mt)) s2))))"
  unfolding statPath_def recover_once_def recoverable_fold ..

lemma readdir_loop_structured:
  "readdir_loop e lim pu dirPath start s =
    (case (recover_once e lim ensureAttached
             (\<lambda>vid u. afp_sl_readdir vid dirPath u start 64) pu s) of
       None \<Rightarrow> None
     | Some (Inl r, s1) \<Rightarrow> Some (r, s1)
     | Some (Inr (d, pu1), s1) \<Rightarrow>
        if ret d \<noteq> AFP_SERVER_RESULT_OKAY
        then Some (mapAfpError (ret d) (if hasPath pu1 then path pu1 else volume pu1), s1)
        else
         (let (x, s2) = perform e (listEntries (map (readdirEntry start) [0..<cnt d])) s1
          in if flg d \<or> cnt d = 0 then Some (Pass, s2)
             else readdir_loop e lim pu1 dirPath (start + int (cnt d)) s2))"
  by (subst readdir_loop.simps) (simp only: recover_once_def recoverable_fold)

lemma listDir_structured:
  "listDir e lim url s =
    (let pu = parseAfpUrl lim url
     in if \<not> hasVolume pu
        then
          (case ensureConnected e lim pu s of
             None \<Rightarrow> None
           | Some (r, pu1, s1) \<Rightarrow>
              if \<not> success r then Some (r, s1)
              else
               andThen
                 (recover_once e lim ensureConnected
                    (\<lambda>vid u. afp_sl_getvols u 64) pu1 s1)
                 (\<lambda>(v, pu2) s2.
                    let (w, s3) =
                          (if ret v = AFP_SERVER_RESULT_OKAY \<and> cnt v = 0
                           then perform e (afp_sl_getvols (afpUrl pu2) 64)
                                  (snd (perform e (msleep 500) s2))
                           else (v, s2))
                    in if ret w \<noteq> AFP_SERVER_RESULT_OKAY
                       then Some (mapAfpError (ret w) (server pu2), s3)
                       else Some (Pass,
                              snd (perform e (listEntries (map volumeSummaryToUDS [0..<cnt w])) s3))))
        else
          (case ensureAttached e lim pu s of
             None \<Rightarrow> None
           | Some (r, pu1, s1) \<Rightarrow>
              if \<not> success r then Some (r, s1)
              else
               let dirPath = (if hasPath pu1 then urlpath (afpUrl pu1) else ''/'');
                   (d, s2) = perform e (afp_sl_stat (m_volumeId (wk s1)) dirPath (afpUrl pu1)) s1;
                   s3 = (if ret d = AFP_SERVER_RESULT_OKAY
                         then snd (perform e (listEntry (statToUDS (r_stat d) ''.''
                                     (if S_ISDIR (st_mode (r_stat d)) then Some inode_directory
                                      else None))) s2)
                         else s2)
               in readdir_loop e lim pu1 dirPath 0 s3))"
  unfolding listDir_def recover_once_def recoverable_fold ..

lemma get_structured:
  "get e lim url s =
    (let pu = parseAfpUrl lim url
     in if \<not> hasPath pu
        then Some (Fail ERR_IS_DIRECTORY (Subject (if hasVolume pu then volume pu else server pu)), s)
        else
          (case ensureAttached e lim pu s of
             None \<Rightarrow> None
           | Some (r, pu1, s1) \<Rightarrow>
              if \<not> success r then Some (r, s1)
              else
               andThen
                 (recover_once e lim ensureAttached
                    (\<lambda>vid u. afp_sl_stat vid (urlpath u) u) pu1 s1)
                 (\<lambda>(st, pu2) s2.
                    if ret st \<noteq> AFP_SERVER_RESULT_OKAY then Some (mapAfpError (ret st) (path pu2), s2)
                    else if S_ISDIR (st_mode (r_stat st))
                    then Some (Fail ERR_IS_DIRECTORY (Subject (path pu2)), s2)
                    else
                     let s3 = snd (perform e (totalSize (st_size (r_stat st))) s2);
                         s4 = snd (perform e (mimeType (lastPart (path pu2) (path pu2))) s3)
                     in andThen
                          (recover_once e lim ensureAttached
                             (\<lambda>vid u. afp_sl_open vid (urlpath u) u O_RDONLY) pu2 s4)
                          (\<lambda>(op, pu3) s5.
                             if ret op \<noteq> AFP_SERVER_RESULT_OKAY
                             then Some (mapAfpError (ret op) (path pu3), s5)
                             else read_loop e (path pu3) (hnd op) 0 s5))))"
  unfolding get_def recover_once_def recoverable_fold ..

lemma put_structured:
  "put e lim url permissions overwrite s =
    (let pu = parseAfpUrl lim url
     in if \<not> hasPath pu
        then Some (Fail ERR_ACCESS_DENIED (I18n ''Cannot write to volume root'' []), s)
        else
          (case ensureAttached e lim pu s of
             None \<Rightarrow> None
           | Some (r, pu1, s1) \<Rightarrow>
              if \<not> success r then Some (r, s1)
              else
               andThen
                 (recover_once e lim ensureAttached
                    (\<lambda>vid u. afp_sl_stat vid (urlpath u) u) pu1 s1)
                 (\<lambda>(st, pu2) s2.
                    let exists = (ret st = AFP_SERVER_RESULT_OKAY)
                    in if exists \<and> \<not> overwrite
                       then Some (Fail ERR_FILE_ALREADY_EXIST (Subject (path pu2)), s2)
                       else
                        andThen
                          (if \<not> exists
                           then
                             (case (recover_once e lim ensureAttached
                                      (\<lambda>vid u. afp_sl_creat vid (urlpath u) u
                                           (if permissions = - 1 then 420 else permissions)) pu2 s2) of
                                None \<Rightarrow> None
                              | Some (Inl r1, sd) \<Rightarrow> Some (Inl r1, sd)
                              | Some (Inr (cr, pu3), sd) \<Rightarrow>
                                 if ret cr \<noteq> AFP_SERVER_RESULT_OKAY
                                 then Some (Inl (mapAfpError (ret cr) (path pu3)), sd)
                                 else Some (Inr pu3, sd))
                           else Some (Inr pu2, s2))
                          (\<lambda>pu3 s3.
                             andThen
                               (if exists \<and> overwrite
                                then
                                  (case (recover_once e lim ensureAttached
                                           (\<lambda>vid u. afp_sl_truncate vid (urlpath u) u 0) pu3 s3) of
                                     None \<Rightarrow> None
                                   | Some (Inl r1, sd) \<Rightarrow> Some (Inl r1, sd)
                                   | Some (Inr (tr, pu4), sd) \<Rightarrow>
                                      if ret tr \<noteq> AFP_SERVER_RESULT_OKAY
                                      then Some (Inl (mapAfpError (ret tr) (path pu4)), sd)
                                      else Some (Inr pu4, sd))
                                else Some (Inr pu3, s3))
                               (\<lambda>pu4 s4.
                                  andThen
                                    (recover_once e lim ensureAttached
                                       (\<lambda>vid u. afp_sl_open vid (urlpath u) u O_RDWR) pu4 s4)
                                    (\<lambda>(op, pu5) s5.
                                       if ret op \<noteq> AFP_SERVER_RESULT_OKAY
                                       then Some (mapAfpError (ret op) (path pu5), s5)
                                       else
                                        andThen (write_loop e (path pu5) (hnd op) 0 s5)
                                          (\<lambda>offset s6.
                                             let s7 = snd (perform e
                                                        (afp_sl_close (m_volumeId (wk s6)) (hnd op)) s6)
                                             in Some (Pass,
                                                  if permissions \<noteq> - 1
                                                  then snd (perform e
                                                         (afp_sl_chmod (m_volumeId (wk s7))
                                                            (urlpath (afpUrl pu5)) (afpUrl pu5)
                                                            permissions) s7)
                                                  else s7))))))))"
  unfolding put_def recover_once_def recoverable_fold ..

lemma mkdir_structured:
  "mkdir e lim url permissions s =
    (let pu = parseAfpUrl lim url
     in if \<not> hasPath pu
        then Some (Fail ERR_ACCESS_DENIED (I18n ''Cannot create directory at volume level'' []), s)
        else
          (case ensureAttached e lim pu s of
             None \<Rightarrow> None
           | Some (r, pu1, s1) \<Rightarrow>
              if \<not> success r then Some (r, s1)
              else
               andThen
                 (recover_once e lim ensureAttached
                    (\<lambda>vid u. afp_sl_mkdir vid (urlpath u) u
                         (if permissions = - 1 then 493 else permissions)) pu1 s1)
                 (\<lambda>(m, pu2) s2.
                    if ret m \<noteq> AFP_SERVER_RESULT_OKAY then Some (mapAfpError (ret m) (path pu2), s2)
                    else Some (Pass, s2))))"
  unfolding mkdir_def recover_once_def recoverable_fold ..

lemma del_structured:
  "del e lim url isFile s =
    (let pu = parseAfpUrl lim url
     in if \<not> hasPath pu
        then Some (Fail ERR_ACCESS_DENIED (I18n ''Cannot delete volume root'' []), s)
        else
          (case ensureAttached e lim pu s of
             None \<Rightarrow> None
           | Some (r, pu1, s1) \<Rightarrow>
              if \<not> success r then Some (r, s1)
              else
               andThen
                 (recover_once e lim ensureAttached
                    (\<lambda>vid u. if isFile then afp_sl_unlink vid (urlpath u) u
                         else afp_sl_rmdir vid (urlpath u) u) pu1 s1)
                 (\<lambda>(m, pu2) s2.
                    if ret m \<noteq> AFP_SERVER_RESULT_OKAY then Some (mapAfpError (ret m) (path pu2), s2)
                    else Some (Pass, s2))))"
  unfolding del_def recover_once_def recoverable_fold ..

lemma rename_structured:
  "rename e lim src dest overwrite s =
    (let puSrc = parseAfpUrl lim src;
         puDest = parseAfpUrl lim dest
     in if \<not> hasPath puSrc \<or> \<not> hasPath puDest
        then Some (Fail ERR_UNSUPPORTED_ACTION (I18n ''Cannot rename volume roots'' []), s)
        else if server puSrc \<noteq> server puDest \<or> volume puSrc \<noteq> volume puDest
        then Some (Fail ERR_UNSUPPORTED_ACTION
                     (I18n ''Cannot rename across different volumes'' []), s)
        else
          (case ensureAttached e lim puSrc s of
             None \<Rightarrow> None
           | Some (r, pu1, s1) \<Rightarrow>
              if \<not> success r then Some (r, s1)
              else
               andThen
                 (if \<not> overwrite
                  then (let (ck, sk) = perform e (afp_sl_stat (m_volumeId (wk s1))
                                          (urlpath (afpUrl puDest)) (afpUrl puDest)) s1
                        in if ret ck = AFP_SERVER_RESULT_OKAY
                           then Some (Inl (Fail ERR_FILE_ALREADY_EXIST (Subject (path puDest))), sk)
                           else Some (Inr (), sk))
                  else Some (Inr (), s1))
                 (\<lambda>u s2.
                    andThen
                      (recover_once e lim ensureAttached
                         (\<lambda>vid u. afp_sl_rename vid (urlpath u) (urlpath (afpUrl puDest)) u) pu1 s2)
                      (\<lambda>(m, pu2) s3.
                         if ret m \<noteq> AFP_SERVER_RESULT_OKAY
                         then Some (mapAfpError (ret m) (path pu2), s3)
                         else Some (Pass, s3)))))"
  unfolding rename_def recover_once_def recoverable_fold ..

lemma chmod_structured:
  "chmod e lim url permissions s =
    (let pu = parseAfpUrl lim url
     in if \<not> hasPath pu
        then Some (Fail ERR_UNSUPPORTED_ACTION (I18n ''Cannot chmod volume root'' []), s)
        else
          (case ensureAttached e lim pu s of
             None \<Rightarrow> None
           | Some (r, pu1, s1) \<Rightarrow>
              if \<not> success r then Some (r, s1)
              else
               andThen
                 (recover_once e lim ensureAttached
                    (\<lambda>vid u. afp_sl_chmod vid (urlpath u) u permissions) pu1 s1)
                 (\<lambda>(m, pu2) s2.
                    if ret m \<noteq> AFP_SERVER_RESULT_OKAY then Some (mapAfpError (ret m) (path pu2), s2)
                    else Some (Pass, s2))))"
  unfolding chmod_def recover_once_def recoverable_fold ..

lemma fileSystemFreeSpace_structured:
  "fileSystemFreeSpace e lim url s =
    (let pu = parseAfpUrl lim url
     in case ensureAttached e lim pu s of
          None \<Rightarrow> None
        | Some (r, pu1, s1) \<Rightarrow>
           if \<not> success r then Some (r, s1)
           else
            andThen
              (recover_once e lim ensureAttached
                 (\<lambda>vid u. afp_sl_statfs vid ''/'' u) pu1 s1)
              (\<lambda>(v, pu2) s2.
                 if ret v \<noteq> AFP_SERVER_RESULT_OKAY then Some (mapAfpError (ret v) (volume pu2), s2)
                 else
                  let total = (f_blocks v * f_frsize v) mod 2 ^ 64;
                      available = (f_bavail v * f_frsize v) mod 2 ^ 64;
                      s3 = snd (perform e (setMetaData ''total'' total) s2)
                  in Some (Pass, snd (perform e (setMetaData ''available'' available) s3))))"
  unfolding fileSystemFreeSpace_def recover_once_def recoverable_fold ..

section \<open>The session invariant\<close>


lemma session_ok_perform [simp]: "session_ok n (snd (perform e c s)) = session_ok n s"
  by (simp add: session_ok_def)

lemma session_ok_invalidate [simp]: "session_ok n (invalidateSessionState e s)"
  by (simp add: session_ok_def session_inv_def server_named_def clearSession_def)

lemma target_ok_same: "same_target pu pu' \<Longrightarrow> target_ok n pu \<Longrightarrow> target_ok n pu'"
  by (simp add: same_target_def target_ok_def)

lemma target_ok_parse: "(n \<longrightarrow> q_host url \<noteq> []) \<Longrightarrow> target_ok n (parseAfpUrl lim url)"
  by (simp add: target_ok_def parseAfpUrl_volume_nonempty)

lemma ensureConnected_ok:
  assumes "ensureConnected e lim pu s = Some (r, pu', s')" "session_ok n s" "target_ok n pu"
  shows "session_ok n s' \<and> target_ok n pu'"
  using ensureConnected_inv [OF assms(1)] ensureConnected_named [OF assms(1)]
    ensureConnected_facts(2) [OF assms(1)] assms(2,3)
  by (auto simp: session_ok_def target_ok_def same_target_def)

lemma ensureAttached_ok:
  assumes "ensureAttached e lim pu s = Some (r, pu', s')" "session_ok n s" "target_ok n pu"
  shows "session_ok n s' \<and> target_ok n pu'"
proof (cases "hasVolume pu")
  case False
  with assms show ?thesis by (auto simp: ensureAttached_def)
next
  case True
  note f = ensureAttached_facts [OF assms(1)]
  show ?thesis using f(2) f(4) [OF True] f(5) assms(2,3)
    by (auto simp: session_ok_def target_ok_def same_target_def server_named_def)
qed

lemma returns_Some: "Q s \<Longrightarrow> returns Q (Some (r, s))"
  by (simp add: returns_def)

lemma returns_None: "returns Q None"
  by (simp add: returns_def)

lemma returns_if:
  "(c \<Longrightarrow> returns Q a) \<Longrightarrow> (\<not> c \<Longrightarrow> returns Q b) \<Longrightarrow> returns Q (if c then a else b)"
  by simp

lemma returns_andThen:
  assumes "yields Q R m" and "\<And>v s. R v s \<Longrightarrow> returns Q (k v s)"
  shows "returns Q (andThen m k)"
proof (cases m)
  case None
  then show ?thesis by (simp add: andThen_def returns_def)
next
  case (Some p)
  obtain x s where p: "p = (x, s)" by (cases p)
  show ?thesis
  proof (cases x)
    case (Inl r)
    with assms(1) Some p show ?thesis by (simp add: andThen_def returns_def yields_def)
  next
    case (Inr v)
    with assms(1) Some p have "R v s" by (simp add: yields_def)
    from assms(2) [OF this] Some p Inr show ?thesis by (simp add: andThen_def)
  qed
qed

lemma returns_attached:
  assumes "session_ok n s" "target_ok n pu"
    and "\<And>r pu1 s1. session_ok n s1 \<Longrightarrow> target_ok n pu1 \<Longrightarrow> returns Q (f r pu1 s1)"
  shows "returns Q (case ensureAttached e lim pu s of None \<Rightarrow> None | Some (r, pu1, s1) \<Rightarrow> f r pu1 s1)"
  using assms(3) ensureAttached_ok [OF _ assms(1,2)]
  by (auto simp: returns_None split: option.splits)

lemma returns_connected:
  assumes "session_ok n s" "target_ok n pu"
    and "\<And>r pu1 s1. session_ok n s1 \<Longrightarrow> target_ok n pu1 \<Longrightarrow> returns Q (f r pu1 s1)"
  shows "returns Q (case ensureConnected e lim pu s of None \<Rightarrow> None | Some (r, pu1, s1) \<Rightarrow> f r pu1 s1)"
  using assms(3) ensureConnected_ok [OF _ assms(1,2)]
  by (auto simp: returns_None split: option.splits)

lemma yields_recover_once:
  assumes "session_ok n s" "target_ok n pu"
    and "establish = ensureAttached \<or> establish = ensureConnected"
  shows "yields (session_ok n) (\<lambda>v s'. session_ok n s' \<and> target_ok n (snd v))
           (recover_once e lim establish mk pu s)"
proof -
  have est: "establish e lim pu s1 = Some (r, pu', s') \<Longrightarrow> session_ok n s1 \<Longrightarrow>
      session_ok n s' \<and> target_ok n pu'" for s1 r pu' s'
    using assms(2,3) ensureAttached_ok ensureConnected_ok by blast
  show ?thesis
    using assms(1,2)
    by (auto simp: yields_def recover_once_def Let_def split_beta
          split: if_splits option.splits dest!: est)
qed

lemma mkdir_ok:
  assumes "session_ok n s" "n \<longrightarrow> q_host url \<noteq> []"
  shows "returns (session_ok n) (mkdir e lim url permissions s)"
  unfolding mkdir_structured Let_def
  using assms(1) target_ok_parse [OF assms(2), of lim]
  by (auto intro!: returns_if returns_Some returns_attached returns_andThen yields_recover_once)


lemmas readdir_loop_induct = readdir_loop.raw_induct [rotated, consumes 1, case_names step]
lemmas read_loop_induct = read_loop.raw_induct [rotated, consumes 1, case_names step]
lemmas write_loop_induct = write_loop.raw_induct [rotated, consumes 1, case_names step]

lemma read_loop_wk:
  "read_loop e p fileId offset s = Some y \<Longrightarrow> wk (snd y) = wk s"
proof (induct rule: read_loop_induct)
  case (step loop e p fileId offset s y)
  from step.hyps(2) show ?case
    by (auto simp: Let_def split_beta split: if_splits dest!: step.hyps(1))
qed

lemma write_loop_wk:
  "write_loop e p fileId offset s = Some y \<Longrightarrow> wk (snd y) = wk s"
proof (induct rule: write_loop_induct)
  case (step loop e p fileId offset s y)
  from step.hyps(2) show ?case
    by (auto simp: Let_def split_beta split: if_splits dest!: step.hyps(1))
qed

lemma returns_read_loop: "session_ok n s \<Longrightarrow> returns (session_ok n) (read_loop e p fileId offset s)"
  using read_loop_wk [of e p fileId offset s]
  by (auto simp: returns_def session_ok_def)

lemma yields_write_loop:
  "session_ok n s \<Longrightarrow>
   yields (session_ok n) (\<lambda>v s'. session_ok n s') (write_loop e p fileId offset s)"
  using write_loop_wk [of e p fileId offset s]
  by (auto simp: yields_def session_ok_def split: sum.splits)

lemma returns_readdir_loop_aux:
  "readdir_loop e lim pu dirPath start s = Some y \<Longrightarrow>
     session_ok n s \<longrightarrow> target_ok n pu \<longrightarrow> session_ok n (snd y)"
proof (induct rule: readdir_loop_induct)
  case (step loop e lim pu dirPath start s y)
  show ?case
  proof (intro impI)
    assume ok: "session_ok n s" "target_ok n pu"
    let ?b = "recover_once e lim ensureAttached
                (\<lambda>vid u. afp_sl_readdir vid dirPath u start 64) pu s"
    have body: "(case ?b of
         None \<Rightarrow> None
       | Some (Inl r, s1) \<Rightarrow> Some (r, s1)
       | Some (Inr (d, pu1), s1) \<Rightarrow>
          if ret d \<noteq> AFP_SERVER_RESULT_OKAY
          then Some (mapAfpError (ret d) (if hasPath pu1 then path pu1 else volume pu1), s1)
          else
           (let (x, s2) = perform e (listEntries (map (readdirEntry start) [0..<cnt d])) s1
            in if flg d \<or> cnt d = 0 then Some (Pass, s2)
               else loop e lim pu1 dirPath (start + int (cnt d)) s2)) = Some y"
      using step.hyps(2) unfolding recover_once_def recoverable_fold .
    note yl = yields_recover_once [OF ok, of ensureAttached e lim
                "\<lambda>vid u. afp_sl_readdir vid dirPath u start 64", unfolded yields_def, rule_format]
    from body obtain x s1 where b: "?b = Some (x, s1)"
      by (cases ?b) auto
    show "session_ok n (snd y)"
    proof (cases x)
      case (Inl r)
      with body b yl [OF _ b] show ?thesis by auto
    next
      case (Inr v)
      obtain d pu1 where v: "v = (d, pu1)" by (cases v)
      from yl [OF _ b] Inr v have ok1: "session_ok n s1" "target_ok n pu1" by simp_all
      from body b Inr v ok1 step.hyps(1) [of e lim pu1 dirPath "start + int (cnt d)"
          "snd (perform e (listEntries (map (readdirEntry start) [0..<cnt d])) s1)" y]
      show ?thesis
        by (auto simp: Let_def split_beta split: if_splits)
    qed
  qed
qed

lemma returns_readdir_loop:
  "session_ok n s \<Longrightarrow> target_ok n pu \<Longrightarrow>
   returns (session_ok n) (readdir_loop e lim pu dirPath start s)"
  using returns_readdir_loop_aux [of e lim pu dirPath start s _ n]
  by (auto simp: returns_def)


lemmas returns_intros = returns_if returns_Some returns_attached returns_connected
  returns_andThen yields_recover_once returns_read_loop returns_readdir_loop yields_write_loop

lemma del_ok:
  assumes "session_ok n s" "n \<longrightarrow> q_host url \<noteq> []"
  shows "returns (session_ok n) (del e lim url isFile s)"
  unfolding del_structured Let_def
  using assms(1) target_ok_parse [OF assms(2), of lim]
  by (auto intro!: returns_intros)

lemma chmod_ok:
  assumes "session_ok n s" "n \<longrightarrow> q_host url \<noteq> []"
  shows "returns (session_ok n) (chmod e lim url permissions s)"
  unfolding chmod_structured Let_def
  using assms(1) target_ok_parse [OF assms(2), of lim]
  by (auto intro!: returns_intros)

lemma fileSystemFreeSpace_ok:
  assumes "session_ok n s" "n \<longrightarrow> q_host url \<noteq> []"
  shows "returns (session_ok n) (fileSystemFreeSpace e lim url s)"
  unfolding fileSystemFreeSpace_structured Let_def
  using assms(1) target_ok_parse [OF assms(2), of lim]
  by (auto intro!: returns_intros)

lemma get_ok:
  assumes "session_ok n s" "n \<longrightarrow> q_host url \<noteq> []"
  shows "returns (session_ok n) (get e lim url s)"
  unfolding get_structured Let_def
  using assms(1) target_ok_parse [OF assms(2), of lim]
  by (auto intro!: returns_intros)

lemma listDir_ok:
  assumes "session_ok n s" "n \<longrightarrow> q_host url \<noteq> []"
  shows "returns (session_ok n) (listDir e lim url s)"
  unfolding listDir_structured Let_def
  using assms(1) target_ok_parse [OF assms(2), of lim]
  by (auto intro!: returns_intros simp: split_beta)


lemma yields_Inl: "Q s \<Longrightarrow> yields Q R (Some (Inl r, s))"
  by (simp add: yields_def)

lemma yields_Inr: "R v s \<Longrightarrow> yields Q R (Some (Inr v, s))"
  by (simp add: yields_def)

lemma yields_None: "yields Q R None"
  by (simp add: yields_def)

lemma yields_if:
  "(c \<Longrightarrow> yields Q R a) \<Longrightarrow> (\<not> c \<Longrightarrow> yields Q R b) \<Longrightarrow> yields Q R (if c then a else b)"
  by simp

lemma yields_checked:
  assumes "yields Q R' m" and "\<And>v s. R' v s \<Longrightarrow> yields Q R (k v s)"
  shows "yields Q R (case m of None \<Rightarrow> None | Some (Inl r, s) \<Rightarrow> Some (Inl r, s)
                      | Some (Inr v, s) \<Rightarrow> k v s)"
proof (cases m)
  case None
  then show ?thesis by (simp add: yields_def)
next
  case (Some p)
  obtain x s where p: "p = (x, s)" by (cases p)
  show ?thesis
  proof (cases x)
    case (Inl r)
    with assms(1) Some p show ?thesis by (simp add: yields_def)
  next
    case (Inr v)
    with assms(1) Some p have "R' v s" by (simp add: yields_def)
    from assms(2) [OF this] Some p Inr show ?thesis by simp
  qed
qed

lemma returns_andThen_if:
  assumes "yields Q R (if c then a else b)" and "\<And>v s. R v s \<Longrightarrow> returns Q (k v s)"
  shows "returns Q (andThen (if c then a else b) k)"
  using assms by (rule returns_andThen)

lemma rename_ok:
  assumes "session_ok n s" "n \<longrightarrow> q_host src \<noteq> []"
  shows "returns (session_ok n) (rename e lim src dest overwrite s)"
  unfolding rename_structured Let_def
  using assms(1) target_ok_parse [OF assms(2), of lim]
  by (auto intro!: returns_if returns_Some returns_attached
        returns_andThen_if [where R = "\<lambda>v s. session_ok n s"]
        returns_andThen [OF yields_recover_once]
        yields_if yields_Inl yields_Inr simp: split_beta)

lemma put_ok:
  assumes "session_ok n s" "n \<longrightarrow> q_host url \<noteq> []"
  shows "returns (session_ok n) (put e lim url permissions overwrite s)"
  unfolding put_structured Let_def
  using assms(1) target_ok_parse [OF assms(2), of lim]
  by (auto intro!: returns_if returns_Some returns_attached
        returns_andThen [OF yields_recover_once]
        returns_andThen [OF yields_write_loop]
        returns_andThen_if [where R = "\<lambda>v s. session_ok n s \<and> target_ok n v"]
        yields_if yields_Inl yields_Inr
        yields_checked [OF yields_recover_once] simp: split_beta)


lemma perform_eq:
  "perform e c s = (r, s') \<longleftrightarrow> r = e (trace s) c \<and> s' = snd (perform e c s)"
  by (auto simp: perform_def)

lemma statVolumeRootAttempt_ok:
  assumes "session_ok n s1" "target_ok n pu1"
  shows "yields (session_ok n) (\<lambda>v s. session_ok n s) (statVolumeRootAttempt e lim v pu1 s1)"
proof -
  have est: "ensureAttached e lim pu1 (invalidateSessionState e sa) = Some (rr, pub, sb)
      \<Longrightarrow> session_ok n sb" for sa rr pub sb
    using ensureAttached_ok [of e lim pu1 "invalidateSessionState e sa" rr pub sb n] assms(2)
    by simp
  show ?thesis
    using assms(1)
    by (auto simp: yields_def statVolumeRootAttempt_def Let_def split_beta perform_eq
          split: if_splits option.splits dest!: est)
qed

lemma statVolumeRoot_ok:
  assumes "session_ok n s" "target_ok n pu"
  shows "returns (session_ok n) (statVolumeRoot e lim pu s)"
  unfolding statVolumeRoot_def
  using assms
  by (auto intro!: returns_Some returns_attached
        returns_andThen_if [where R = "\<lambda>v s. session_ok n s"]
        yields_if yields_Inr statVolumeRootAttempt_ok)

lemma statPath_ok:
  assumes "session_ok n s" "target_ok n pu"
  shows "returns (session_ok n) (statPath e lim pu s)"
  unfolding statPath_structured
  using assms
  by (auto intro!: returns_intros simp: Let_def)

lemma stat_ok:
  assumes "session_ok n s" "n \<longrightarrow> q_host url \<noteq> []"
  shows "returns (session_ok n) (stat e lim url s)"
  unfolding stat_def Let_def
  using assms(1) target_ok_parse [OF assms(2), of lim]
  by (auto intro!: returns_if returns_Some statVolumeRoot_ok statPath_ok)

section \<open>The calls of the connect loop\<close>

lemma issued_self [simp]: "issued s s = []"
  by (simp add: issued_def)

lemma issued_trans:
  "only P s s1 \<Longrightarrow> only Q s1 s2 \<Longrightarrow> issued s s2 = issued s s1 @ issued s1 s2"
  by (auto simp: only_def issued_def)

lemma issued_perform [simp]: "issued s (snd (perform e c s)) = [c]"
  by (simp add: issued_def)

lemma issued_wk_update [simp]: "issued s (s1\<lparr>wk := w\<rparr>) = issued s s1"
  by (simp add: issued_def)

lemma sleeps_append [simp]: "sleeps (a @ b) = sleeps a @ sleeps b"
  by (induct a rule: sleeps.induct) simp_all

lemma issued_connectOnce [simp]:
  "issued s (snd (connectOnce e pu s)) = [alarm 15, afp_sl_connect (afpUrl pu), alarm 0]"
  by (simp add: connectOnce_def issued_def Let_def split_beta)

lemma connectOnce_ret:
  "fst (fst (connectOnce e pu s)) =
     (if (ret (connect_answer e pu s) = AFP_SERVER_RESULT_OKAY \<or>
          ret (connect_answer e pu s) = AFP_SERVER_RESULT_ALREADY_CONNECTED) \<and>
         hnd (connect_answer e pu s) = 0
      then AFP_SERVER_RESULT_DAEMON_ERROR else ret (connect_answer e pu s))"
  by (simp add: connectOnce_def connect_answer_def Let_def split_beta)

lemma issued_closeLock:
  "issued s (closeLock e fd s) = (if fd \<ge> 0 then [close_fd fd] else [])"
  by (simp add: closeLock_def)

lemma issued_tripBreaker:
  "hd (issued s (tripBreaker e fd s)) = open_breaker \<and>
   sleeps (issued s (tripBreaker e fd s)) = [] \<and>
   open_breaker \<in> set (issued s (tripBreaker e fd s))"
  by (simp add: tripBreaker_def closeLock_def issued_def Let_def split_beta)

lemma issued_connectSucceeded:
  "sleeps (issued s (connectSucceeded e pu info du fd sid s)) = [] \<and>
   unlink_breaker \<in> set (issued s (connectSucceeded e pu info du fd sid s)) \<and>
   \<not> list_ex is_connect (issued s (connectSucceeded e pu info du fd sid s))"
  by (simp add: connectSucceeded_def closeLock_def issued_def Let_def split_beta)

lemma connect_iteration_eq:
  "connect_iteration e lim pu info du fd k s =
    (let r = fst (fst (connectOnce e pu s)); s1 = snd (connectOnce e pu s)
     in if r = AFP_SERVER_RESULT_OKAY \<or> r = AFP_SERVER_RESULT_ALREADY_CONNECTED
        then Inl (Pass, pu, connectSucceeded e pu info du fd (snd (fst (connectOnce e pu s))) s1)
        else if r = AFP_SERVER_RESULT_NOAUTHENT
        then (if rc (fst (perform e (openPasswordDialog info True) (closeLock e fd s1))) \<noteq> 0
              then Inl (Fail ERR_USER_CANCELED (Subject (server pu)), pu,
                        snd (perform e (openPasswordDialog info True) (closeLock e fd s1)))
              else Inr (copyCredentials lim
                          (r_info (fst (perform e (openPasswordDialog info True) (closeLock e fd s1)))) pu,
                        r_info (fst (perform e (openPasswordDialog info True) (closeLock e fd s1))),
                        True,
                        fst (acquireLock e (snd (perform e (openPasswordDialog info True) (closeLock e fd s1)))),
                        k,
                        snd (acquireLock e (snd (perform e (openPasswordDialog info True) (closeLock e fd s1))))))
        else if k < 3
        then Inr (pu, info, du, fd, k + 1, snd (perform e (msleep (500 * 2 ^ k)) s1))
        else Inl (mapAfpConnectError r (server pu), pu, tripBreaker e fd s1))"
  by (simp add: connect_iteration_def Let_def split_beta)

lemma issued_auth_path:
  "sleeps (issued s (snd (perform e (openPasswordDialog i b) (closeLock e fd s)))) = [] \<and>
   sleeps (issued s (snd (acquireLock e (snd (perform e (openPasswordDialog i b) (closeLock e fd s)))))) = []"
  by (simp add: closeLock_def acquireLock_def issued_def Let_def split_beta)

lemma connect_iteration_sleeps_return:
  assumes "connect_iteration e lim pu info du fd k s = Inl (r, pu', s')"
  shows "only session_call s s' \<and> sleeps (issued s s') = [] \<and>
     (r = Pass \<or> r = Fail ERR_USER_CANCELED (Subject (server pu)) \<or>
      (\<not> k < 3 \<and> (\<exists>c. r = mapAfpConnectError c (server pu)) \<and> open_breaker \<in> set (issued s s')))"
proof -
  let ?s1 = "snd (connectOnce e pu s)"
  have o: "only session_call s ?s1" by (simp add: connectOnce_only)
  have i: "sleeps (issued s ?s1) = []" by simp
  from connect_iteration_return [OF assms, of s] have o': "only session_call s s'" by simp
  show ?thesis
  proof (cases "r = Pass \<or> r = Fail ERR_USER_CANCELED (Subject (server pu))")
    case True
    from assms have "(\<exists>sid. s' = connectSucceeded e pu info du fd sid ?s1) \<or>
        s' = snd (perform e (openPasswordDialog info True) (closeLock e fd ?s1)) \<or>
        s' = tripBreaker e fd ?s1"
      by (auto simp: connect_iteration_eq Let_def split: if_splits)
    then have "sleeps (issued ?s1 s') = []"
      using issued_connectSucceeded issued_auth_path issued_tripBreaker by metis
    moreover have "only session_call ?s1 s'"
      using \<open>_ \<or> _ \<or> _\<close>
      by (auto simp: connectSucceeded_only closeLock_only only_perform tripBreaker_only)
    ultimately have "sleeps (issued s s') = []"
      using issued_trans [OF o, of session_call s'] i by simp
    with o' True show ?thesis by blast
  next
    case False
    with assms have k: "\<not> k < 3" and s': "s' = tripBreaker e fd ?s1"
      and r: "r = mapAfpConnectError (fst (fst (connectOnce e pu s))) (server pu)"
      by (auto simp: connect_iteration_eq Let_def split: if_splits)
    have t: "only session_call ?s1 s'" by (simp add: s' tripBreaker_only)
    have "issued s s' = issued s ?s1 @ issued ?s1 s'" by (rule issued_trans [OF o t])
    with issued_tripBreaker [of ?s1 e fd] s' have "sleeps (issued s s') = []"
      "open_breaker \<in> set (issued s s')" by simp_all
    with o' k r show ?thesis by blast
  qed
qed

lemma connect_iteration_sleeps_continue:
  assumes "connect_iteration e lim pu info du fd k s = Inr (pu1, info1, du1, fd1, k1, s1)"
  shows "only session_call s s1 \<and> server pu1 = server pu \<and>
     ((k1 = k \<and> sleeps (issued s s1) = []) \<or>
      (k < 3 \<and> k1 = k + 1 \<and> sleeps (issued s s1) = [500 * 2 ^ k]))"
proof -
  let ?s1 = "snd (connectOnce e pu s)"
  have o: "only session_call s ?s1" by (simp add: connectOnce_only)
  from connect_iteration_continue [OF assms, of s]
  have o': "only session_call s s1" "server pu1 = server pu" by (simp_all add: same_target_def)
  from assms have "(k1 = k \<and> s1 = snd (acquireLock e (snd (perform e (openPasswordDialog info True) (closeLock e fd ?s1))))) \<or>
      (k < 3 \<and> k1 = k + 1 \<and> s1 = snd (perform e (msleep (500 * 2 ^ k)) ?s1))"
    by (auto simp: connect_iteration_eq Let_def split: if_splits)
  then show ?thesis
  proof
    assume a: "k1 = k \<and> s1 = snd (acquireLock e (snd (perform e (openPasswordDialog info True) (closeLock e fd ?s1))))"
    then have "only session_call ?s1 s1"
      by (simp add: acquireLock_only only_perform closeLock_only)
    from issued_trans [OF o this] a issued_auth_path [of ?s1 e info True fd]
    have "sleeps (issued s s1) = []" by simp
    with o' a show ?thesis by simp
  next
    assume a: "k < 3 \<and> k1 = k + 1 \<and> s1 = snd (perform e (msleep (500 * 2 ^ k)) ?s1)"
    then have "only session_call ?s1 s1" by (simp add: only_perform)
    from issued_trans [OF o this] a have "sleeps (issued s s1) = [500 * 2 ^ k]" by simp
    with o' a show ?thesis by simp
  qed
qed

lemma connect_loop_sleeps_aux:
  "connect_loop e lim pu info du fd k s = Some y \<Longrightarrow>
     k \<le> 3 \<longrightarrow>
     (\<exists>j. k \<le> j \<and> j \<le> 3 \<and>
        sleeps (issued s (snd (snd y))) = map (\<lambda>i. 500 * 2 ^ i) [k..<j] \<and>
        (fst y = Pass \<or> fst y = Fail ERR_USER_CANCELED (Subject (server pu)) \<or>
         (j = 3 \<and> (\<exists>c. fst y = mapAfpConnectError c (server pu)) \<and>
          open_breaker \<in> set (issued s (snd (snd y))))))"
proof (induct rule: connect_loop_induct)
  case (return pu info du fd k s y)
  obtain r pu' s' where y: "y = (r, pu', s')" by (cases y)
  note f = connect_iteration_sleeps_return [OF return [unfolded y]]
  show ?case
  proof
    assume k: "k \<le> 3"
    show "\<exists>j. k \<le> j \<and> j \<le> 3 \<and>
        sleeps (issued s (snd (snd y))) = map (\<lambda>i. 500 * 2 ^ i) [k..<j] \<and>
        (fst y = Pass \<or> fst y = Fail ERR_USER_CANCELED (Subject (server pu)) \<or>
         (j = 3 \<and> (\<exists>c. fst y = mapAfpConnectError c (server pu)) \<and>
          open_breaker \<in> set (issued s (snd (snd y)))))"
      using f k by (intro exI [of _ k]) (auto simp: y)
  qed
next
  case (continue pu info du fd k s pu1 info1 du1 fd1 k1 s1 y)
  note f = connect_iteration_sleeps_continue [OF continue(1)]
  from connect_loop_facts_aux [OF continue(2), of s1]
  have o: "only session_call s1 (snd (snd y))" by simp
  from f have o1: "only session_call s s1" by simp
  note i = issued_trans [OF o1 o]
  show ?case
  proof
    assume k: "k \<le> 3"
    with f have "k1 \<le> 3" by auto
    with continue(3) obtain j where j: "k1 \<le> j" "j \<le> 3"
      "sleeps (issued s1 (snd (snd y))) = map (\<lambda>i. 500 * 2 ^ i) [k1..<j]"
      "fst y = Pass \<or> fst y = Fail ERR_USER_CANCELED (Subject (server pu1)) \<or>
         (j = 3 \<and> (\<exists>c. fst y = mapAfpConnectError c (server pu1)) \<and>
          open_breaker \<in> set (issued s1 (snd (snd y))))" by blast
    from f j(1) have kj: "k \<le> j" by auto
    from f have "sleeps (issued s (snd (snd y))) = map (\<lambda>i. 500 * 2 ^ i) [k..<j]"
    proof (elim conjE disjE)
      assume "k1 = k" "sleeps (issued s s1) = []"
      with i j(3) show ?thesis by simp
    next
      assume a: "k < 3" "k1 = k + 1" "sleeps (issued s s1) = [500 * 2 ^ k]"
      with j(1) have "[k..<j] = k # [k1..<j]" by (simp add: upt_conv_Cons)
      with i j(3) a show ?thesis by simp
    qed
    moreover from j(4) f i
    have "fst y = Pass \<or> fst y = Fail ERR_USER_CANCELED (Subject (server pu)) \<or>
         (j = 3 \<and> (\<exists>c. fst y = mapAfpConnectError c (server pu)) \<and>
          open_breaker \<in> set (issued s (snd (snd y))))" by auto
    ultimately show "\<exists>j. k \<le> j \<and> j \<le> 3 \<and>
        sleeps (issued s (snd (snd y))) = map (\<lambda>i. 500 * 2 ^ i) [k..<j] \<and>
        (fst y = Pass \<or> fst y = Fail ERR_USER_CANCELED (Subject (server pu)) \<or>
         (j = 3 \<and> (\<exists>c. fst y = mapAfpConnectError c (server pu)) \<and>
          open_breaker \<in> set (issued s (snd (snd y)))))"
      using kj j(2) by blast
  qed
qed

lemma connect_loop_transient:
  assumes "fst (fst (connectOnce e pu s)) \<notin> {AFP_SERVER_RESULT_OKAY,
     AFP_SERVER_RESULT_ALREADY_CONNECTED, AFP_SERVER_RESULT_NOAUTHENT}"
  shows "connect_loop e lim pu info du fd k s =
     (if k < 3
      then connect_loop e lim pu info du fd (k + 1)
             (snd (perform e (msleep (500 * 2 ^ k)) (snd (connectOnce e pu s))))
      else Some (mapAfpConnectError (fst (fst (connectOnce e pu s))) (server pu), pu,
                 tripBreaker e fd (snd (connectOnce e pu s))))"
  using assms by (subst connect_loop.simps) (simp add: connect_iteration_eq Let_def)

lemma connect_loop_returns:
  assumes "\<forall>h u. ret (e h (afp_sl_connect u)) \<noteq> AFP_SERVER_RESULT_NOAUTHENT"
  shows "\<exists>y. connect_loop e lim pu info du fd k s = Some y"
proof (induction "3 - k" arbitrary: k s)
  case 0
  then have k: "\<not> k < 3" by simp
  have "fst (fst (connectOnce e pu s)) \<noteq> AFP_SERVER_RESULT_NOAUTHENT"
    using assms by (simp add: connectOnce_ret connect_answer_def)
  with k show ?case by (subst connect_loop.simps) (simp add: connect_iteration_eq Let_def)
next
  case (Suc n)
  then have k: "k < 3" and n: "n = 3 - (k + 1)" by simp_all
  have a: "fst (fst (connectOnce e pu s)) \<noteq> AFP_SERVER_RESULT_NOAUTHENT"
    using assms by (simp add: connectOnce_ret connect_answer_def)
  show ?case
  proof (cases "fst (fst (connectOnce e pu s)) = AFP_SERVER_RESULT_OKAY \<or>
      fst (fst (connectOnce e pu s)) = AFP_SERVER_RESULT_ALREADY_CONNECTED")
    case True
    then show ?thesis by (subst connect_loop.simps) (simp add: connect_iteration_eq Let_def)
  next
    case False
    with a k have "connect_loop e lim pu info du fd k s =
        connect_loop e lim pu info du fd (k + 1)
          (snd (perform e (msleep (500 * 2 ^ k)) (snd (connectOnce e pu s))))"
      by (simp add: connect_loop_transient)
    with Suc.hyps(1) [OF n] show ?thesis by simp
  qed
qed

section \<open>The circuit breaker\<close>

lemma ensureConnSetup_calls:
  "only P s0 s \<Longrightarrow> P afp_sl_conn_setup \<Longrightarrow> only P s0 (snd (ensureConnSetup e s))"
  by (simp add: ensureConnSetup_def only_perform)

lemma switchServer_calls:
  "only P s0 s \<Longrightarrow> (\<And>h. P (afp_sl_disconnect h)) \<Longrightarrow> only P s0 (switchServer e pu s)"
  by (simp add: switchServer_def only_perform)

lemma cachedCredentials_calls:
  "only P s0 s \<Longrightarrow> (\<And>i. P (checkCachedAuthentication i)) \<Longrightarrow>
     only P s0 (snd (cachedCredentials e lim pu i s))"
  by (simp add: cachedCredentials_def Let_def split_beta only_perform)

lemma promptCredentials_calls:
  "only P s0 s \<Longrightarrow> (\<And>i b. P (openPasswordDialog i b)) \<Longrightarrow>
     only P s0 (snd (promptCredentials e lim pu i s))"
  by (simp add: promptCredentials_def Let_def split_beta only_perform)

lemma gatherCredentials_calls:
  assumes "only P s0 s" "P afp_sl_conn_setup" "\<And>h. P (afp_sl_disconnect h)"
    "\<And>i. P (checkCachedAuthentication i)" "\<And>i b. P (openPasswordDialog i b)"
  shows "only P s0 (snd (gatherCredentials e lim pu s))"
  using assms
  by (simp add: gatherCredentials_def Let_def split_beta ensureConnSetup_facts
        ensureConnSetup_calls switchServer_calls cachedCredentials_calls promptCredentials_calls)

lemma breakerCheck_calls:
  "only P s0 s \<Longrightarrow> P stat_breaker \<Longrightarrow> P time_now \<Longrightarrow> P unlink_breaker \<Longrightarrow>
     only P s0 (snd (breakerCheck e s))"
  by (simp add: breakerCheck_def Let_def split_beta only_perform)

lemma acquireLock_calls:
  "only P s0 s \<Longrightarrow> P open_lock \<Longrightarrow> (\<And>fd. P (flock_ex fd)) \<Longrightarrow>
     only P s0 (snd (acquireLock e s))"
  by (simp add: acquireLock_def Let_def split_beta only_perform)

lemma closeLock_calls:
  "only P s0 s \<Longrightarrow> (\<And>fd. P (close_fd fd)) \<Longrightarrow> only P s0 (closeLock e fd s)"
  by (simp add: closeLock_def only_perform)

lemma only_no_connect:
  "only (\<lambda>c. \<not> is_connect c) s s' \<Longrightarrow> \<not> list_ex is_connect (issued s s')"
  by (auto simp: list_ex_iff dest: only_issued)

lemma gatherCredentials_quiet:
  "only (\<lambda>c. \<not> is_connect c \<and> c \<noteq> stat_breaker) s (snd (gatherCredentials e lim pu s))"
  by (rule gatherCredentials_calls) simp_all

lemma gatherCredentials_return:
  assumes "gatherCredentials e lim pu s = (Inl (r, pu1), s1)"
  shows "r = Pass \<or> r = Fail ERR_USER_CANCELED (Subject (server pu))"
proof -
  have t: "server (snd (snd (fst (cachedCredentials e lim pu i s2)))) = server pu" for i s2
    using cachedCredentials_target [of pu e lim i s2] by (simp add: same_target_def)
  from assms show ?thesis
    by (auto simp: gatherCredentials_def Let_def split_beta ensureConnSetup_facts
          promptCredentials_def t split: if_splits)
qed

lemma breakerCheck_marker:
  "fst (breakerCheck e s) =
     (case marker_age e s of None \<Rightarrow> None | Some a \<Rightarrow> if a < 30 then Some a else None)"
  by (simp add: breakerCheck_def marker_age_def Let_def split_beta)

lemma breakerCheck_issued:
  "issued s (snd (breakerCheck e s)) =
     (case marker_age e s of None \<Rightarrow> [stat_breaker]
      | Some a \<Rightarrow> if a < 30 then [stat_breaker, time_now]
                  else [stat_breaker, time_now, unlink_breaker])"
  by (simp add: breakerCheck_def marker_age_def issued_def Let_def split_beta)

lemma ensureConnected_first_check:
  assumes "gatherCredentials e lim pu s = (Inr (pu1, info, du), s1)"
    and "fst (breakerCheck e s1) = Some age"
  shows "ensureConnected e lim pu s = Some (breakerFailure age, pu1, snd (breakerCheck e s1))"
    and "\<not> list_ex is_connect (issued s (snd (breakerCheck e s1)))"
proof -
  show "ensureConnected e lim pu s = Some (breakerFailure age, pu1, snd (breakerCheck e s1))"
    using assms by (simp add: ensureConnected_def split_beta)
  have "only (\<lambda>c. \<not> is_connect c) s s1"
    using gatherCredentials_quiet [of s e lim pu] assms(1) by (auto elim: only_mono)
  then have "only (\<lambda>c. \<not> is_connect c) s (snd (breakerCheck e s1))"
    by (rule breakerCheck_calls) simp_all
  then show "\<not> list_ex is_connect (issued s (snd (breakerCheck e s1)))"
    by (rule only_no_connect)
qed

lemma ensureConnected_second_check:
  assumes "gatherCredentials e lim pu s = (Inr (pu1, info, du), s1)"
    and "fst (breakerCheck e s1) = None"
    and "fst (breakerCheck e (snd (acquireLock e (snd (breakerCheck e s1))))) = Some age"
  shows "ensureConnected e lim pu s =
      Some (breakerFailure age, pu1,
            closeLock e (fst (acquireLock e (snd (breakerCheck e s1))))
              (snd (breakerCheck e (snd (acquireLock e (snd (breakerCheck e s1)))))))"
    and "\<not> list_ex is_connect (issued s
            (closeLock e (fst (acquireLock e (snd (breakerCheck e s1))))
              (snd (breakerCheck e (snd (acquireLock e (snd (breakerCheck e s1))))))))"
proof -
  show "ensureConnected e lim pu s =
      Some (breakerFailure age, pu1,
            closeLock e (fst (acquireLock e (snd (breakerCheck e s1))))
              (snd (breakerCheck e (snd (acquireLock e (snd (breakerCheck e s1)))))))"
    using assms by (simp add: ensureConnected_def split_beta Let_def)
  have "only (\<lambda>c. \<not> is_connect c) s s1"
    using gatherCredentials_quiet [of s e lim pu] assms(1) by (auto elim: only_mono)
  then have "only (\<lambda>c. \<not> is_connect c) s (snd (breakerCheck e s1))"
    by (rule breakerCheck_calls) simp_all
  then have "only (\<lambda>c. \<not> is_connect c) s (snd (acquireLock e (snd (breakerCheck e s1))))"
    by (rule acquireLock_calls) simp_all
  then have "only (\<lambda>c. \<not> is_connect c) s
      (snd (breakerCheck e (snd (acquireLock e (snd (breakerCheck e s1))))))"
    by (rule breakerCheck_calls) simp_all
  then have "only (\<lambda>c. \<not> is_connect c) s
      (closeLock e (fst (acquireLock e (snd (breakerCheck e s1))))
         (snd (breakerCheck e (snd (acquireLock e (snd (breakerCheck e s1)))))))"
    by (rule closeLock_calls) simp
  then show "\<not> list_ex is_connect (issued s
            (closeLock e (fst (acquireLock e (snd (breakerCheck e s1))))
              (snd (breakerCheck e (snd (acquireLock e (snd (breakerCheck e s1))))))))"
    by (rule only_no_connect)
qed

lemma since_connect_last:
  assumes "is_connect c" and "\<not> list_ex is_connect ys"
  shows "since_connect (xs @ c # ys) = ys"
proof -
  from assms(2) have "\<And>x. x \<in> set (rev ys) \<Longrightarrow> \<not> is_connect x"
    by (simp add: list_ex_iff)
  then have "takeWhile (\<lambda>c. \<not> is_connect c) (rev ys @ c # rev xs) =
      rev ys @ takeWhile (\<lambda>c. \<not> is_connect c) (c # rev xs)"
    by (rule takeWhile_append2)
  with assms(1) show ?thesis by (simp add: since_connect_def)
qed

lemma since_connect_append:
  "list_ex is_connect ys \<Longrightarrow> since_connect (xs @ ys) = since_connect ys"
  by (auto simp: since_connect_def list_ex_iff)

lemma connect_loop_unlinks_aux:
  "connect_loop e lim pu info du fd k s = Some y \<Longrightarrow>
     fst y = Pass \<longrightarrow>
       list_ex is_connect (issued s (snd (snd y))) \<and>
       unlink_breaker \<in> set (since_connect (issued s (snd (snd y))))"
proof (induct rule: connect_loop_induct)
  case (return pu info du fd k s y)
  let ?s1 = "snd (connectOnce e pu s)"
  show ?case
  proof
    assume p: "fst y = Pass"
    with return obtain sid where y: "snd (snd y) = connectSucceeded e pu info du fd sid ?s1"
      by (auto simp: connect_iteration_eq Let_def split: if_splits)
    have "only session_call s ?s1" by (simp add: connectOnce_only)
    moreover have "only session_call ?s1 (snd (snd y))" by (simp add: y connectSucceeded_only)
    ultimately have i: "issued s (snd (snd y)) =
        [alarm 15] @ afp_sl_connect (afpUrl pu) # (alarm 0 # issued ?s1 (snd (snd y)))"
      using issued_trans [of session_call s ?s1 session_call "snd (snd y)"] by simp
    have q: "\<not> list_ex is_connect (alarm 0 # issued ?s1 (snd (snd y)))"
      using issued_connectSucceeded [of ?s1 e pu info du fd sid] by (simp add: y)
    have "since_connect (issued s (snd (snd y))) = alarm 0 # issued ?s1 (snd (snd y))"
      unfolding i by (rule since_connect_last [OF _ q]) simp
    moreover have "list_ex is_connect (issued s (snd (snd y)))" unfolding i by simp
    ultimately show "list_ex is_connect (issued s (snd (snd y))) \<and>
        unlink_breaker \<in> set (since_connect (issued s (snd (snd y))))"
      using issued_connectSucceeded [of ?s1 e pu info du fd sid] by (simp add: y)
  qed
next
  case (continue pu info du fd k s pu1 info1 du1 fd1 k1 s1 y)
  from connect_iteration_continue [OF continue(1), of s] have o1: "only session_call s s1" by simp
  from connect_loop_facts_aux [OF continue(2), of s1]
  have o: "only session_call s1 (snd (snd y))" by simp
  note i = issued_trans [OF o1 o]
  show ?case
  proof
    assume "fst y = Pass"
    with continue(3) have a: "list_ex is_connect (issued s1 (snd (snd y)))"
      "unlink_breaker \<in> set (since_connect (issued s1 (snd (snd y))))" by simp_all
    from a(1) have "since_connect (issued s (snd (snd y))) = since_connect (issued s1 (snd (snd y)))"
      unfolding i by (rule since_connect_append)
    with a show "list_ex is_connect (issued s (snd (snd y))) \<and>
        unlink_breaker \<in> set (since_connect (issued s (snd (snd y))))"
      by (simp add: i)
  qed
qed

lemma ensureConnected_unlinks:
  assumes "ensureConnected e lim pu s = Some (Pass, pu', s')"
    and "list_ex is_connect (issued s s')"
  shows "unlink_breaker \<in> set (since_connect (issued s s'))"
proof -
  let ?g = "gatherCredentials e lim pu s"
  let ?b1 = "breakerCheck e (snd ?g)"
  let ?l = "acquireLock e (snd ?b1)"
  let ?b2 = "breakerCheck e (snd ?l)"
  have q: "only (\<lambda>c. \<not> is_connect c) s (snd ?g)"
    using gatherCredentials_quiet [of s e lim pu] by (auto elim: only_mono)
  show ?thesis
  proof (cases "fst ?g")
    case (Inl a)
    with assms(1) have "s' = snd ?g" by (cases a) (simp add: ensureConnected_def split_beta)
    with q assms(2) only_no_connect show ?thesis by blast
  next
    case (Inr b)
    obtain pu1 info du where b: "b = (pu1, info, du)" by (cases b)
    from assms(1) Inr b have b1: "fst ?b1 = None"
      by (cases "fst ?b1") (simp_all add: ensureConnected_def split_beta)
    from assms(1) Inr b b1 have b2: "fst ?b2 = None"
      by (cases "fst ?b2") (simp_all add: ensureConnected_def split_beta Let_def)
    from assms(1) Inr b b1 b2
    have loop: "connect_loop e lim pu1 info du (fst ?l) 0 (snd ?b2) = Some (Pass, pu', s')"
      by (simp add: ensureConnected_def split_beta Let_def)
    have o: "only session_call s (snd ?b2)"
      by (simp add: gatherCredentials_only breakerCheck_only acquireLock_only)
    from connect_loop_facts(1) [OF loop, of "snd ?b2"] have o': "only session_call (snd ?b2) s'"
      by simp
    note i = issued_trans [OF o o']
    from connect_loop_unlinks_aux [OF loop]
    have a: "list_ex is_connect (issued (snd ?b2) s')"
      "unlink_breaker \<in> set (since_connect (issued (snd ?b2) s'))" by simp_all
    from a(1) have "since_connect (issued s s') = since_connect (issued (snd ?b2) s')"
      unfolding i by (rule since_connect_append)
    with a(2) show ?thesis by simp
  qed
qed

section \<open>Requests answered before the breaker is looked at\<close>

lemma wrap_signed_32:
  "- 2147483648 \<le> x \<Longrightarrow> x < 2147483648 \<Longrightarrow> wrap_signed 32 x = x"
  by (simp add: wrap_signed_def)

lemma breakerFailure_hint:
  assumes "- 2147483617 \<le> age" "age < 30"
  shows "breakerFailure age =
     Fail ERR_CANNOT_CONNECT (I18n ''AFP daemon not responding (retry in %1 s)'' [ArgInt (30 - age)])"
proof -
  from assms have "wrap_signed 32 age = age" by (intro wrap_signed_32) simp_all
  moreover from assms have "wrap_signed 32 (30 - age) = 30 - age"
    by (intro wrap_signed_32) simp_all
  ultimately show ?thesis by (simp add: breakerFailure_def)
qed

lemma ensureConnSetup_issued:
  "issued s (snd (ensureConnSetup e s)) =
     (if m_connSetupDone (wk s) then [] else [afp_sl_conn_setup])"
  by (simp add: ensureConnSetup_def)

lemma ensureConnected_cached:
  assumes "m_serverId (wk s) \<noteq> 0" "m_cachedServer (wk s) = server pu"
  shows "ensureConnected e lim pu s =
     Some (Pass, fillCachedCredentials lim ((wk s)\<lparr>m_connSetupDone := True\<rparr>) pu,
           snd (ensureConnSetup e s))"
  using assms
  by (simp add: ensureConnected_def gatherCredentials_def Let_def split_beta
        ensureConnSetup_facts switchServer_def)

lemma ensureConnected_cancelled:
  assumes "m_serverId (wk s) = 0 \<or> m_cachedServer (wk s) \<noteq> server pu"
    and "cachedCredentials e lim pu (initialAuthInfo pu)
           (switchServer e pu (snd (ensureConnSetup e s))) = ((False, info1, pu1), s3)"
    and "rc (fst (perform e (openPasswordDialog info1 False) s3)) \<noteq> 0"
  shows "ensureConnected e lim pu s =
     Some (Fail ERR_USER_CANCELED (Subject (server pu)), pu1,
           snd (perform e (openPasswordDialog info1 False) s3))"
proof -
  have "server pu1 = server pu"
    using cachedCredentials_target [of pu e lim "initialAuthInfo pu"
        "switchServer e pu (snd (ensureConnSetup e s))"] assms(2)
    by (simp add: same_target_def)
  moreover have "m_serverId (wk (switchServer e pu (snd (ensureConnSetup e s)))) = 0"
    using assms(1) by (auto simp: switchServer_wk ensureConnSetup_facts clearSession_def)
  ultimately show ?thesis
    using assms(2,3)
    by (simp add: ensureConnected_def gatherCredentials_def Let_def split_beta
          ensureConnSetup_facts promptCredentials_def)
qed

lemma ensureConnected_early:
  assumes "fst (gatherCredentials e lim pu s) = Inl (r, pu1)"
  shows "ensureConnected e lim pu s = Some (r, pu1, snd (gatherCredentials e lim pu s))"
    and "stat_breaker \<notin> set (issued s (snd (gatherCredentials e lim pu s)))"
    and "\<not> list_ex is_connect (issued s (snd (gatherCredentials e lim pu s)))"
proof -
  show "ensureConnected e lim pu s = Some (r, pu1, snd (gatherCredentials e lim pu s))"
    using assms by (simp add: ensureConnected_def split_beta)
  note q = gatherCredentials_quiet [of s e lim pu]
  from only_issued [OF q, of stat_breaker]
  show "stat_breaker \<notin> set (issued s (snd (gatherCredentials e lim pu s)))" by blast
  from q have "only (\<lambda>c. \<not> is_connect c) s (snd (gatherCredentials e lim pu s))"
    by (auto elim: only_mono)
  then show "\<not> list_ex is_connect (issued s (snd (gatherCredentials e lim pu s)))"
    by (rule only_no_connect)
qed

lemma gatherCredentials_cached:
  assumes "m_serverId (wk s) \<noteq> 0" "m_cachedServer (wk s) = server pu"
  shows "fst (gatherCredentials e lim pu s) =
     Inl (Pass, fillCachedCredentials lim ((wk s)\<lparr>m_connSetupDone := True\<rparr>) pu)"
    and "snd (gatherCredentials e lim pu s) = snd (ensureConnSetup e s)"
  using assms
  by (simp_all add: gatherCredentials_def Let_def split_beta ensureConnSetup_facts switchServer_def)

lemma gatherCredentials_cancelled:
  assumes "m_serverId (wk s) = 0 \<or> m_cachedServer (wk s) \<noteq> server pu"
    and "cachedCredentials e lim pu (initialAuthInfo pu)
           (switchServer e pu (snd (ensureConnSetup e s))) = ((False, info1, pu1), s3)"
    and "rc (fst (perform e (openPasswordDialog info1 False) s3)) \<noteq> 0"
  shows "fst (gatherCredentials e lim pu s) = Inl (Fail ERR_USER_CANCELED (Subject (server pu)), pu1)"
    and "snd (gatherCredentials e lim pu s) = snd (perform e (openPasswordDialog info1 False) s3)"
proof -
  have t: "server pu1 = server pu"
    using cachedCredentials_target [of pu e lim "initialAuthInfo pu"
        "switchServer e pu (snd (ensureConnSetup e s))"] assms(2)
    by (simp add: same_target_def)
  have z: "m_serverId (wk (switchServer e pu (snd (ensureConnSetup e s)))) = 0"
    using assms(1) by (auto simp: switchServer_wk ensureConnSetup_facts clearSession_def)
  show "fst (gatherCredentials e lim pu s) = Inl (Fail ERR_USER_CANCELED (Subject (server pu)), pu1)"
    using assms(2,3) t z
    by (simp add: gatherCredentials_def Let_def split_beta ensureConnSetup_facts
          promptCredentials_def)
  show "snd (gatherCredentials e lim pu s) = snd (perform e (openPasswordDialog info1 False) s3)"
    using assms(2,3) t z
    by (simp add: gatherCredentials_def Let_def split_beta ensureConnSetup_facts
          promptCredentials_def)
qed

section \<open>The calls of a recovery block\<close>

lemma only_hd:
  assumes "only P s s1" "only Q s1 s2" "issued s s1 \<noteq> []"
  shows "issued s s2 \<noteq> [] \<and> hd (issued s s2) = hd (issued s s1)"
  using issued_trans [OF assms(1,2)] assms(3) by simp

lemma only_True: "only P s s' \<Longrightarrow> only (\<lambda>c. True) s s'"
  by (erule only_mono) simp

lemma recover_once_calls:
  assumes "recover_once e lim establish mk pu s = Some (x, s')"
    and "establish = ensureAttached \<or> establish = ensureConnected"
    and "only P s0 s" "\<And>c. session_call c \<Longrightarrow> P c" "\<And>v u. P (mk v u)"
  shows "only P s0 s'"
proof -
  let ?sa = "snd (perform e (mk (m_volumeId (wk s)) (afpUrl pu)) s)"
  have a: "only P s0 ?sa" using assms(3,5) by (simp add: only_perform)
  have est: "establish e lim pu s1 = Some (rr, pub, sb) \<Longrightarrow> only session_call s0' s1 \<Longrightarrow>
      only session_call s0' sb" for s1 rr pub sb s0'
    using assms(2) ensureAttached_facts(1) ensureConnected_facts(1) by blast
  show ?thesis
  proof (cases "ret (fst (perform e (mk (m_volumeId (wk s)) (afpUrl pu)) s)) \<in> recoverable_codes")
    case False
    with assms(1) have "s' = ?sa" by (simp add: recover_once_def Let_def split_beta)
    with a show ?thesis by simp
  next
    case True
    with assms(1) obtain rr pub sb where
      e: "establish e lim pu (invalidateSessionState e ?sa) = Some (rr, pub, sb)"
      by (auto simp: recover_once_def Let_def split_beta split: option.splits)
    have "only session_call ?sa (invalidateSessionState e ?sa)" by (simp add: invalidate_only)
    from est [OF e this] have "only P ?sa sb" using assms(4) by (auto elim: only_mono)
    with a have b: "only P s0 sb" by (rule only_trans)
    from assms(1) True e
    have "s' = sb \<or> s' = snd (perform e (mk (m_volumeId (wk sb)) (afpUrl pub)) sb)"
      by (auto simp: recover_once_def Let_def split_beta split: if_splits)
    with b assms(5) show ?thesis by (auto simp: only_perform)
  qed
qed

lemma recover_once_first:
  assumes "recover_once e lim establish mk pu s = Some (x, s')"
    and "establish = ensureAttached \<or> establish = ensureConnected"
  shows "issued s s' \<noteq> [] \<and> hd (issued s s') = mk (m_volumeId (wk s)) (afpUrl pu)"
proof -
  let ?sa = "snd (perform e (mk (m_volumeId (wk s)) (afpUrl pu)) s)"
  have est: "establish e lim pu s1 = Some (rr, pub, sb) \<Longrightarrow> only session_call s0' s1 \<Longrightarrow>
      only session_call s0' sb" for s1 rr pub sb s0'
    using assms(2) ensureAttached_facts(1) ensureConnected_facts(1) by blast
  have a: "only (\<lambda>c. True) s ?sa" by (simp add: only_perform)
  have "only (\<lambda>c. True) ?sa s'"
  proof (cases "ret (fst (perform e (mk (m_volumeId (wk s)) (afpUrl pu)) s)) \<in> recoverable_codes")
    case False
    with assms(1) have "s' = ?sa" by (simp add: recover_once_def Let_def split_beta)
    then show ?thesis by simp
  next
    case True
    with assms(1) obtain rr pub sb where
      e: "establish e lim pu (invalidateSessionState e ?sa) = Some (rr, pub, sb)"
      by (auto simp: recover_once_def Let_def split_beta split: option.splits)
    have "only session_call ?sa (invalidateSessionState e ?sa)" by (simp add: invalidate_only)
    from est [OF e this] have b: "only (\<lambda>c. True) ?sa sb" by (rule only_True)
    from assms(1) True e
    have "s' = sb \<or> s' = snd (perform e (mk (m_volumeId (wk sb)) (afpUrl pub)) sb)"
      by (auto simp: recover_once_def Let_def split_beta split: if_splits)
    with b show ?thesis by (auto simp: only_perform)
  qed
  from only_hd [OF a this] show ?thesis by simp
qed

lemma session_call_not_stat: "session_call c \<Longrightarrow> \<not> is_stat c"
  by (cases c) simp_all

lemma only_no_stat:
  "only (\<lambda>c. \<not> is_stat c) s s' \<Longrightarrow> \<not> list_ex is_stat (issued s s')"
  by (auto simp: list_ex_iff dest: only_issued)

section \<open>The read loop\<close>

lemma issued_step:
  "only (\<lambda>c. True) s s1 \<Longrightarrow> issued s (snd (perform e c s1)) = issued s s1 @ [c]"
  by (auto simp: only_def issued_def)

lemma only_True_step:
  "only (\<lambda>c. True) s s1 \<Longrightarrow> only (\<lambda>c. True) s (snd (perform e c s1))"
  by (simp add: only_perform)

lemmas issued_steps = issued_step only_True_step

lemma hints_append [simp]: "hints (a @ b) = hints a @ hints b"
  by (induct a rule: hints.induct) simp_all

lemma forwarded_append [simp]: "forwarded (a @ b) = forwarded a @ forwarded b"
  by (induct a rule: forwarded.induct) simp_all

lemma read_sizes_append [simp]: "read_sizes (a @ b) = read_sizes a @ read_sizes b"
  by (induct a rule: read_sizes.induct) simp_all

lemma stream_call_sizes:
  "\<forall>c \<in> set cs. stream_call f c \<Longrightarrow> set (read_sizes cs) \<subseteq> {READ_CHUNK} \<and> hints cs = []"
proof (induct cs)
  case Nil
  show ?case by simp
next
  case (Cons c cs)
  then show ?case by (cases c) simp_all
qed

lemma only_stream_sizes:
  "only (stream_call f) s s' \<Longrightarrow>
     set (read_sizes (issued s s')) \<subseteq> {READ_CHUNK} \<and> hints (issued s s') = []"
  by (rule stream_call_sizes) (auto dest: only_issued)

lemma mapAfpError_not_Pass: "c \<noteq> AFP_SERVER_RESULT_OKAY \<Longrightarrow> mapAfpError c p \<noteq> Pass"
  by simp

lemma read_loop_error:
  assumes "ret (fst (perform e (afp_sl_read (m_volumeId (wk s)) f off READ_CHUNK) s))
             \<noteq> AFP_SERVER_RESULT_OKAY"
  shows "read_loop e p f off s =
     Some (mapAfpError (ret (fst (perform e (afp_sl_read (m_volumeId (wk s)) f off READ_CHUNK) s))) p,
           snd (perform e (afp_sl_close (m_volumeId (wk s)) f)
                  (snd (perform e (afp_sl_read (m_volumeId (wk s)) f off READ_CHUNK) s))))"
  using assms by (subst read_loop.simps) (simp add: Let_def split_beta)

lemma read_loop_stream_aux:
  "read_loop e p f off s = Some y \<Longrightarrow>
     only (stream_call f) s (snd y) \<and>
     (if fst y = Pass
      then \<exists>ns. forwarded (issued s (snd y)) = ns @ [0] \<and> 0 \<notin> set ns
      else 0 \<notin> set (forwarded (issued s (snd y))) \<and>
           (\<exists>c. c \<noteq> AFP_SERVER_RESULT_OKAY \<and> fst y = mapAfpError c p))"
proof (induct rule: read_loop_induct)
  case (step loop e p f off s y)
  let ?rd = "afp_sl_read (m_volumeId (wk s)) f off READ_CHUNK"
  let ?r = "fst (perform e ?rd s)" and ?s1 = "snd (perform e ?rd s)"
  let ?cl = "afp_sl_close (m_volumeId (wk s)) f"
  note body = step.hyps(2)
  show ?case
  proof (cases "ret ?r \<noteq> AFP_SERVER_RESULT_OKAY")
    case True
    with body have y: "y = (mapAfpError (ret ?r) p, snd (perform e ?cl ?s1))"
      by (simp add: Let_def split_beta)
    have "issued s (snd y) = [?rd, ?cl]" by (simp add: y issued_steps)
    moreover have "only (stream_call f) s (snd y)" by (simp add: y only_perform)
    ultimately show ?thesis using True by (auto simp: y)
  next
    case False
    note ok = this
    show ?thesis
    proof (cases "cnt ?r = 0")
      case True
      with body ok have y: "y = (Pass, snd (perform e (data 0) (snd (perform e ?cl ?s1))))"
        by (simp add: Let_def split_beta)
      have "issued s (snd y) = [?rd, ?cl, data 0]" by (simp add: y issued_steps)
      moreover have "only (stream_call f) s (snd y)" by (simp add: y only_perform)
      ultimately show ?thesis by (simp add: y)
    next
      case False
      let ?s2 = "snd (perform e (data (cnt ?r)) ?s1)"
      have o2: "only (stream_call f) s ?s2" by (simp add: only_perform)
      have i2: "issued s ?s2 = [?rd, data (cnt ?r)]" by (simp add: issued_steps)
      show ?thesis
      proof (cases "flg ?r")
        case True
        with body ok False
        have y: "y = (Pass, snd (perform e (data 0) (snd (perform e ?cl ?s2))))"
          by (simp add: Let_def split_beta)
        have "issued s (snd y) = [?rd, data (cnt ?r), ?cl, data 0]"
          by (simp add: y issued_steps)
        then have "forwarded (issued s (snd y)) = [cnt ?r] @ [0]" by simp
        moreover have "only (stream_call f) s (snd y)" by (simp add: y only_perform)
        ultimately show ?thesis using False by (simp add: y del: append.simps)
      next
        case nf: False
        with body ok False have "loop e p f ((off + cnt ?r) mod 2 ^ 64) ?s2 = Some y"
          by (simp add: Let_def split_beta)
        note ih0 = step.hyps(1) [OF this]
        note ih = ih0 [THEN conjunct1] ih0 [THEN conjunct2]
        from issued_trans [OF o2 ih(1)] i2
        have i: "forwarded (issued s (snd y)) = cnt ?r # forwarded (issued ?s2 (snd y))"
          by simp
        have o: "only (stream_call f) s (snd y)" using o2 ih(1) by (rule only_trans)
        show ?thesis
        proof (cases "fst y = Pass")
          case True
          with ih(2) obtain ns where "forwarded (issued ?s2 (snd y)) = ns @ [0]" "0 \<notin> set ns"
            by auto
          with i False have "forwarded (issued s (snd y)) = (cnt ?r # ns) @ [0]"
            "0 \<notin> set (cnt ?r # ns)" by simp_all
          with o True show ?thesis by (simp del: append.simps)
        next
          case False
          with ih(2) i o \<open>cnt ?r \<noteq> 0\<close> show ?thesis by auto
        qed
      qed
    qed
  qed
qed

lemma read_loop_stream:
  assumes "read_loop e p f off s = Some (r, s')"
  shows "only (stream_call f) s s'" and "wk s' = wk s"
    and "if r = Pass
      then \<exists>ns. forwarded (issued s s') = ns @ [0] \<and> 0 \<notin> set ns
      else 0 \<notin> set (forwarded (issued s s')) \<and>
           (\<exists>c. c \<noteq> AFP_SERVER_RESULT_OKAY \<and> r = mapAfpError c p)"
  using read_loop_stream_aux [OF assms] read_loop_wk [OF assms] by auto

lemma read_loop_serves:
  assumes "serves_file e N" and "N < 2 ^ 64"
  shows "off \<le> N \<Longrightarrow>
     \<exists>s' ns. read_loop e p f off s = Some (Pass, s') \<and>
        forwarded (issued s s') = ns @ [0] \<and> 0 \<notin> set ns \<and> sum_list ns = N - off"
proof (induction "N - off" arbitrary: off s rule: less_induct)
  case less
  let ?rd = "afp_sl_read (m_volumeId (wk s)) f off READ_CHUNK"
  let ?r = "fst (perform e ?rd s)" and ?s1 = "snd (perform e ?rd s)"
  let ?cl = "afp_sl_close (m_volumeId (wk s)) f"
  have "0 < READ_CHUNK" by (simp add: READ_CHUNK_def)
  with assms(1) have rd: "ret ?r = AFP_SERVER_RESULT_OKAY"
    "off < N \<Longrightarrow> 0 < cnt ?r \<and> off + cnt ?r \<le> N"
    "N \<le> off \<Longrightarrow> cnt ?r = 0" "flg ?r \<Longrightarrow> N \<le> off + cnt ?r"
    by (simp_all add: serves_file_def)
  show ?case
  proof (cases "cnt ?r = 0")
    case True
    have "\<not> off < N" using rd(2) True by auto
    with less.prems have "off = N" by simp
    from rd(1) True
    have "read_loop e p f off s = Some (Pass, snd (perform e (data 0) (snd (perform e ?cl ?s1))))"
      by (subst read_loop.simps) (simp add: Let_def split_beta)
    moreover have "issued s (snd (perform e (data 0) (snd (perform e ?cl ?s1)))) = [?rd, ?cl, data 0]"
      by (simp add: issued_steps)
    ultimately show ?thesis using \<open>off = N\<close> by simp
  next
    case False
    have "\<not> N \<le> off" using rd(3) False by auto
    then have lt: "off < N" by simp
    note c = rd(2) [OF lt]
    let ?s2 = "snd (perform e (data (cnt ?r)) ?s1)"
    have i2: "issued s ?s2 = [?rd, data (cnt ?r)]" by (simp add: issued_steps)
    show ?thesis
    proof (cases "flg ?r")
      case True
      have n: "cnt ?r = N - off" using rd(4) [OF True] c by linarith
      from rd(1) True False
      have "read_loop e p f off s =
          Some (Pass, snd (perform e (data 0) (snd (perform e ?cl ?s2))))"
        by (subst read_loop.simps) (simp add: Let_def split_beta)
      moreover have "issued s (snd (perform e (data 0) (snd (perform e ?cl ?s2)))) =
          [?rd, data (cnt ?r), ?cl, data 0]"
        by (simp add: issued_steps)
      then have "forwarded (issued s (snd (perform e (data 0) (snd (perform e ?cl ?s2))))) =
          [cnt ?r] @ [0]" by simp
      ultimately show ?thesis using False n
        by (intro exI [of _ "[cnt ?r]"] exI [of _ "snd (perform e (data 0) (snd (perform e ?cl ?s2)))"])
           simp
    next
      case nf: False
      from c assms(2) have "(off + cnt ?r) mod 2 ^ 64 = off + cnt ?r" by simp
      with rd(1) nf False
      have eq: "read_loop e p f off s = read_loop e p f (off + cnt ?r) ?s2"
        by (subst read_loop.simps) (simp add: Let_def split_beta)
      from c lt have "N - (off + cnt ?r) < N - off" "off + cnt ?r \<le> N" by linarith+
      from less.hyps [OF this, of ?s2] obtain s' ns where
        ih: "read_loop e p f (off + cnt ?r) ?s2 = Some (Pass, s')"
          "forwarded (issued ?s2 s') = ns @ [0]" "0 \<notin> set ns"
          "sum_list ns = N - (off + cnt ?r)" by blast
      have o2: "only (stream_call f) s ?s2" by (simp add: only_perform)
      from issued_trans [OF o2 read_loop_stream(1) [OF ih(1)]] i2 ih(2)
      have "forwarded (issued s s') = (cnt ?r # ns) @ [0]" by simp
      moreover from ih(3) False have "0 \<notin> set (cnt ?r # ns)" by simp
      moreover from ih(4) c have "sum_list (cnt ?r # ns) = N - off"
        unfolding sum_list.Cons by linarith
      ultimately show ?thesis using ih(1) eq by (simp del: append.simps)
    qed
  qed
qed

lemma recover_once_pass:
  assumes "ret (fst (perform e (mk (m_volumeId (wk s)) (afpUrl pu)) s)) \<notin> recoverable_codes"
  shows "recover_once e lim establish mk pu s =
     Some (Inr (fst (perform e (mk (m_volumeId (wk s)) (afpUrl pu)) s), pu),
           snd (perform e (mk (m_volumeId (wk s)) (afpUrl pu)) s))"
  using assms by (simp add: recover_once_def Let_def split_beta)

lemma OKAY_not_recoverable [simp]: "AFP_SERVER_RESULT_OKAY \<notin> recoverable_codes"
  by (simp add: recoverable_codes_def)

lemma get_serves:
  assumes sf: "serves_file e N" and nb: "N < 2 ^ 64" and hp: "hasPath (parseAfpUrl lim url)"
    and at: "ensureAttached e lim (parseAfpUrl lim url) s = Some (Pass, pu1, s1)"
  shows "\<exists>s' ns. get e lim url s = Some (Pass, s') \<and>
     hints (issued s1 s') = [N] \<and> forwarded (issued s1 s') = ns @ [0] \<and> 0 \<notin> set ns \<and>
     sum_list ns = N \<and> set (read_sizes (issued s1 s')) \<subseteq> {READ_CHUNK}"
proof -
  let ?st = "afp_sl_stat (m_volumeId (wk s1)) (urlpath (afpUrl pu1)) (afpUrl pu1)"
  let ?a = "fst (perform e ?st s1)" and ?sa = "snd (perform e ?st s1)"
  let ?s3 = "snd (perform e (totalSize N) ?sa)"
  let ?s4 = "snd (perform e (mimeType (lastPart (path pu1) (path pu1))) ?s3)"
  let ?op = "afp_sl_open (m_volumeId (wk s1)) (urlpath (afpUrl pu1)) (afpUrl pu1) O_RDONLY"
  let ?b = "fst (perform e ?op ?s4)" and ?s5 = "snd (perform e ?op ?s4)"
  from sf have a: "ret ?a = AFP_SERVER_RESULT_OKAY" "st_size (r_stat ?a) = N"
    "\<not> S_ISDIR (st_mode (r_stat ?a))" and b: "ret ?b = AFP_SERVER_RESULT_OKAY"
    by (simp_all add: serves_file_def)
  have r1: "recover_once e lim ensureAttached (\<lambda>vid u. afp_sl_stat vid (urlpath u) u) pu1 s1 =
      Some (Inr (?a, pu1), ?sa)"
    using a(1) by (subst recover_once_pass) simp_all
  have r2: "recover_once e lim ensureAttached (\<lambda>vid u. afp_sl_open vid (urlpath u) u O_RDONLY)
      pu1 ?s4 = Some (Inr (?b, pu1), ?s5)"
    using b by (subst recover_once_pass) simp_all
  have g: "get e lim url s = read_loop e (path pu1) (hnd ?b) 0 ?s5"
    using hp at a b by (simp add: get_structured Let_def andThen_def r1 r2)
  from read_loop_serves [OF sf nb, of 0 "path pu1" "hnd ?b" ?s5] obtain s' ns where
    rl: "read_loop e (path pu1) (hnd ?b) 0 ?s5 = Some (Pass, s')"
      "forwarded (issued ?s5 s') = ns @ [0]" "0 \<notin> set ns" "sum_list ns = N" by auto
  note st = read_loop_stream(1) [OF rl(1)]
  have o5: "only (\<lambda>c. True) s1 ?s5" by (simp add: issued_steps)
  have i5: "issued s1 ?s5 = [?st, totalSize N, mimeType (lastPart (path pu1) (path pu1)), ?op]"
    by (simp add: issued_steps)
  note i = issued_trans [OF o5 st]
  from only_stream_sizes [OF st] i i5 rl(2)
  have h: "hints (issued s1 s') = [N]" "forwarded (issued s1 s') = ns @ [0]"
    "set (read_sizes (issued s1 s')) \<subseteq> {READ_CHUNK}" by simp_all
  show ?thesis using g rl(1,3,4) h
    by (intro exI [of _ s'] exI [of _ ns]) simp
qed

section \<open>The download after the open\<close>

lemma get_opened:
  assumes hp: "hasPath (parseAfpUrl lim url)"
    and at: "ensureAttached e lim (parseAfpUrl lim url) s = Some (Pass, pu1, s1)"
    and a: "a = fst (perform e (afp_sl_stat (m_volumeId (wk s1)) (urlpath (afpUrl pu1))
                               (afpUrl pu1)) s1)"
      "ret a = AFP_SERVER_RESULT_OKAY" "\<not> S_ISDIR (st_mode (r_stat a))"
    and s4: "s4 = snd (perform e (mimeType (lastPart (path pu1) (path pu1)))
               (snd (perform e (totalSize (st_size (r_stat a)))
                  (snd (perform e (afp_sl_stat (m_volumeId (wk s1)) (urlpath (afpUrl pu1))
                                     (afpUrl pu1)) s1)))))"
    and b: "b = fst (perform e (afp_sl_open (m_volumeId (wk s1)) (urlpath (afpUrl pu1))
                               (afpUrl pu1) O_RDONLY) s4)"
      "ret b = AFP_SERVER_RESULT_OKAY"
  shows "get e lim url s =
     read_loop e (path pu1) (hnd b) 0
       (snd (perform e (afp_sl_open (m_volumeId (wk s1)) (urlpath (afpUrl pu1))
                          (afpUrl pu1) O_RDONLY) s4))"
proof -
  let ?st = "afp_sl_stat (m_volumeId (wk s1)) (urlpath (afpUrl pu1)) (afpUrl pu1)"
  let ?op = "afp_sl_open (m_volumeId (wk s1)) (urlpath (afpUrl pu1)) (afpUrl pu1) O_RDONLY"
  have w4: "wk s4 = wk s1" by (simp add: s4)
  have r1: "recover_once e lim ensureAttached (\<lambda>vid u. afp_sl_stat vid (urlpath u) u) pu1 s1 =
      Some (Inr (a, pu1), snd (perform e ?st s1))"
    using a(2) unfolding a(1) by (subst recover_once_pass) simp_all
  have r2: "recover_once e lim ensureAttached (\<lambda>vid u. afp_sl_open vid (urlpath u) u O_RDONLY)
      pu1 s4 = Some (Inr (b, pu1), snd (perform e ?op s4))"
    using b(2) unfolding b(1) by (subst recover_once_pass) (simp_all add: w4)
  have "get e lim url s =
      andThen (recover_once e lim ensureAttached (\<lambda>vid u. afp_sl_stat vid (urlpath u) u) pu1 s1)
        (\<lambda>(st, pu2) s2.
            if ret st \<noteq> AFP_SERVER_RESULT_OKAY then Some (mapAfpError (ret st) (path pu2), s2)
            else if S_ISDIR (st_mode (r_stat st))
            then Some (Fail ERR_IS_DIRECTORY (Subject (path pu2)), s2)
            else
             let s3 = snd (perform e (totalSize (st_size (r_stat st))) s2);
                 s4 = snd (perform e (mimeType (lastPart (path pu2) (path pu2))) s3)
             in andThen
                  (recover_once e lim ensureAttached
                     (\<lambda>vid u. afp_sl_open vid (urlpath u) u O_RDONLY) pu2 s4)
                  (\<lambda>(op, pu3) s5.
                     if ret op \<noteq> AFP_SERVER_RESULT_OKAY
                     then Some (mapAfpError (ret op) (path pu3), s5)
                     else read_loop e (path pu3) (hnd op) 0 s5))"
    using hp at by (simp add: get_structured Let_def)
  also have "\<dots> = read_loop e (path pu1) (hnd b) 0 (snd (perform e ?op s4))"
    unfolding r1 andThen_def using a(2,3) b(2)
    by (simp add: Let_def s4 [symmetric] r2 del: perform_fst perform_trace)
  finally show ?thesis .
qed

lemma env_file_serves: "serves_file (env_file N) N"
  by (auto simp: serves_file_def env_file_def answer_def S_ISDIR_def)

lemma read_loop_step:
  assumes "ret (fst (perform e (afp_sl_read (m_volumeId (wk s)) f off READ_CHUNK) s))
             = AFP_SERVER_RESULT_OKAY"
    and "r = fst (perform e (afp_sl_read (m_volumeId (wk s)) f off READ_CHUNK) s)"
    and "s1 = snd (perform e (afp_sl_read (m_volumeId (wk s)) f off READ_CHUNK) s)"
  shows "read_loop e p f off s =
     (if cnt r = 0
      then Some (Pass, snd (perform e (data 0)
                   (snd (perform e (afp_sl_close (m_volumeId (wk s)) f) s1))))
      else if flg r
      then Some (Pass, snd (perform e (data 0)
                   (snd (perform e (afp_sl_close (m_volumeId (wk s)) f)
                      (snd (perform e (data (cnt r)) s1))))))
      else read_loop e p f ((off + cnt r) mod 2 ^ 64) (snd (perform e (data (cnt r)) s1)))"
  using assms(1) unfolding assms(2,3)
  by (subst read_loop.simps) (simp add: Let_def split_beta)

section \<open>The attach-reset cycle\<close>

lemma resetAndReattach_volume:
  assumes "resetAndReattach e lim pu s = Some (r, pu', s')" and "r \<noteq> Pass"
  shows "m_cachedVolume (wk s') = m_cachedVolume (wk s) \<and> m_volumeId (wk s') = m_volumeId (wk s)"
proof -
  let ?s2 = "(snd (perform e (afp_sl_disconnect (m_serverId (wk s))) s))
               \<lparr>wk := (wk s)\<lparr>m_serverId := 0, m_cachedServer := []\<rparr>\<rparr>"
  from assms(1) obtain rc1 pu1 s3 where c: "ensureConnected e lim pu ?s2 = Some (rc1, pu1, s3)"
    by (auto simp: resetAndReattach_def Let_def split: option.splits)
  note f = ensureConnected_facts [OF c]
  have v3: "m_cachedVolume (wk s3) = m_cachedVolume (wk s)" "m_volumeId (wk s3) = m_volumeId (wk s)"
    using f(6,7) by (simp_all add: gatherCredentials_wk)
  show ?thesis
  proof (cases "success rc1")
    case False
    with assms(1) c have "s' = s3" by (auto simp: resetAndReattach_def Let_def)
    with v3 show ?thesis by simp
  next
    case True
    with assms c have "s' = snd (reattach e pu1 s3)"
      by (auto simp: resetAndReattach_def Let_def split_beta split: if_splits)
    with v3 show ?thesis by simp
  qed
qed

lemma resetAndReattach_inv:
  assumes "resetAndReattach e lim pu s = Some (r, pu', s')"
    and "m_volumeId (wk s) = 0" "volume pu \<noteq> []"
  shows "session_inv (wk s')"
  using resetAndReattach_facts_aux [OF assms(1), of s] assms(2,3) by simp

lemma ensureAttached_reset:
  assumes "hasVolume pu" and "ensureConnected e lim pu s = Some (Pass, pu1, s1)"
    and "s2 = switchVolume pu1 s1" and "m_volumeId (wk s2) = 0"
    and "ret (fst (perform e (afp_sl_attach (afpUrl pu1)) s2)) = AFP_SERVER_RESULT_ALREADY_MOUNTED \<or>
         ret (fst (perform e (afp_sl_attach (afpUrl pu1)) s2)) = AFP_SERVER_RESULT_ALREADY_ATTACHED"
    and "s4 = snd (perform e (afp_sl_getvolid (afpUrl pu1))
                     (snd (perform e (afp_sl_attach (afpUrl pu1)) s2)))"
    and "ret (fst (perform e (afp_sl_getvolid (afpUrl pu1))
                     (snd (perform e (afp_sl_attach (afpUrl pu1)) s2)))) \<noteq> AFP_SERVER_RESULT_OKAY"
  shows "ensureAttached e lim pu s = resetAndReattach e lim pu1 s4" and "m_volumeId (wk s4) = 0"
proof -
  show "m_volumeId (wk s4) = 0" using assms(4) by (simp add: assms(6))
  show "ensureAttached e lim pu s = resetAndReattach e lim pu1 s4"
    using assms(1,2,4,5,7) unfolding assms(6) assms(3)
    by (simp add: ensureAttached_def Let_def split_beta del: perform_fst perform_trace)
qed

lemma switchVolume_wk:
  "wk (switchVolume pu s) =
     (if m_volumeId (wk s) \<noteq> 0 \<and> m_cachedVolume (wk s) \<noteq> volume pu
      then (wk s)\<lparr>m_volumeId := 0, m_cachedVolume := []\<rparr> else wk s)"
  by (simp add: switchVolume_def)

lemma returnsD: "returns Q m \<Longrightarrow> m = Some (r, s') \<Longrightarrow> Q s'"
  by (simp add: returns_def)

section \<open>What a recovery block does\<close>

lemma isRecoverable_codes: "isRecoverableSessionError c \<longleftrightarrow> c \<in> recoverable_codes"
  by (cases c) (simp_all add: recoverable_codes_def)

lemma recover_once_stale:
  assumes "ret (fst (perform e (mk (m_volumeId (wk s)) (afpUrl pu)) s)) \<in> recoverable_codes"
    and "si = invalidateSessionState e (snd (perform e (mk (m_volumeId (wk s)) (afpUrl pu)) s))"
  shows "recover_once e lim establish mk pu s =
     (case establish e lim pu si of
        None \<Rightarrow> None
      | Some (rr, pub, sb) \<Rightarrow>
         if \<not> success rr then Some (Inl rr, sb)
         else Some (Inr (fst (perform e (mk (m_volumeId (wk sb)) (afpUrl pub)) sb), pub),
                    snd (perform e (mk (m_volumeId (wk sb)) (afpUrl pub)) sb)))"
    and "wk si = clearSession (wk s)"
    and "issued (snd (perform e (mk (m_volumeId (wk s)) (afpUrl pu)) s)) si =
           (if m_serverId (wk s) \<noteq> 0 then [afp_sl_disconnect (m_serverId (wk s))] else [])"
proof -
  show "recover_once e lim establish mk pu s =
     (case establish e lim pu si of
        None \<Rightarrow> None
      | Some (rr, pub, sb) \<Rightarrow>
         if \<not> success rr then Some (Inl rr, sb)
         else Some (Inr (fst (perform e (mk (m_volumeId (wk sb)) (afpUrl pub)) sb), pub),
                    snd (perform e (mk (m_volumeId (wk sb)) (afpUrl pub)) sb)))"
    using assms(1) unfolding assms(2)
    by (simp add: recover_once_def Let_def split_beta split: option.splits)
  show "wk si = clearSession (wk s)" by (simp add: assms(2))
  show "issued (snd (perform e (mk (m_volumeId (wk s)) (afpUrl pu)) s)) si =
           (if m_serverId (wk s) \<noteq> 0 then [afp_sl_disconnect (m_serverId (wk s))] else [])"
    by (simp add: assms(2) invalidateSessionState_def Let_def)
qed

lemma statVolumeRoot_Pass:
  "statVolumeRoot e lim pu s = Some (r, s') \<Longrightarrow> r = Pass"
  by (auto simp: statVolumeRoot_def statVolumeRootAttempt_def andThen_def Let_def split_beta
        split: option.splits if_splits sum.splits)

lemma stat_dispatch:
  "stat e lim url s =
     (if \<not> hasVolume (parseAfpUrl lim url)
      then Some (Pass, snd (perform e (statEntry (serverOrVolumeEntry [])) s))
      else if \<not> hasPath (parseAfpUrl lim url) then statVolumeRoot e lim (parseAfpUrl lim url) s
      else statPath e lim (parseAfpUrl lim url) s)"
  by (simp add: stat_def Let_def)

lemma recover_once_stale_all:
  "(ret (fst (perform e (mk (m_volumeId (wk s)) (afpUrl pu)) s)) \<in> recoverable_codes \<and>
    si = invalidateSessionState e (snd (perform e (mk (m_volumeId (wk s)) (afpUrl pu)) s)) \<longrightarrow>
      wk si = clearSession (wk s) \<and>
      issued (snd (perform e (mk (m_volumeId (wk s)) (afpUrl pu)) s)) si =
        (if m_serverId (wk s) \<noteq> 0 then [afp_sl_disconnect (m_serverId (wk s))] else []) \<and>
      recover_once e lim establish mk pu s =
        (case establish e lim pu si of
           None \<Rightarrow> None
         | Some (rr, pub, sb) \<Rightarrow>
            if \<not> success rr then Some (Inl rr, sb)
            else Some (Inr (fst (perform e (mk (m_volumeId (wk sb)) (afpUrl pub)) sb), pub),
                       snd (perform e (mk (m_volumeId (wk sb)) (afpUrl pub)) sb))))"
proof (intro impI)
  assume "ret (fst (perform e (mk (m_volumeId (wk s)) (afpUrl pu)) s)) \<in> recoverable_codes \<and>
    si = invalidateSessionState e (snd (perform e (mk (m_volumeId (wk s)) (afpUrl pu)) s))"
  then have a: "ret (fst (perform e (mk (m_volumeId (wk s)) (afpUrl pu)) s)) \<in> recoverable_codes"
    and b: "si = invalidateSessionState e (snd (perform e (mk (m_volumeId (wk s)) (afpUrl pu)) s))"
    by simp_all
  note f = recover_once_stale [where e = e and mk = mk and s = s and pu = pu and si = si, OF a b]
  from f(2) f(3) f(1) [of lim establish] show "wk si = clearSession (wk s) \<and>
         issued (snd (perform e (mk (m_volumeId (wk s)) (afpUrl pu)) s)) si =
           (if m_serverId (wk s) \<noteq> 0 then [afp_sl_disconnect (m_serverId (wk s))] else []) \<and>
         recover_once e lim establish mk pu s =
           (case establish e lim pu si of
              None \<Rightarrow> None
            | Some (rr, pub, sb) \<Rightarrow>
               if \<not> success rr then Some (Inl rr, sb)
               else Some (Inr (fst (perform e (mk (m_volumeId (wk sb)) (afpUrl pub)) sb), pub),
                          snd (perform e (mk (m_volumeId (wk sb)) (afpUrl pub)) sb)))"
    by (intro conjI)
qed



text \<open>
  C10.  Take a rename that passes the checks of its arguments and for which
  \<open>ensureAttached\<close> succeeds, in state \<open>s1\<close>.  Without the overwrite flag
  the first call issued from \<open>s1\<close> is the metadata query of the destination
  path; when it answers success the rename fails with already-exists, that
  query being the only call issued from \<open>s1\<close>, so no rename call; when it
  answers anything else the rename call comes next.  With the overwrite flag the
  first call issued from \<open>s1\<close> is the rename call, and no metadata query is
  issued anywhere in the operation.
\<close>

theorem rename_checks_destination:
  "(hasPath (parseAfpUrl lim src) \<and> hasPath (parseAfpUrl lim dest) \<and>
    server (parseAfpUrl lim src) = server (parseAfpUrl lim dest) \<and>
    volume (parseAfpUrl lim src) = volume (parseAfpUrl lim dest) \<and>
    ensureAttached e lim (parseAfpUrl lim src) s = Some (Pass, pu1, s1) \<and>
    ck = afp_sl_stat (m_volumeId (wk s1)) (urlpath (afpUrl (parseAfpUrl lim dest)))
           (afpUrl (parseAfpUrl lim dest)) \<and>
    rn = afp_sl_rename (m_volumeId (wk s1)) (urlpath (afpUrl pu1))
           (urlpath (afpUrl (parseAfpUrl lim dest))) (afpUrl pu1) \<longrightarrow>
      (ret (fst (perform e ck s1)) = AFP_SERVER_RESULT_OKAY \<longrightarrow>
         rename e lim src dest False s =
           Some (Fail ERR_FILE_ALREADY_EXIST (Subject (path (parseAfpUrl lim dest))),
                 snd (perform e ck s1)) \<and>
         issued s1 (snd (perform e ck s1)) = [ck]) \<and>
      (ret (fst (perform e ck s1)) \<noteq> AFP_SERVER_RESULT_OKAY \<and>
       rename e lim src dest False s = Some (r, s') \<longrightarrow>
         take 2 (issued s1 s') = [ck, rn]) \<and>
      (rename e lim src dest True s = Some (r, s') \<longrightarrow> hd (issued s1 s') = rn)) \<and>
   (rename e lim src dest True s = Some (r, s') \<longrightarrow> \<not> list_ex is_stat (issued s s'))"
proof -
  let ?S = "parseAfpUrl lim src" and ?D = "parseAfpUrl lim dest"
  let ?fin = "\<lambda>(m, pu2) s3. if ret m \<noteq> AFP_SERVER_RESULT_OKAY
                then Some (mapAfpError (ret m) (path pu2), s3) else Some (Pass, s3)"
  let ?mk = "\<lambda>vid u. afp_sl_rename vid (urlpath u) (urlpath (afpUrl ?D)) u"
  have fin: "andThen (recover_once e lim ensureAttached ?mk pu2 s2) ?fin = Some (r, s') \<Longrightarrow>
      \<exists>x. recover_once e lim ensureAttached ?mk pu2 s2 = Some (x, s')" for pu2 s2
    by (auto simp: andThen_def split: option.splits sum.splits if_splits)
  have part2: "\<not> list_ex is_stat (issued s s')" if run: "rename e lim src dest True s = Some (r, s')"
  proof (cases "(\<not> hasPath ?S \<or> \<not> hasPath ?D) \<or> server ?S \<noteq> server ?D \<or> volume ?S \<noteq> volume ?D")
    case True
    with run have "s' = s" by (auto simp: rename_structured Let_def split: if_splits)
    then show ?thesis by simp
  next
    case False
    with run obtain r1 pu1 s1 where a: "ensureAttached e lim ?S s = Some (r1, pu1, s1)"
      by (auto simp: rename_structured Let_def split: option.splits)
    from ensureAttached_facts(1) [OF a, of s] have "only session_call s s1" by simp
    then have o: "only (\<lambda>c. \<not> is_stat c) s s1"
      by (rule only_mono) (rule session_call_not_stat)
    show ?thesis
    proof (cases "success r1")
      case False
      with run \<open>\<not> (_ \<or> _)\<close> a have "s' = s1" by (simp add: rename_structured Let_def)
      with o show ?thesis by (simp add: only_no_stat)
    next
      case True
      with run \<open>\<not> (_ \<or> _)\<close> a
      have "andThen (recover_once e lim ensureAttached ?mk pu1 s1) ?fin = Some (r, s')"
        by (simp add: rename_structured Let_def andThen_def)
      from fin [OF this] obtain x where
        "recover_once e lim ensureAttached ?mk pu1 s1 = Some (x, s')" ..
      from recover_once_calls [OF this _ o] have "only (\<lambda>c. \<not> is_stat c) s s'"
        by (simp add: session_call_not_stat)
      then show ?thesis by (rule only_no_stat)
    qed
  qed
  have part1: "(ret (fst (perform e ck s1)) = AFP_SERVER_RESULT_OKAY \<longrightarrow>
         rename e lim src dest False s =
           Some (Fail ERR_FILE_ALREADY_EXIST (Subject (path ?D)), snd (perform e ck s1)) \<and>
         issued s1 (snd (perform e ck s1)) = [ck]) \<and>
      (ret (fst (perform e ck s1)) \<noteq> AFP_SERVER_RESULT_OKAY \<and>
       rename e lim src dest False s = Some (r, s') \<longrightarrow> take 2 (issued s1 s') = [ck, rn]) \<and>
      (rename e lim src dest True s = Some (r, s') \<longrightarrow> hd (issued s1 s') = rn)"
    if v: "hasPath ?S" "hasPath ?D" "server ?S = server ?D" "volume ?S = volume ?D"
      and a: "ensureAttached e lim ?S s = Some (Pass, pu1, s1)"
      and ck: "ck = afp_sl_stat (m_volumeId (wk s1)) (urlpath (afpUrl ?D)) (afpUrl ?D)"
      and rn: "rn = afp_sl_rename (m_volumeId (wk s1)) (urlpath (afpUrl pu1))
           (urlpath (afpUrl ?D)) (afpUrl pu1)"
  proof (intro conjI impI)
    assume "ret (fst (perform e ck s1)) = AFP_SERVER_RESULT_OKAY"
    with v a ck show "rename e lim src dest False s =
           Some (Fail ERR_FILE_ALREADY_EXIST (Subject (path ?D)), snd (perform e ck s1))"
      by (simp add: rename_structured Let_def andThen_def split_beta)
    show "issued s1 (snd (perform e ck s1)) = [ck]" by simp
  next
    assume h: "ret (fst (perform e ck s1)) \<noteq> AFP_SERVER_RESULT_OKAY \<and>
       rename e lim src dest False s = Some (r, s')"
    let ?sk = "snd (perform e ck s1)"
    from h have h1: "ret (fst (perform e ck s1)) \<noteq> AFP_SERVER_RESULT_OKAY"
      and h2: "rename e lim src dest False s = Some (r, s')" by simp_all
    from h2 h1 v a ck
    have "andThen (recover_once e lim ensureAttached ?mk pu1 ?sk) ?fin = Some (r, s')"
      by (simp add: rename_structured Let_def andThen_def split_beta)
    from fin [OF this] obtain x where
      x: "recover_once e lim ensureAttached ?mk pu1 ?sk = Some (x, s')" ..
    from recover_once_first [OF x] have f: "issued ?sk s' \<noteq> []" "hd (issued ?sk s') = rn"
      by (simp_all add: rn)
    have "only (\<lambda>c. True) ?sk s'"
      by (rule recover_once_calls [OF x]) simp_all
    from issued_trans [OF _ this, of "\<lambda>c. True" s1]
    have "issued s1 s' = ck # issued ?sk s'" by (simp add: only_perform)
    with f show "take 2 (issued s1 s') = [ck, rn]"
      by (cases "issued ?sk s'") simp_all
  next
    assume "rename e lim src dest True s = Some (r, s')"
    with v a have "andThen (recover_once e lim ensureAttached ?mk pu1 s1) ?fin = Some (r, s')"
      by (simp add: rename_structured Let_def andThen_def)
    from fin [OF this] obtain x where
      x: "recover_once e lim ensureAttached ?mk pu1 s1 = Some (x, s')" ..
    from recover_once_first [OF x] show "hd (issued s1 s') = rn" by (simp add: rn)
  qed
  from part1 part2 show ?thesis by blast
qed

theorem rename_checks_destination_witness:
  "map_option fst (ensureAttached (env_stat AFP_SERVER_RESULT_OKAY) lim0
      (parseAfpUrl lim0 (url_of ''afp'' ''h'' ''/V/a'')) initial) = Some Pass \<and>
   map_option fst (rename (env_stat AFP_SERVER_RESULT_OKAY) lim0 (url_of ''afp'' ''h'' ''/V/a'')
      (url_of ''afp'' ''h'' ''/V/b'') False initial)
     = Some (Fail ERR_FILE_ALREADY_EXIST (Subject ''b'')) \<and>
   map_option (\<lambda>y. list_ex is_rename (issued initial (snd y)))
     (rename (env_stat AFP_SERVER_RESULT_OKAY) lim0 (url_of ''afp'' ''h'' ''/V/a'')
        (url_of ''afp'' ''h'' ''/V/b'') False initial) = Some False \<and>
   map_option (\<lambda>y. (fst y, map is_stat (filter (\<lambda>c. is_stat c \<or> is_rename c)
                                          (issued initial (snd y)))))
     (rename (env_stat AFP_SERVER_RESULT_ENOENT) lim0 (url_of ''afp'' ''h'' ''/V/a'')
        (url_of ''afp'' ''h'' ''/V/b'') False initial) = Some (Pass, [True, False]) \<and>
   map_option (\<lambda>y. (fst y, map is_stat (filter (\<lambda>c. is_stat c \<or> is_rename c)
                                          (issued initial (snd y)))))
     (rename (env_stat AFP_SERVER_RESULT_OKAY) lim0 (url_of ''afp'' ''h'' ''/V/a'')
        (url_of ''afp'' ''h'' ''/V/b'') True initial) = Some (Pass, [False])"
proof -
  let ?e = "env_stat AFP_SERVER_RESULT_OKAY"
  let ?src = "url_of ''afp'' ''h'' ''/V/a''" and ?dest = "url_of ''afp'' ''h'' ''/V/b''"
  let ?a = "ensureAttached ?e lim0 (parseAfpUrl lim0 ?src) initial"
  let ?pu1 = "fst (snd (the ?a))" and ?s1 = "snd (snd (the ?a))"
  let ?ck = "afp_sl_stat (m_volumeId (wk ?s1)) (urlpath (afpUrl (parseAfpUrl lim0 ?dest)))
           (afpUrl (parseAfpUrl lim0 ?dest))"
  let ?rn = "afp_sl_rename (m_volumeId (wk ?s1)) (urlpath (afpUrl ?pu1))
           (urlpath (afpUrl (parseAfpUrl lim0 ?dest))) (afpUrl ?pu1)"
  note t = rename_checks_destination [where e = ?e and lim = lim0 and src = ?src
      and dest = ?dest and s = initial and ?pu1.0 = ?pu1 and ?s1.0 = ?s1
      and ck = ?ck and rn = ?rn]
  have p: "map_option fst ?a = Some Pass" by code_simp
  then have a: "?a = Some (Pass, ?pu1, ?s1)" by (cases ?a) auto
  have v: "hasPath (parseAfpUrl lim0 ?src)" "hasPath (parseAfpUrl lim0 ?dest)"
    "server (parseAfpUrl lim0 ?src) = server (parseAfpUrl lim0 ?dest)"
    "volume (parseAfpUrl lim0 ?src) = volume (parseAfpUrl lim0 ?dest)"
    "path (parseAfpUrl lim0 ?dest) = ''b''"
    by code_simp+
  have k: "ret (fst (perform ?e ?ck ?s1)) = AFP_SERVER_RESULT_OKAY"
    by (simp add: env_stat_def answer_def)
  from v a have h: "hasPath (parseAfpUrl lim0 ?src) \<and> hasPath (parseAfpUrl lim0 ?dest) \<and>
    server (parseAfpUrl lim0 ?src) = server (parseAfpUrl lim0 ?dest) \<and>
    volume (parseAfpUrl lim0 ?src) = volume (parseAfpUrl lim0 ?dest) \<and>
    ?a = Some (Pass, ?pu1, ?s1) \<and> ?ck = ?ck \<and> ?rn = ?rn" by simp
  from t [THEN conjunct1, THEN mp, OF h, THEN conjunct1, THEN mp, OF k, THEN conjunct1]
  have r: "map_option fst (rename ?e lim0 ?src ?dest False initial)
     = Some (Fail ERR_FILE_ALREADY_EXIST (Subject ''b''))"
    by (simp add: v(5))
  have c1: "map_option (\<lambda>y. list_ex is_rename (issued initial (snd y)))
     (rename ?e lim0 ?src ?dest False initial) = Some False" by code_simp
  have c2: "map_option (\<lambda>y. (fst y, map is_stat (filter (\<lambda>c. is_stat c \<or> is_rename c)
                                          (issued initial (snd y)))))
     (rename (env_stat AFP_SERVER_RESULT_ENOENT) lim0 ?src ?dest False initial)
       = Some (Pass, [True, False])" by code_simp
  have c3: "map_option (\<lambda>y. (fst y, map is_stat (filter (\<lambda>c. is_stat c \<or> is_rename c)
                                          (issued initial (snd y)))))
     (rename ?e lim0 ?src ?dest True initial) = Some (Pass, [False])" by code_simp
  show ?thesis by (intro conjI p r c1 c2 c3)
qed


text \<open>
  C3.  The connect loop counts transient failures in \<open>transientRetries\<close>,
  from \<open>0\<close>.  When the connect call ends in a code that is neither a success
  nor an authentication failure and the counter is \<open>k\<close>, the loop sleeps
  \<open>500 * 2 ^ k\<close> milliseconds and goes on with the counter at \<open>k + 1\<close> if
  \<open>k < 3\<close>; otherwise it creates the breaker marker (the first call of
  \<open>tripBreaker\<close>) and returns the mapped connect error, which is never a
  success.  So every run of the loop that returns has slept \<open>500, 1000, ...\<close> at most three times, and one that
  returns a mapped connect error has slept \<open>500, 1000, 2000\<close> and created
  the marker.  When no connect call reports an authentication failure, the loop
  returns.
\<close>

theorem connect_retry_bounded:
  "(fst (fst (connectOnce e pu s)) \<notin> {AFP_SERVER_RESULT_OKAY,
       AFP_SERVER_RESULT_ALREADY_CONNECTED, AFP_SERVER_RESULT_NOAUTHENT} \<longrightarrow>
      connect_loop e lim pu info du fd k s =
        (if k < 3
         then connect_loop e lim pu info du fd (k + 1)
                (snd (perform e (msleep (500 * 2 ^ k)) (snd (connectOnce e pu s))))
         else Some (mapAfpConnectError (fst (fst (connectOnce e pu s))) (server pu), pu,
                    tripBreaker e fd (snd (connectOnce e pu s))))) \<and>
   hd (issued s1 (tripBreaker e fd s1)) = open_breaker \<and>
   mapAfpConnectError c sv \<noteq> Pass \<and>
   (connect_loop e lim pu info du fd 0 s = Some (r, pu', s') \<longrightarrow>
      (\<exists>j\<le>3. sleeps (issued s s') = map (\<lambda>i. 500 * 2 ^ i) [0..<j] \<and>
         (r = Pass \<or> r = Fail ERR_USER_CANCELED (Subject (server pu)) \<or>
          (j = 3 \<and> (\<exists>c. r = mapAfpConnectError c (server pu)) \<and>
           open_breaker \<in> set (issued s s'))))) \<and>
   ((\<forall>h u. ret (e h (afp_sl_connect u)) \<noteq> AFP_SERVER_RESULT_NOAUTHENT) \<longrightarrow>
      (\<exists>y. connect_loop e lim pu info du fd k s = Some y))"
proof (intro conjI impI)
  assume "fst (fst (connectOnce e pu s)) \<notin> {AFP_SERVER_RESULT_OKAY,
       AFP_SERVER_RESULT_ALREADY_CONNECTED, AFP_SERVER_RESULT_NOAUTHENT}"
  then show "connect_loop e lim pu info du fd k s =
        (if k < 3
         then connect_loop e lim pu info du fd (k + 1)
                (snd (perform e (msleep (500 * 2 ^ k)) (snd (connectOnce e pu s))))
         else Some (mapAfpConnectError (fst (fst (connectOnce e pu s))) (server pu), pu,
                    tripBreaker e fd (snd (connectOnce e pu s))))"
    by (rule connect_loop_transient)
next
  show "hd (issued s1 (tripBreaker e fd s1)) = open_breaker"
    by (simp add: issued_tripBreaker)
next
  show "mapAfpConnectError c sv \<noteq> Pass" by simp
next
  assume "connect_loop e lim pu info du fd 0 s = Some (r, pu', s')"
  from connect_loop_sleeps_aux [OF this]
  show "\<exists>j\<le>3. sleeps (issued s s') = map (\<lambda>i. 500 * 2 ^ i) [0..<j] \<and>
         (r = Pass \<or> r = Fail ERR_USER_CANCELED (Subject (server pu)) \<or>
          (j = 3 \<and> (\<exists>c. r = mapAfpConnectError c (server pu)) \<and>
           open_breaker \<in> set (issued s s')))"
    by simp
next
  assume "\<forall>h u. ret (e h (afp_sl_connect u)) \<noteq> AFP_SERVER_RESULT_NOAUTHENT"
  then show "\<exists>y. connect_loop e lim pu info du fd k s = Some y"
    by (rule connect_loop_returns)
qed

theorem connect_retry_bounded_witness:
  "(\<forall>h u. ret (env_retry 4 AFP_SERVER_RESULT_TIMEDOUT h (afp_sl_connect u))
       \<noteq> AFP_SERVER_RESULT_NOAUTHENT) \<and>
   (\<exists>y. connect_loop (env_retry 4 AFP_SERVER_RESULT_TIMEDOUT) lim0 (parseAfpUrl lim0 (url_of ''afp'' ''h'' ''/V/a''))
          (initialAuthInfo (parseAfpUrl lim0 (url_of ''afp'' ''h'' ''/V/a''))) False 3 0 initial = Some y) \<and>
   fst (fst (connectOnce (env_retry 4 AFP_SERVER_RESULT_TIMEDOUT) (parseAfpUrl lim0 (url_of ''afp'' ''h'' ''/V/a'')) initial)) = AFP_SERVER_RESULT_TIMEDOUT \<and>
   connect_loop (env_retry 4 AFP_SERVER_RESULT_TIMEDOUT) lim0 (parseAfpUrl lim0 (url_of ''afp'' ''h'' ''/V/a'')) (initialAuthInfo (parseAfpUrl lim0 (url_of ''afp'' ''h'' ''/V/a''))) False 3 0 initial =
     connect_loop (env_retry 4 AFP_SERVER_RESULT_TIMEDOUT) lim0 (parseAfpUrl lim0 (url_of ''afp'' ''h'' ''/V/a'')) (initialAuthInfo (parseAfpUrl lim0 (url_of ''afp'' ''h'' ''/V/a''))) False 3 1
       (snd (perform (env_retry 4 AFP_SERVER_RESULT_TIMEDOUT) (msleep 500) (snd (connectOnce (env_retry 4 AFP_SERVER_RESULT_TIMEDOUT) (parseAfpUrl lim0 (url_of ''afp'' ''h'' ''/V/a'')) initial)))) \<and>
   map_option (\<lambda>y. (fst y, sleeps (issued initial (snd (snd y)))))
     (connect_loop (env_retry 4 AFP_SERVER_RESULT_TIMEDOUT) lim0 (parseAfpUrl lim0 (url_of ''afp'' ''h'' ''/V/a'')) (initialAuthInfo (parseAfpUrl lim0 (url_of ''afp'' ''h'' ''/V/a''))) False 3 0 initial)
     = Some (Fail ERR_SERVER_TIMEOUT (SubjectThen ''h'' ''Connection timed out'' []),
             [500, 1000, 2000])"
proof -
  note t = connect_retry_bounded [where e = "env_retry 4 AFP_SERVER_RESULT_TIMEDOUT"
      and pu = "parseAfpUrl lim0 (url_of ''afp'' ''h'' ''/V/a'')" and s = initial and lim = lim0
      and info = "initialAuthInfo (parseAfpUrl lim0 (url_of ''afp'' ''h'' ''/V/a''))"
      and du = False and fd = 3 and k = 0]
  have a: "\<forall>h u. ret (env_retry 4 AFP_SERVER_RESULT_TIMEDOUT h (afp_sl_connect u))
       \<noteq> AFP_SERVER_RESULT_NOAUTHENT"
    by (simp add: env_retry_def answer_def)
  have b: "fst (fst (connectOnce (env_retry 4 AFP_SERVER_RESULT_TIMEDOUT) (parseAfpUrl lim0 (url_of ''afp'' ''h'' ''/V/a'')) initial)) = AFP_SERVER_RESULT_TIMEDOUT"
    by (simp add: connectOnce_ret connect_answer_def env_retry_def answer_def initial_def)
  have c: "map_option (\<lambda>y. (fst y, sleeps (issued initial (snd (snd y)))))
     (connect_loop (env_retry 4 AFP_SERVER_RESULT_TIMEDOUT) lim0 (parseAfpUrl lim0 (url_of ''afp'' ''h'' ''/V/a'')) (initialAuthInfo (parseAfpUrl lim0 (url_of ''afp'' ''h'' ''/V/a''))) False 3 0 initial)
     = Some (Fail ERR_SERVER_TIMEOUT (SubjectThen ''h'' ''Connection timed out'' []),
             [500, 1000, 2000])"
    by code_simp
  note d = t [THEN conjunct2, THEN conjunct2, THEN conjunct2, THEN conjunct2, THEN mp, OF a]
  from t [THEN conjunct1] b
  have e: "connect_loop (env_retry 4 AFP_SERVER_RESULT_TIMEDOUT) lim0 (parseAfpUrl lim0 (url_of ''afp'' ''h'' ''/V/a'')) (initialAuthInfo (parseAfpUrl lim0 (url_of ''afp'' ''h'' ''/V/a''))) False 3 0 initial =
     connect_loop (env_retry 4 AFP_SERVER_RESULT_TIMEDOUT) lim0 (parseAfpUrl lim0 (url_of ''afp'' ''h'' ''/V/a'')) (initialAuthInfo (parseAfpUrl lim0 (url_of ''afp'' ''h'' ''/V/a''))) False 3 1
       (snd (perform (env_retry 4 AFP_SERVER_RESULT_TIMEDOUT) (msleep 500) (snd (connectOnce (env_retry 4 AFP_SERVER_RESULT_TIMEDOUT) (parseAfpUrl lim0 (url_of ''afp'' ''h'' ''/V/a'')) initial))))"
    by simp
  show ?thesis by (intro conjI a b c d e)
qed
text \<open>
  C4.  For every identifier the decomposer gives the identifier's host as the
  server and works on the segments of the path: the maximal runs of characters
  other than the slash, empty runs dropped, whatever the number of slashes
  before, between and after them (the four equations of the split determine it
  on every string).  With no segment there is neither volume nor path.
  Otherwise the first segment is the volume and the remaining segments, with
  one slash between neighbours and none at the ends, are the path within the
  volume, so that \<open>/V/a/b\<close> has the volume \<open>V\<close> and the path \<open>a/b\<close>;
  and when nothing follows the volume, the target handed to the library has
  the path \<open>/\<close> (the path buffer holding at least two bytes), not an empty
  one.
\<close>

theorem parseAfpUrl_decomposition:
  "server (parseAfpUrl lim url) = q_host url \<and>
   splitSkipEmptyParts CHR ''/'' [] = [] \<and>
   splitSkipEmptyParts CHR ''/'' (CHR ''/'' # str) = splitSkipEmptyParts CHR ''/'' str \<and>
   (seg \<noteq> [] \<and> CHR ''/'' \<notin> set seg \<longrightarrow>
      splitSkipEmptyParts CHR ''/'' seg = [seg] \<and>
      splitSkipEmptyParts CHR ''/'' (seg @ CHR ''/'' # str) =
        seg # splitSkipEmptyParts CHR ''/'' str) \<and>
   (\<forall>p \<in> set (splitSkipEmptyParts CHR ''/'' (q_path url)). p \<noteq> [] \<and> CHR ''/'' \<notin> set p) \<and>
   join CHR ''/'' [] = [] \<and>
   join CHR ''/'' [seg] = seg \<and>
   join CHR ''/'' (seg # seg' # segs) = seg @ ''/'' @ join CHR ''/'' (seg' # segs) \<and>
   ((\<forall>p \<in> set segs. p \<noteq> [] \<and> CHR ''/'' \<notin> set p) \<longrightarrow>
      splitSkipEmptyParts CHR ''/'' (join CHR ''/'' segs) = segs \<and>
      splitSkipEmptyParts CHR ''/'' (concat (map (\<lambda>p. CHR ''/'' # p) segs)) = segs) \<and>
   (splitSkipEmptyParts CHR ''/'' (q_path url) = [] \<longrightarrow>
      \<not> hasVolume (parseAfpUrl lim url) \<and> \<not> hasPath (parseAfpUrl lim url) \<and>
      volume (parseAfpUrl lim url) = [] \<and> path (parseAfpUrl lim url) = []) \<and>
   (splitSkipEmptyParts CHR ''/'' (q_path url) = v # rest \<longrightarrow>
      hasVolume (parseAfpUrl lim url) \<and> volume (parseAfpUrl lim url) = v \<and>
      path (parseAfpUrl lim url) = join CHR ''/'' rest \<and>
      (hasPath (parseAfpUrl lim url) \<longleftrightarrow> rest \<noteq> []) \<and>
      (rest = [] \<and> 2 \<le> sz_path lim \<longrightarrow> urlpath (afpUrl (parseAfpUrl lim url)) = ''/'')) \<and>
   (v \<noteq> [] \<and> CHR ''/'' \<notin> set v \<and> a \<noteq> [] \<and> CHR ''/'' \<notin> set a \<and>
    b \<noteq> [] \<and> CHR ''/'' \<notin> set b \<and> q_path url = ''/'' @ v @ ''/'' @ a @ ''/'' @ b \<longrightarrow>
      volume (parseAfpUrl lim url) = v \<and> path (parseAfpUrl lim url) = a @ ''/'' @ b \<and>
      hasPath (parseAfpUrl lim url))"
proof (intro conjI impI)
  show "server (parseAfpUrl lim url) = q_host url" by simp
  show "splitSkipEmptyParts CHR ''/'' [] = []" by (simp add: splitSkipEmptyParts_def)
  show "splitSkipEmptyParts CHR ''/'' (CHR ''/'' # str) = splitSkipEmptyParts CHR ''/'' str"
    by (rule split_sep)
  show "\<forall>p \<in> set (splitSkipEmptyParts CHR ''/'' (q_path url)). p \<noteq> [] \<and> CHR ''/'' \<notin> set p"
    using splitSkipEmptyParts_parts by blast
  show "join CHR ''/'' [] = []" "join CHR ''/'' [seg] = seg"
    "join CHR ''/'' (seg # seg' # segs) = seg @ ''/'' @ join CHR ''/'' (seg' # segs)"
    by simp_all
next
  assume "seg \<noteq> [] \<and> CHR ''/'' \<notin> set seg"
  then have s: "seg \<noteq> []" "CHR ''/'' \<notin> set seg" by simp_all
  show "splitSkipEmptyParts CHR ''/'' seg = [seg]" by (rule split_seg [OF s])
  show "splitSkipEmptyParts CHR ''/'' (seg @ CHR ''/'' # str) =
        seg # splitSkipEmptyParts CHR ''/'' str" by (rule split_seg_sep [OF s])
next
  assume a: "\<forall>p \<in> set segs. p \<noteq> [] \<and> CHR ''/'' \<notin> set p"
  show "splitSkipEmptyParts CHR ''/'' (join CHR ''/'' segs) = segs"
    by (rule split_join [OF a])
  show "splitSkipEmptyParts CHR ''/'' (concat (map (\<lambda>p. CHR ''/'' # p) segs)) = segs"
    using split_acc_canonical [OF a, of "[]"] by (simp add: splitSkipEmptyParts_def)
next
  assume n: "splitSkipEmptyParts CHR ''/'' (q_path url) = []"
  note f = parseAfpUrl_no_segment [OF n, of lim]
  show "\<not> hasVolume (parseAfpUrl lim url)" "\<not> hasPath (parseAfpUrl lim url)"
    "volume (parseAfpUrl lim url) = []" "path (parseAfpUrl lim url) = []"
    using f by simp_all
next
  assume c: "splitSkipEmptyParts CHR ''/'' (q_path url) = v # rest"
  note f = parseAfpUrl_segments [OF c, of lim]
  show "hasVolume (parseAfpUrl lim url)" "volume (parseAfpUrl lim url) = v"
    "path (parseAfpUrl lim url) = join CHR ''/'' rest"
    "hasPath (parseAfpUrl lim url) \<longleftrightarrow> rest \<noteq> []"
    using f by simp_all
  assume "rest = [] \<and> 2 \<le> sz_path lim"
  with f show "urlpath (afpUrl (parseAfpUrl lim url)) = ''/''" by simp
next
  assume h: "v \<noteq> [] \<and> CHR ''/'' \<notin> set v \<and> a \<noteq> [] \<and> CHR ''/'' \<notin> set a \<and>
    b \<noteq> [] \<and> CHR ''/'' \<notin> set b \<and> q_path url = ''/'' @ v @ ''/'' @ a @ ''/'' @ b"
  then have "splitSkipEmptyParts CHR ''/'' (q_path url) = v # [a, b]"
    by (simp add: split_sep split_seg_sep split_seg)
  note f = parseAfpUrl_segments [OF this, of lim]
  show "volume (parseAfpUrl lim url) = v" "path (parseAfpUrl lim url) = a @ ''/'' @ b"
    "hasPath (parseAfpUrl lim url)"
    using f by simp_all
qed

theorem parseAfpUrl_decomposition_witness:
  "splitSkipEmptyParts CHR ''/'' ''/V/a/b'' = [''V'', ''a'', ''b''] \<and>
   splitSkipEmptyParts CHR ''/'' ''//V/a/'' = [''V'', ''a''] \<and>
   splitSkipEmptyParts CHR ''/'' ''V/a'' = [''V'', ''a''] \<and>
   join CHR ''/'' [''a'', ''b''] = ''a/b'' \<and>
   server (parseAfpUrl lim0 (url_of ''afp'' ''h'' ''/V/a/b'')) = ''h'' \<and>
   volume (parseAfpUrl lim0 (url_of ''afp'' ''h'' ''/V/a/b'')) = ''V'' \<and>
   path (parseAfpUrl lim0 (url_of ''afp'' ''h'' ''/V/a/b'')) = ''a/b'' \<and>
   hasPath (parseAfpUrl lim0 (url_of ''afp'' ''h'' ''/V/a/b'')) \<and>
   urlpath (afpUrl (parseAfpUrl lim0 (url_of ''afp'' ''h'' ''/V/a/b''))) = ''/a/b'' \<and>
   volume (parseAfpUrl lim0 (url_of ''afp'' ''h'' ''//V/a/'')) = ''V'' \<and>
   path (parseAfpUrl lim0 (url_of ''afp'' ''h'' ''//V/a/'')) = ''a'' \<and>
   volume (parseAfpUrl lim0 (url_of ''afp'' ''h'' ''V/a'')) = ''V'' \<and>
   path (parseAfpUrl lim0 (url_of ''afp'' ''h'' ''V/a'')) = ''a'' \<and>
   splitSkipEmptyParts CHR ''/'' (q_path (url_of ''afp'' ''h'' ''/V'')) = [''V''] \<and>
   2 \<le> sz_path lim0 \<and>
   volume (parseAfpUrl lim0 (url_of ''afp'' ''h'' ''/V'')) = ''V'' \<and>
   path (parseAfpUrl lim0 (url_of ''afp'' ''h'' ''/V'')) = [] \<and>
   \<not> hasPath (parseAfpUrl lim0 (url_of ''afp'' ''h'' ''/V'')) \<and>
   urlpath (afpUrl (parseAfpUrl lim0 (url_of ''afp'' ''h'' ''/V''))) = ''/'' \<and>
   \<not> hasVolume (parseAfpUrl lim0 (url_of ''afp'' ''h'' ''/''))"
proof -
  note t1 = parseAfpUrl_decomposition [where lim = lim0 and url = "url_of ''afp'' ''h'' ''/V/a/b''"
      and v = "''V''" and a = "''a''" and b = "''b''" and rest = "[''a'', ''b'']"]
  note t2 = parseAfpUrl_decomposition [where lim = lim0 and url = "url_of ''afp'' ''h'' ''/V''"
      and v = "''V''" and rest = "[]"]
  note t3 = parseAfpUrl_decomposition [where lim = lim0 and url = "url_of ''afp'' ''h'' ''//V/a/''"
      and v = "''V''" and rest = "[''a'']"]
  note t4 = parseAfpUrl_decomposition [where lim = lim0 and url = "url_of ''afp'' ''h'' ''V/a''"
      and v = "''V''" and rest = "[''a'']"]
  note t5 = parseAfpUrl_decomposition [where lim = lim0 and url = "url_of ''afp'' ''h'' ''/''"]
  have s: "splitSkipEmptyParts CHR ''/'' ''/V/a/b'' = [''V'', ''a'', ''b'']"
    "splitSkipEmptyParts CHR ''/'' ''//V/a/'' = [''V'', ''a'']"
    "splitSkipEmptyParts CHR ''/'' ''V/a'' = [''V'', ''a'']"
    "splitSkipEmptyParts CHR ''/'' ''/V'' = [''V'']"
    "splitSkipEmptyParts CHR ''/'' ''/'' = []"
    by (simp_all add: splitSkipEmptyParts_def)
  have u: "urlpath (afpUrl (parseAfpUrl lim0 (url_of ''afp'' ''h'' ''/V/a/b''))) = ''/a/b''"
    by code_simp
  have l: "2 \<le> sz_path lim0" by (simp add: lim0_def)
  show ?thesis
    using t1 t2 t3 t4 t5 s u l by simp
qed
text \<open>
  C5.  A delete whose target has no path within a volume (server root or volume
  root) fails with access-denied; a rename whose source or destination has no
  path within a volume, or whose source and destination differ in server or in
  volume, fails with unsupported-operation.  In each case the worker's state,
  the history of calls included, is the one it started from: no call at all was
  issued, so neither connect nor attach.
\<close>

theorem reject_roots_without_calls:
  "(length (splitSkipEmptyParts CHR ''/'' (q_path url)) \<le> 1 \<longrightarrow>
      (\<exists>m. del e lim url isFile s = Some (Fail ERR_ACCESS_DENIED m, s))) \<and>
   (length (splitSkipEmptyParts CHR ''/'' (q_path src)) \<le> 1 \<or>
    length (splitSkipEmptyParts CHR ''/'' (q_path dest)) \<le> 1 \<longrightarrow>
      (\<exists>m. rename e lim src dest overwrite s = Some (Fail ERR_UNSUPPORTED_ACTION m, s))) \<and>
   (q_host src \<noteq> q_host dest \<or>
    volume (parseAfpUrl lim src) \<noteq> volume (parseAfpUrl lim dest) \<longrightarrow>
      (\<exists>m. rename e lim src dest overwrite s = Some (Fail ERR_UNSUPPORTED_ACTION m, s)))"
proof (intro conjI impI)
  assume "length (splitSkipEmptyParts CHR ''/'' (q_path url)) \<le> 1"
  then have "\<not> hasPath (parseAfpUrl lim url)" by (simp add: parseAfpUrl_hasPath)
  then show "\<exists>m. del e lim url isFile s = Some (Fail ERR_ACCESS_DENIED m, s)"
    by (simp add: del_root)
next
  assume "length (splitSkipEmptyParts CHR ''/'' (q_path src)) \<le> 1 \<or>
    length (splitSkipEmptyParts CHR ''/'' (q_path dest)) \<le> 1"
  then have "\<not> hasPath (parseAfpUrl lim src) \<or> \<not> hasPath (parseAfpUrl lim dest)"
    by (auto simp: parseAfpUrl_hasPath)
  then show "\<exists>m. rename e lim src dest overwrite s = Some (Fail ERR_UNSUPPORTED_ACTION m, s)"
    by (simp add: rename_root)
next
  assume "q_host src \<noteq> q_host dest \<or>
    volume (parseAfpUrl lim src) \<noteq> volume (parseAfpUrl lim dest)"
  then show "\<exists>m. rename e lim src dest overwrite s = Some (Fail ERR_UNSUPPORTED_ACTION m, s)"
    using rename_across [of lim src dest e overwrite s] by simp
qed

theorem reject_roots_without_calls_witness:
  "length (splitSkipEmptyParts CHR ''/'' (q_path (url_of ''afp'' ''h'' ''/V''))) \<le> 1 \<and>
   del env_same lim0 (url_of ''afp'' ''h'' ''/V'') True initial =
     Some (Fail ERR_ACCESS_DENIED (I18n ''Cannot delete volume root'' []), initial) \<and>
   rename env_same lim0 (url_of ''afp'' ''h'' ''/V'') (url_of ''afp'' ''h'' ''/V/b'') False initial =
     Some (Fail ERR_UNSUPPORTED_ACTION (I18n ''Cannot rename volume roots'' []), initial) \<and>
   q_host (url_of ''afp'' ''h'' ''/V/a'') \<noteq> q_host (url_of ''afp'' ''g'' ''/V/a'') \<and>
   rename env_same lim0 (url_of ''afp'' ''h'' ''/V/a'') (url_of ''afp'' ''g'' ''/V/a'') False initial =
     Some (Fail ERR_UNSUPPORTED_ACTION (I18n ''Cannot rename across different volumes'' []), initial)"
proof -
  have a: "splitSkipEmptyParts CHR ''/'' ''/V'' = [''V'']"
    "splitSkipEmptyParts CHR ''/'' ''/V/a'' = [''V'', ''a'']"
    "splitSkipEmptyParts CHR ''/'' ''/V/b'' = [''V'', ''b'']"
    by (simp_all add: splitSkipEmptyParts_def)
  have b: "\<not> hasPath (parseAfpUrl lim0 (url_of ''afp'' ''h'' ''/V''))"
    "hasPath (parseAfpUrl lim0 (url_of ''afp'' ''h'' ''/V/a''))"
    "hasPath (parseAfpUrl lim0 (url_of ''afp'' ''g'' ''/V/a''))"
    by (simp_all add: parseAfpUrl_hasPath a)
  show ?thesis
    using reject_roots_without_calls [of "url_of ''afp'' ''h'' ''/V''" env_same lim0 True initial
        "url_of ''afp'' ''h'' ''/V''" "url_of ''afp'' ''h'' ''/V/b''" False]
      reject_roots_without_calls [of "url_of ''afp'' ''h'' ''/V''" env_same lim0 True initial
        "url_of ''afp'' ''h'' ''/V/a''" "url_of ''afp'' ''g'' ''/V/a''" False]
    by (simp add: a b del_root rename_def Let_def)
qed

text \<open>
  C6.  When the connect call answers success or already-connected with a null
  session handle, \<open>connectOnce\<close> turns the code into
  \<open>AFP_SERVER_RESULT_DAEMON_ERROR\<close> and leaves the session cache as it was,
  and the loop takes the transient path: a back-off sleep and another attempt
  while \<open>transientRetries < 3\<close>, else the breaker is tripped and the mapped
  daemon error returned.  A loop that returns success has cached a non-null
  server handle, one that returns anything else has left the cache untouched,
  and so has \<open>ensureConnected\<close>: on success the cached server handle is not
  null.
\<close>

theorem null_handle_is_daemon_error:
  "((ret (connect_answer e pu s) = AFP_SERVER_RESULT_OKAY \<or>
     ret (connect_answer e pu s) = AFP_SERVER_RESULT_ALREADY_CONNECTED) \<and>
    hnd (connect_answer e pu s) = 0 \<longrightarrow>
      fst (fst (connectOnce e pu s)) = AFP_SERVER_RESULT_DAEMON_ERROR \<and>
      wk (snd (connectOnce e pu s)) = wk s \<and>
      connect_loop e lim pu info du fd k s =
        (if k < 3
         then connect_loop e lim pu info du fd (k + 1)
                (snd (perform e (msleep (500 * 2 ^ k)) (snd (connectOnce e pu s))))
         else Some (Fail ERR_CANNOT_CONNECT
                      (SubjectThen (server pu) ''Cannot communicate with AFP server'' []), pu,
                    tripBreaker e fd (snd (connectOnce e pu s))))) \<and>
   (connect_loop e lim pu info du fd k s = Some (r, pu', s') \<longrightarrow>
      (if r = Pass then m_serverId (wk s') \<noteq> 0 else wk s' = wk s)) \<and>
   (ensureConnected e lim pu s = Some (r, pu', s') \<longrightarrow>
      (if r = Pass then m_serverId (wk s') \<noteq> 0 else m_serverId (wk s') = 0))"
proof (intro conjI impI)
  assume a: "(ret (connect_answer e pu s) = AFP_SERVER_RESULT_OKAY \<or>
     ret (connect_answer e pu s) = AFP_SERVER_RESULT_ALREADY_CONNECTED) \<and>
    hnd (connect_answer e pu s) = 0"
  then show d: "fst (fst (connectOnce e pu s)) = AFP_SERVER_RESULT_DAEMON_ERROR"
    by (simp add: connectOnce_ret)
  show "wk (snd (connectOnce e pu s)) = wk s" by (simp add: connectOnce_wk)
  from d show "connect_loop e lim pu info du fd k s =
        (if k < 3
         then connect_loop e lim pu info du fd (k + 1)
                (snd (perform e (msleep (500 * 2 ^ k)) (snd (connectOnce e pu s))))
         else Some (Fail ERR_CANNOT_CONNECT
                      (SubjectThen (server pu) ''Cannot communicate with AFP server'' []), pu,
                    tripBreaker e fd (snd (connectOnce e pu s))))"
    by (simp add: connect_loop_transient)
next
  assume "connect_loop e lim pu info du fd k s = Some (r, pu', s')"
  from connect_loop_facts(3,5) [OF this]
  show "if r = Pass then m_serverId (wk s') \<noteq> 0 else wk s' = wk s" by simp
next
  assume "ensureConnected e lim pu s = Some (r, pu', s')"
  from ensureConnected_facts(3,5) [OF this]
  show "if r = Pass then m_serverId (wk s') \<noteq> 0 else m_serverId (wk s') = 0" by simp
qed

theorem null_handle_is_daemon_error_witness:
  "ret (connect_answer (env_retry 1 AFP_SERVER_RESULT_OKAY) (parseAfpUrl lim0 (url_of ''afp'' ''h'' ''/V/a'')) initial) = AFP_SERVER_RESULT_OKAY \<and>
   hnd (connect_answer (env_retry 1 AFP_SERVER_RESULT_OKAY) (parseAfpUrl lim0 (url_of ''afp'' ''h'' ''/V/a'')) initial) = 0 \<and>
   fst (fst (connectOnce (env_retry 1 AFP_SERVER_RESULT_OKAY) (parseAfpUrl lim0 (url_of ''afp'' ''h'' ''/V/a'')) initial)) = AFP_SERVER_RESULT_DAEMON_ERROR \<and>
   connect_loop (env_retry 1 AFP_SERVER_RESULT_OKAY) lim0 (parseAfpUrl lim0 (url_of ''afp'' ''h'' ''/V/a'')) (initialAuthInfo (parseAfpUrl lim0 (url_of ''afp'' ''h'' ''/V/a''))) False 3 0 initial =
     connect_loop (env_retry 1 AFP_SERVER_RESULT_OKAY) lim0 (parseAfpUrl lim0 (url_of ''afp'' ''h'' ''/V/a'')) (initialAuthInfo (parseAfpUrl lim0 (url_of ''afp'' ''h'' ''/V/a''))) False 3 1
       (snd (perform (env_retry 1 AFP_SERVER_RESULT_OKAY) (msleep 500) (snd (connectOnce (env_retry 1 AFP_SERVER_RESULT_OKAY) (parseAfpUrl lim0 (url_of ''afp'' ''h'' ''/V/a'')) initial)))) \<and>
   map_option (\<lambda>y. (fst y, m_serverId (wk (snd (snd y))), sleeps (issued initial (snd (snd y)))))
     (ensureConnected (env_retry 1 AFP_SERVER_RESULT_OKAY) lim0 (parseAfpUrl lim0 (url_of ''afp'' ''h'' ''/V/a'')) initial) = Some (Pass, 1, [500])"
proof -
  note t = null_handle_is_daemon_error [where e = "env_retry 1 AFP_SERVER_RESULT_OKAY"
      and pu = "parseAfpUrl lim0 (url_of ''afp'' ''h'' ''/V/a'')" and s = initial and lim = lim0
      and info = "initialAuthInfo (parseAfpUrl lim0 (url_of ''afp'' ''h'' ''/V/a''))"
      and du = False and fd = 3 and k = 0]
  have a: "(ret (connect_answer (env_retry 1 AFP_SERVER_RESULT_OKAY) (parseAfpUrl lim0 (url_of ''afp'' ''h'' ''/V/a'')) initial) = AFP_SERVER_RESULT_OKAY \<or>
      ret (connect_answer (env_retry 1 AFP_SERVER_RESULT_OKAY) (parseAfpUrl lim0 (url_of ''afp'' ''h'' ''/V/a'')) initial) = AFP_SERVER_RESULT_ALREADY_CONNECTED) \<and>
     hnd (connect_answer (env_retry 1 AFP_SERVER_RESULT_OKAY) (parseAfpUrl lim0 (url_of ''afp'' ''h'' ''/V/a'')) initial) = 0"
    by (simp add: connect_answer_def env_retry_def answer_def initial_def)
  have a': "ret (connect_answer (env_retry 1 AFP_SERVER_RESULT_OKAY) (parseAfpUrl lim0 (url_of ''afp'' ''h'' ''/V/a'')) initial) = AFP_SERVER_RESULT_OKAY"
    by (simp add: connect_answer_def env_retry_def answer_def initial_def)
  have c: "map_option (\<lambda>y. (fst y, m_serverId (wk (snd (snd y))), sleeps (issued initial (snd (snd y)))))
     (ensureConnected (env_retry 1 AFP_SERVER_RESULT_OKAY) lim0 (parseAfpUrl lim0 (url_of ''afp'' ''h'' ''/V/a'')) initial) = Some (Pass, 1, [500])"
    by code_simp
  note d = t [THEN conjunct1, THEN mp, OF a]
  from d [THEN conjunct2, THEN conjunct2]
  have e: "connect_loop (env_retry 1 AFP_SERVER_RESULT_OKAY) lim0 (parseAfpUrl lim0 (url_of ''afp'' ''h'' ''/V/a'')) (initialAuthInfo (parseAfpUrl lim0 (url_of ''afp'' ''h'' ''/V/a''))) False 3 0 initial =
     connect_loop (env_retry 1 AFP_SERVER_RESULT_OKAY) lim0 (parseAfpUrl lim0 (url_of ''afp'' ''h'' ''/V/a'')) (initialAuthInfo (parseAfpUrl lim0 (url_of ''afp'' ''h'' ''/V/a''))) False 3 1
       (snd (perform (env_retry 1 AFP_SERVER_RESULT_OKAY) (msleep 500) (snd (connectOnce (env_retry 1 AFP_SERVER_RESULT_OKAY) (parseAfpUrl lim0 (url_of ''afp'' ''h'' ''/V/a'')) initial))))"
    by simp
  show ?thesis by (intro conjI a' a [THEN conjunct2] d [THEN conjunct1] e c)
qed

text \<open>
  C8, as the code has it.  The decomposer has no failure at all and never looks
  at the scheme: an identifier with any scheme is decomposed exactly as the same
  identifier with the scheme \<open>afp\<close>.
\<close>

theorem parseAfpUrl_ignores_scheme:
  "parseAfpUrl lim (url\<lparr>q_scheme := sch\<rparr>) = parseAfpUrl lim url"
  by (rule parseAfpUrl_scheme)

text \<open>
  C8 as stated asks for an unsupported-operation error on a wrong scheme.  An
  identifier with the scheme \<open>http\<close> is decomposed into a target like any
  other: stat of its server root passes, and deleting its volume root is
  refused as access-denied, not as unsupported-operation.
\<close>

theorem wrong_scheme_counterexample:
  "q_scheme (url_of ''http'' ''h'' ''/V'') \<noteq> ''afp'' \<and>
   server (parseAfpUrl lim0 (url_of ''http'' ''h'' ''/V'')) = ''h'' \<and>
   volume (parseAfpUrl lim0 (url_of ''http'' ''h'' ''/V'')) = ''V'' \<and>
   map_option fst (stat env_same lim0 (url_of ''http'' ''h'' []) initial) = Some Pass \<and>
   map_option fst (del env_same lim0 (url_of ''http'' ''h'' ''/V'') True initial) =
     Some (Fail ERR_ACCESS_DENIED (I18n ''Cannot delete volume root'' []))"
proof -
  have a: "splitSkipEmptyParts CHR ''/'' ''/V'' = [''V'']"
    "splitSkipEmptyParts CHR ''/'' [] = []"
    by (simp_all add: splitSkipEmptyParts_def)
  have b: "\<not> hasPath (parseAfpUrl lim0 (url_of ''http'' ''h'' ''/V''))"
    "\<not> hasVolume (parseAfpUrl lim0 (url_of ''http'' ''h'' []))"
    by (simp_all add: parseAfpUrl_hasPath parseAfpUrl_hasVolume a)
  show ?thesis
    by (simp add: a b del_root stat_def Let_def parseAfpUrl_volume)
qed



end
